theory Spec2Isabelle
  imports Complex_Main
begin

section \<open>The tube generator of subsurf\_cyl.py\<close>

text \<open>
  The theory embeds \<^verbatim>\<open>TubeMaker.execute\<close>: the derivation of the topology flags,
  the vertical placement, the control loop factors, the angular table, the index
  offsets of the vertex, face and UV buffers, and the loops that fill these buffers.

  Python's unbounded integers are \<^typ>\<open>int\<close>. Python's floats are idealised as
  \<^typ>\<open>real\<close>: rounding, infinities and NaN are not modelled, and a float division by
  zero raises \<^verbatim>\<open>ZeroDivisionError\<close> as in Python. A list assignment out of range
  raises \<^verbatim>\<open>IndexError\<close>; a negative index counts from the end of the list.
  The calls into the host (\<^verbatim>\<open>bpy\<close>, \<^verbatim>\<open>bmesh\<close>) are not modelled: the result of
  \<open>execute\<close> is the buffers the code hands to the host.
\<close>

subsection \<open>Python values, errors and loops\<close>

datatype py_error = IndexError | ZeroDivisionError

definition py_bind :: "py_error + 'a \<Rightarrow> ('a \<Rightarrow> py_error + 'b) \<Rightarrow> py_error + 'b" where
  "py_bind m f = (case m of Inl e \<Rightarrow> Inl e | Inr x \<Rightarrow> f x)"

text \<open>\<^verbatim>\<open>a / b\<close> on floats.\<close>

definition py_fdiv :: "real \<Rightarrow> real \<Rightarrow> py_error + real" where
  "py_fdiv a b = (if b = 0 then Inl ZeroDivisionError else Inr (a / b))"

text \<open>\<^verbatim>\<open>xs[i] = v\<close>.\<close>

definition py_set :: "'a list \<Rightarrow> int \<Rightarrow> 'a \<Rightarrow> py_error + 'a list" where
  "py_set xs i v =
     (if 0 \<le> i \<and> i < int (length xs) then Inr (xs[nat i := v])
      else if i < 0 \<and> - int (length xs) \<le> i then Inr (xs[nat (int (length xs) + i) := v])
      else Inl IndexError)"

text \<open>A block of assignments to one list, in the order they are written.\<close>

fun py_sets :: "'a list \<Rightarrow> (int \<times> 'a) list \<Rightarrow> py_error + 'a list" where
  "py_sets xs [] = Inr xs"
| "py_sets xs ((i, v) # ws) = py_bind (py_set xs i v) (\<lambda>xs'. py_sets xs' ws)"

text \<open>\<^verbatim>\<open>range(a, b)\<close> and \<^verbatim>\<open>for i in r: body\<close>, the body acting on the state \<open>s\<close>.\<close>

definition py_range :: "int \<Rightarrow> int \<Rightarrow> int list" where
  "py_range a b = [a..b - 1]"

fun for_loop :: "int list \<Rightarrow> (int \<Rightarrow> 's \<Rightarrow> py_error + 's) \<Rightarrow> 's \<Rightarrow> py_error + 's" where
  "for_loop [] body s = Inr s"
| "for_loop (i # r) body s = py_bind (body i s) (for_loop r body)"

text \<open>\<^verbatim>\<open>[x] * n\<close>: the empty list when \<open>n\<close> is negative.\<close>

definition py_repeat :: "'a \<Rightarrow> int \<Rightarrow> 'a list" where
  "py_repeat x n = replicate (nat n) x"

subsection \<open>Parameters and buffers\<close>

datatype cap_face = NGON | QUAD | TRI | NONE

record tube_params =
  sectors :: int
  orientation :: real
  radius_btm :: real
  radius_top :: real
  depth :: real
  depth_offset :: real
  cap_face_type :: cap_face
  edge_loop_fac :: real
  shade_smooth :: bool
  auto_normals :: bool
  auto_angle :: real
  calc_uvs :: bool

type_synonym vec3 = "real \<times> real \<times> real"
type_synonym vec2 = "real \<times> real"
type_synonym face = "int list"

record mesh =
  vs :: "vec3 list"
  v_idcs :: "face list"
  uvs :: "(vec2 list \<times> face list) option"

text \<open>The declared bounds of the operator's properties (lines 32 to 99): the host keeps
  a property inside its hard \<^verbatim>\<open>min\<close> and \<^verbatim>\<open>max\<close>.\<close>

definition declared_bounds :: "tube_params \<Rightarrow> bool" where
  "declared_bounds p \<longleftrightarrow>
     3 \<le> sectors p \<and> 0.001 \<le> radius_btm p \<and> 0.001 \<le> radius_top p \<and> 0.001 \<le> depth p \<and>
     - 1 \<le> depth_offset p \<and> depth_offset p \<le> 1 \<and>
     0 \<le> edge_loop_fac p \<and> edge_loop_fac p \<le> 1"

subsection \<open>Topology flags (lines 142 to 167)\<close>

record flags =
  cap_is_none :: bool
  cap_is_ngon :: bool
  cap_is_quad :: bool
  cap_is_tri :: bool
  use_center_spoke :: bool
  use_caps :: bool
  use_edge_loops :: bool

definition cap_flags :: "int \<Rightarrow> cap_face \<Rightarrow> real \<Rightarrow> flags" where
  "cap_flags n cft elf =
     (let none0 = (cft = NONE);
          ngon0 = (cft = NGON);
          quad0 = (cft = QUAD);
          tri0 = (cft = TRI);
          odd_or_small = (n < 5 \<or> n mod 2 \<noteq> 0);
          quad1 = (if odd_or_small then False else quad0);
          ngon1 = (if odd_or_small \<and> \<not> none0 then True else ngon0);
          tri1 = (if n < 4 then False else tri0);
          ngon2 = (if n < 4 \<and> \<not> none0 then True else ngon1)
      in \<lparr> cap_is_none = none0, cap_is_ngon = ngon2, cap_is_quad = quad1, cap_is_tri = tri1,
           use_center_spoke = (tri1 \<or> quad1),
           use_caps = (tri1 \<or> quad1 \<or> ngon2),
           use_edge_loops = (elf > 0 \<and> elf < 1) \<rparr>)"

subsection \<open>Vertical placement (lines 169 to 177)\<close>

definition vz_mid :: "tube_params \<Rightarrow> real" where
  "vz_mid p =
     (let offset_fac = depth_offset p * 0.5 + 0.5;
          half_depth = depth p * 0.5
      in (1 - offset_fac) * (- half_depth) + offset_fac * half_depth)"

definition vz_btm :: "tube_params \<Rightarrow> real" where
  "vz_btm p = vz_mid p - depth p * 0.5"

definition vz_top :: "tube_params \<Rightarrow> real" where
  "vz_top p = vz_mid p + depth p * 0.5"

subsection \<open>Control loop factors (lines 179 to 218)\<close>

record factors =
  t_btm :: real
  u_btm :: real
  t_top :: real
  u_top :: real
  t_fan_btm :: real
  u_fan_btm :: real
  t_fan_top :: real
  u_fan_top :: real

definition aspect_ratios :: "tube_params \<Rightarrow> flags \<Rightarrow> py_error + real \<times> real" where
  "aspect_ratios p fl =
     (if use_caps fl then
        py_bind (py_fdiv (radius_btm p) (depth p)) (\<lambda>aspect_ratio_btm.
        py_bind (py_fdiv (radius_top p) (depth p)) (\<lambda>aspect_ratio_top.
        Inr (aspect_ratio_btm, aspect_ratio_top)))
      else Inr (1, 1))"

definition ctrl_factors :: "tube_params \<Rightarrow> flags \<Rightarrow> py_error + factors" where
  "ctrl_factors p fl =
     py_bind (aspect_ratios p fl) (\<lambda>(aspect_ratio_btm, aspect_ratio_top).
     let t = edge_loop_fac p;
         u = 1 - t;
         tb = (if radius_btm p < depth p then t * aspect_ratio_btm else t);
         ub = (if radius_btm p < depth p then 1 - tb else u);
         tt = (if radius_top p < depth p then t * aspect_ratio_top else t);
         ut = (if radius_top p < depth p then 1 - tt else u)
     in
     py_bind (if radius_btm p \<ge> depth p then py_fdiv t aspect_ratio_btm else Inr t) (\<lambda>tfb.
     py_bind (if radius_top p \<ge> depth p then py_fdiv t aspect_ratio_top else Inr t) (\<lambda>tft.
     Inr \<lparr> t_btm = tb, u_btm = ub, t_top = tt, u_top = ut,
           t_fan_btm = tfb, u_fan_btm = (if radius_btm p \<ge> depth p then 1 - tfb else u),
           t_fan_top = tft, u_fan_top = (if radius_top p \<ge> depth p then 1 - tft else u) \<rparr>)))"

subsection \<open>The table of cosines and sines (lines 220 to 229)\<close>

text \<open>The loop assigns \<^verbatim>\<open>cartesian[i]\<close> for every \<open>i\<close> of \<^verbatim>\<open>range(0, sectors)\<close> in a list
  of that length: the result is the list of the values in order.\<close>

definition cartesian :: "tube_params \<Rightarrow> py_error + vec2 list" where
  "cartesian p =
     py_bind (py_fdiv (2 * pi) (of_int (sectors p))) (\<lambda>sectors_to_theta.
     Inr (map (\<lambda>i. let theta = orientation p + of_int i * sectors_to_theta
                   in (cos theta, sin theta))
              (py_range 0 (sectors p))))"

subsection \<open>Vertex index offsets (lines 231 to 269)\<close>

record v_idx =
  v_idx_btm_spoke :: int
  v_idx_btm_fan :: int
  v_idx_btm_ctrl :: int
  v_idx_btm_edge :: int
  v_idx_side_lwr_ctrl :: int
  v_idx_mid :: int
  v_idx_side_upp_ctrl :: int
  v_idx_top_edge :: int
  v_idx_top_ctrl :: int
  v_idx_top_fan :: int
  v_idx_top_spoke :: int
  len_vs :: int

definition v_offsets :: "int \<Rightarrow> flags \<Rightarrow> v_idx" where
  "v_offsets n fl =
     (let btm_spoke = 0;
          btm_fan = btm_spoke + (if use_center_spoke fl then 1 else 0);
          btm_ctrl = btm_fan + (if use_edge_loops fl \<and> use_caps fl then n else 0);
          btm_edge = btm_ctrl + (if use_edge_loops fl \<and> use_caps fl then n else 0);
          side_lwr_ctrl = btm_edge + n;
          mid = side_lwr_ctrl + (if use_edge_loops fl then n else 0);
          side_upp_ctrl = mid + (if use_edge_loops fl then n else 0);
          top_edge = side_upp_ctrl + (if use_edge_loops fl then n else 0);
          top_ctrl = top_edge + (if use_edge_loops fl then n else 0);
          top_fan = top_ctrl + (if use_edge_loops fl then n else 0);
          top_spoke = top_fan + (if use_caps fl \<or> cap_is_none fl then n else 0)
      in \<lparr> v_idx_btm_spoke = btm_spoke, v_idx_btm_fan = btm_fan, v_idx_btm_ctrl = btm_ctrl,
           v_idx_btm_edge = btm_edge, v_idx_side_lwr_ctrl = side_lwr_ctrl, v_idx_mid = mid,
           v_idx_side_upp_ctrl = side_upp_ctrl, v_idx_top_edge = top_edge,
           v_idx_top_ctrl = top_ctrl, v_idx_top_fan = top_fan, v_idx_top_spoke = top_spoke,
           len_vs = top_spoke + (if use_center_spoke fl then 1 else 0) \<rparr>)"

subsection \<open>Vertex positions (lines 271 to 357)\<close>

text \<open>The assignments of one pass of each loop, as pairs of an index and a value.
  \<^verbatim>\<open>cartesian[i]\<close> is read for \<open>i\<close> of \<^verbatim>\<open>range(0, sectors)\<close> only, inside the table.\<close>

definition edge_ring_writes ::
  "tube_params \<Rightarrow> v_idx \<Rightarrow> vec2 list \<Rightarrow> int \<Rightarrow> (int \<times> vec3) list" where
  "edge_ring_writes p ix cs i =
     (let cos_t = fst (cs ! nat i);
          sin_t = snd (cs ! nat i)
      in [(v_idx_btm_edge ix + i, (cos_t * radius_btm p, sin_t * radius_btm p, vz_btm p)),
          (v_idx_top_edge ix + i, (cos_t * radius_top p, sin_t * radius_top p, vz_top p))])"

definition side_ring_writes ::
  "tube_params \<Rightarrow> factors \<Rightarrow> v_idx \<Rightarrow> vec2 list \<Rightarrow> int \<Rightarrow> (int \<times> vec3) list" where
  "side_ring_writes p fc ix cs i =
     (let radius_mid = (radius_btm p + radius_top p) * 0.5;
          side_lwr_ctrl_z = u_btm fc * vz_btm p + t_btm fc * vz_mid p;
          side_upp_ctrl_z = u_top fc * vz_top p + t_top fc * vz_mid p;
          radius_side_lwr_ctrl = u_btm fc * radius_btm p + t_btm fc * radius_mid;
          radius_side_upp_ctrl = u_top fc * radius_top p + t_top fc * radius_mid;
          cos_t = fst (cs ! nat i);
          sin_t = snd (cs ! nat i)
      in [(v_idx_side_lwr_ctrl ix + i,
             (cos_t * radius_side_lwr_ctrl, sin_t * radius_side_lwr_ctrl, side_lwr_ctrl_z)),
          (v_idx_mid ix + i, (cos_t * radius_mid, sin_t * radius_mid, vz_mid p)),
          (v_idx_side_upp_ctrl ix + i,
             (cos_t * radius_side_upp_ctrl, sin_t * radius_side_upp_ctrl, side_upp_ctrl_z))])"

definition cap_ring_writes ::
  "tube_params \<Rightarrow> factors \<Rightarrow> v_idx \<Rightarrow> vec2 list \<Rightarrow> int \<Rightarrow> (int \<times> vec3) list" where
  "cap_ring_writes p fc ix cs i =
     (let radius_fan_btm = radius_btm p * 0.5;
          radius_cap_lwr_ctrl = u_fan_btm fc * radius_btm p + t_fan_btm fc * radius_fan_btm;
          radius_fan_top = radius_top p * 0.5;
          radius_cap_upp_ctrl = u_fan_top fc * radius_top p + t_fan_top fc * radius_fan_top;
          cos_t = fst (cs ! nat i);
          sin_t = snd (cs ! nat i)
      in [(v_idx_btm_fan ix + i, (cos_t * radius_fan_btm, sin_t * radius_fan_btm, vz_btm p)),
          (v_idx_btm_ctrl ix + i,
             (cos_t * radius_cap_lwr_ctrl, sin_t * radius_cap_lwr_ctrl, vz_btm p)),
          (v_idx_top_ctrl ix + i,
             (cos_t * radius_cap_upp_ctrl, sin_t * radius_cap_upp_ctrl, vz_top p)),
          (v_idx_top_fan ix + i, (cos_t * radius_fan_top, sin_t * radius_fan_top, vz_top p))])"

definition make_vs ::
  "tube_params \<Rightarrow> flags \<Rightarrow> factors \<Rightarrow> vec2 list \<Rightarrow> v_idx \<Rightarrow> py_error + vec3 list" where
  "make_vs p fl fc cs ix =
     (let vs0 = py_repeat (0, 0, 0) (len_vs ix);
          sectors_range = py_range 0 (sectors p)
      in
      py_bind (if use_center_spoke fl
               then py_sets vs0 [(v_idx_btm_spoke ix, (0, 0, vz_btm p)),
                                 (v_idx_top_spoke ix, (0, 0, vz_top p))]
               else Inr vs0) (\<lambda>vs1.
      py_bind (for_loop sectors_range (\<lambda>i vs. py_sets vs (edge_ring_writes p ix cs i)) vs1)
        (\<lambda>vs2.
      if use_edge_loops fl then
        py_bind (for_loop sectors_range (\<lambda>i vs. py_sets vs (side_ring_writes p fc ix cs i)) vs2)
          (\<lambda>vs3.
        if use_caps fl
        then for_loop sectors_range (\<lambda>i vs. py_sets vs (cap_ring_writes p fc ix cs i)) vs3
        else Inr vs3)
      else Inr vs2)))"

subsection \<open>Face loop offsets (lines 359 to 414)\<close>

record loop_idx =
  loop_idx_btm_fan :: int
  loop_idx_btm_mid :: int
  loop_idx_btm_ctrl :: int
  loop_idx_side_lwr_ctrl :: int
  loop_idx_side_lwr :: int
  loop_idx_side_upp :: int
  loop_idx_side_upp_ctrl :: int
  loop_idx_top_ctrl :: int
  loop_idx_top_mid :: int
  loop_idx_top_fan :: int
  len_loop_idcs :: int

text \<open>The number of faces of one cap: the \<^verbatim>\<open>if\<close>, \<^verbatim>\<open>elif\<close> chain of lines 369 to 374 and
  of lines 407 to 412.\<close>

definition cap_loops :: "int \<Rightarrow> flags \<Rightarrow> int" where
  "cap_loops n fl =
     (if cap_is_ngon fl then 1
      else if cap_is_quad fl then n div 2
      else if cap_is_tri fl then n
      else 0)"

definition loop_offsets :: "int \<Rightarrow> flags \<Rightarrow> loop_idx" where
  "loop_offsets n fl =
     (let btm_fan = 0;
          btm_mid = btm_fan + cap_loops n fl;
          btm_ctrl = btm_mid + (if use_edge_loops fl \<and> use_caps fl then n else 0);
          side_lwr_ctrl = btm_ctrl + (if use_edge_loops fl \<and> use_caps fl then n else 0);
          side_lwr = side_lwr_ctrl + (if use_edge_loops fl then n else 0);
          side_upp = side_lwr + (if use_edge_loops fl then n else 0);
          side_upp_ctrl = side_upp + (if use_edge_loops fl then n else 0);
          top_ctrl = side_upp_ctrl + (if use_edge_loops fl \<and> use_caps fl then n else 0);
          top_mid = top_ctrl + (if use_edge_loops fl \<and> use_caps fl then n else 0);
          top_fan = top_mid + n
      in \<lparr> loop_idx_btm_fan = btm_fan, loop_idx_btm_mid = btm_mid,
           loop_idx_btm_ctrl = btm_ctrl, loop_idx_side_lwr_ctrl = side_lwr_ctrl,
           loop_idx_side_lwr = side_lwr, loop_idx_side_upp = side_upp,
           loop_idx_side_upp_ctrl = side_upp_ctrl, loop_idx_top_ctrl = top_ctrl,
           loop_idx_top_mid = top_mid, loop_idx_top_fan = top_fan,
           len_loop_idcs = top_fan + cap_loops n fl \<rparr>)"

subsection \<open>Faces (lines 416 to 519, and the same patterns at lines 695 to 786)\<close>

text \<open>The cap faces and the cap bands are written twice in the source, once over the
  vertex offsets and once over the UV offsets: the offsets are arguments here.
  \<^verbatim>\<open>%\<close> is reached only after \<^verbatim>\<open>math.tau / sectors\<close> has succeeded, so its divisor
  is not zero, and Python's \<^verbatim>\<open>%\<close> and \<^verbatim>\<open>//\<close> round as \<open>mod\<close> and \<open>div\<close> on \<^typ>\<open>int\<close> do.\<close>

definition tri_fan_writes ::
  "int \<Rightarrow> loop_idx \<Rightarrow> int \<Rightarrow> int \<Rightarrow> int \<Rightarrow> int \<Rightarrow> int \<Rightarrow> (int \<times> face) list" where
  "tri_fan_writes n lx btm_spoke btm_fan top_spoke top_fan i =
     (let j = (i + 1) mod n
      in [(loop_idx_btm_fan lx + i, [btm_spoke, btm_fan + j, btm_fan + i]),
          (loop_idx_top_fan lx + i, [top_spoke, top_fan + i, top_fan + j])])"

definition quad_fan_writes ::
  "int \<Rightarrow> loop_idx \<Rightarrow> int \<Rightarrow> int \<Rightarrow> int \<Rightarrow> int \<Rightarrow> int \<Rightarrow> (int \<times> face) list" where
  "quad_fan_writes n lx btm_spoke btm_fan top_spoke top_fan h =
     (let i = h + h;
          j = (i + 1) mod n;
          k = (i + 2) mod n
      in [(loop_idx_btm_fan lx + h, [btm_spoke, btm_fan + k, btm_fan + j, btm_fan + i]),
          (loop_idx_top_fan lx + h, [top_spoke, top_fan + i, top_fan + j, top_fan + k])])"

definition ngon_writes :: "int \<Rightarrow> loop_idx \<Rightarrow> int \<Rightarrow> int \<Rightarrow> (int \<times> face) list" where
  "ngon_writes n lx btm_fan top_fan =
     (let idcs_btm_arr = map (\<lambda>i. btm_fan + n - 1 - (i - 1) mod n) (py_range 0 n);
          idcs_top_arr = map (\<lambda>i. top_fan + i) (py_range 0 n)
      in [(loop_idx_btm_fan lx, idcs_btm_arr), (loop_idx_top_fan lx, idcs_top_arr)])"

definition cap_faces ::
  "int \<Rightarrow> flags \<Rightarrow> loop_idx \<Rightarrow> int \<Rightarrow> int \<Rightarrow> int \<Rightarrow> int \<Rightarrow> face list \<Rightarrow> py_error + face list"
  where
  "cap_faces n fl lx btm_spoke btm_fan top_spoke top_fan fs =
     (if cap_is_tri fl then
        for_loop (py_range 0 n)
          (\<lambda>i fs. py_sets fs (tri_fan_writes n lx btm_spoke btm_fan top_spoke top_fan i)) fs
      else if cap_is_quad fl then
        for_loop (py_range 0 (n div 2))
          (\<lambda>h fs. py_sets fs (quad_fan_writes n lx btm_spoke btm_fan top_spoke top_fan h)) fs
      else if cap_is_ngon fl then py_sets fs (ngon_writes n lx btm_fan top_fan)
      else Inr fs)"

definition cap_band_writes ::
  "int \<Rightarrow> loop_idx \<Rightarrow> int \<Rightarrow> int \<Rightarrow> int \<Rightarrow> int \<Rightarrow> int \<Rightarrow> int \<Rightarrow> int \<Rightarrow> (int \<times> face) list"
  where
  "cap_band_writes n lx btm_fan btm_ctrl btm_edge top_edge top_ctrl top_fan i =
     (let j = (i + 1) mod n
      in [(loop_idx_btm_mid lx + i, [btm_fan + i, btm_fan + j, btm_ctrl + j, btm_ctrl + i]),
          (loop_idx_btm_ctrl lx + i, [btm_ctrl + i, btm_ctrl + j, btm_edge + j, btm_edge + i]),
          (loop_idx_top_ctrl lx + i, [top_edge + i, top_edge + j, top_ctrl + j, top_ctrl + i]),
          (loop_idx_top_mid lx + i, [top_ctrl + i, top_ctrl + j, top_fan + j, top_fan + i])])"

text \<open>Side faces over the vertex offsets (lines 482 to 519).\<close>

definition side_band_writes :: "int \<Rightarrow> loop_idx \<Rightarrow> v_idx \<Rightarrow> int \<Rightarrow> (int \<times> face) list" where
  "side_band_writes n lx ix i =
     (let j = i + 1;
          k = j mod n
      in [(loop_idx_side_lwr_ctrl lx + i,
             [v_idx_btm_edge ix + i, v_idx_btm_edge ix + k,
              v_idx_side_lwr_ctrl ix + k, v_idx_side_lwr_ctrl ix + i]),
          (loop_idx_side_lwr lx + i,
             [v_idx_side_lwr_ctrl ix + i, v_idx_side_lwr_ctrl ix + k,
              v_idx_mid ix + k, v_idx_mid ix + i]),
          (loop_idx_side_upp lx + i,
             [v_idx_mid ix + i, v_idx_mid ix + k,
              v_idx_side_upp_ctrl ix + k, v_idx_side_upp_ctrl ix + i]),
          (loop_idx_side_upp_ctrl lx + i,
             [v_idx_side_upp_ctrl ix + i, v_idx_side_upp_ctrl ix + k,
              v_idx_top_edge ix + k, v_idx_top_edge ix + i])])"

definition side_strip_writes :: "int \<Rightarrow> loop_idx \<Rightarrow> v_idx \<Rightarrow> int \<Rightarrow> (int \<times> face) list" where
  "side_strip_writes n lx ix i =
     (let j = i + 1;
          k = j mod n
      in [(loop_idx_side_lwr_ctrl lx + i,
             [v_idx_btm_edge ix + i, v_idx_btm_edge ix + k,
              v_idx_top_edge ix + k, v_idx_top_edge ix + i])])"

definition make_v_idcs :: "int \<Rightarrow> flags \<Rightarrow> v_idx \<Rightarrow> loop_idx \<Rightarrow> py_error + face list" where
  "make_v_idcs n fl ix lx =
     (let v_idcs0 = py_repeat [0, 0, 0, 0] (len_loop_idcs lx);
          sectors_range = py_range 0 n
      in
      py_bind (cap_faces n fl lx (v_idx_btm_spoke ix) (v_idx_btm_fan ix)
                 (v_idx_top_spoke ix) (v_idx_top_fan ix) v_idcs0) (\<lambda>v_idcs1.
      if use_edge_loops fl then
        py_bind (if use_caps fl
                 then for_loop sectors_range
                        (\<lambda>i fs. py_sets fs
                           (cap_band_writes n lx (v_idx_btm_fan ix) (v_idx_btm_ctrl ix)
                              (v_idx_btm_edge ix) (v_idx_top_edge ix) (v_idx_top_ctrl ix)
                              (v_idx_top_fan ix) i)) v_idcs1
                 else Inr v_idcs1) (\<lambda>v_idcs2.
        for_loop sectors_range (\<lambda>i fs. py_sets fs (side_band_writes n lx ix i)) v_idcs2)
      else for_loop sectors_range (\<lambda>i fs. py_sets fs (side_strip_writes n lx ix i)) v_idcs1))"

subsection \<open>UV index offsets (lines 539 to 597)\<close>

record vt_idx =
  vt_idx_btm_strip :: int
  vt_idx_top_strip :: int
  vt_idx_side_lwr_ctrl :: int
  vt_idx_mid_strip :: int
  vt_idx_side_upp_ctrl :: int
  vt_idx_btm_edge :: int
  vt_idx_btm_ctrl :: int
  vt_idx_btm_fan :: int
  vt_idx_top_edge :: int
  vt_idx_top_ctrl :: int
  vt_idx_top_fan :: int
  vt_idx_btm_spoke :: int
  vt_idx_top_spoke :: int
  len_vts :: int

definition vt_len :: "int \<Rightarrow> flags \<Rightarrow> int" where
  "vt_len n fl =
     (let sectorsp1 = n + 1;
          l0 = sectorsp1 * 2;
          l1 = l0 + (if use_edge_loops fl then sectorsp1 * 3 else 0)
      in if use_caps fl
         then l1 + n * 2 + (if use_edge_loops fl then n * 4 else 0)
                + (if use_center_spoke fl then 2 else 0)
         else l1)"

definition vt_offsets :: "int \<Rightarrow> flags \<Rightarrow> vt_idx" where
  "vt_offsets n fl =
     (let sectorsp1 = n + 1;
          sectorsp1_2 = sectorsp1 * 2;
          sectorsp1_5 = sectorsp1 * 5;
          el = use_edge_loops fl;
          caps = use_caps fl;
          spoke = use_center_spoke fl
      in \<lparr> vt_idx_btm_strip = 0,
           vt_idx_top_strip = sectorsp1,
           vt_idx_side_lwr_ctrl = (if el then sectorsp1 * 2 else - 1),
           vt_idx_mid_strip = (if el then sectorsp1 * 3 else - 1),
           vt_idx_side_upp_ctrl = (if el then sectorsp1 * 4 else - 1),
           vt_idx_btm_edge = (if caps then (if el then sectorsp1_5 else sectorsp1_2) else - 1),
           vt_idx_btm_ctrl = (if caps \<and> el then sectorsp1_5 + n else - 1),
           vt_idx_btm_fan =
             (if caps then (if el then sectorsp1_5 + n * 2 else sectorsp1_2) else - 1),
           vt_idx_top_edge =
             (if caps then (if el then sectorsp1_5 + n * 3 else sectorsp1_2 + n) else - 1),
           vt_idx_top_ctrl = (if caps \<and> el then sectorsp1_5 + n * 4 else - 1),
           vt_idx_top_fan =
             (if caps then (if el then sectorsp1_5 + n * 5 else sectorsp1_2 + n) else - 1),
           vt_idx_btm_spoke = (if caps \<and> spoke then vt_len n fl - 2 else - 1),
           vt_idx_top_spoke = (if caps \<and> spoke then vt_len n fl - 1 else - 1),
           len_vts = vt_len n fl \<rparr>)"

subsection \<open>UV coordinates (lines 599 to 690)\<close>

definition vts_min_y :: "flags \<Rightarrow> real" where
  "vts_min_y fl = (if use_caps fl then 0.5 else 0)"

definition vts_max_y :: real where
  "vts_max_y = 1"

definition strip_writes :: "flags \<Rightarrow> vt_idx \<Rightarrow> real \<Rightarrow> int \<Rightarrow> (int \<times> vec2) list" where
  "strip_writes fl tx sectors_to_uv j =
     (let x = of_int j * sectors_to_uv
      in [(vt_idx_btm_strip tx + j, (x, vts_min_y fl)),
          (vt_idx_top_strip tx + j, (x, vts_max_y))])"

definition ctrl_strip_writes ::
  "flags \<Rightarrow> factors \<Rightarrow> vt_idx \<Rightarrow> real \<Rightarrow> int \<Rightarrow> (int \<times> vec2) list" where
  "ctrl_strip_writes fl fc tx sectors_to_uv j =
     (let vts_mid_y = (vts_min_y fl + vts_max_y) * 0.5;
          vt_side_lwr_ctrl_y = u_btm fc * vts_min_y fl + t_btm fc * vts_mid_y;
          vt_side_upp_ctrl_y = u_top fc * vts_max_y + t_top fc * vts_mid_y;
          x = of_int j * sectors_to_uv
      in [(vt_idx_side_lwr_ctrl tx + j, (x, vt_side_lwr_ctrl_y)),
          (vt_idx_mid_strip tx + j, (x, vts_mid_y)),
          (vt_idx_side_upp_ctrl tx + j, (x, vt_side_upp_ctrl_y))])"

definition vts_rad :: real where
  "vts_rad = 0.25"

definition vt_btm_center :: vec2 where
  "vt_btm_center = (0.75, 0.25)"

definition vt_top_center :: vec2 where
  "vt_top_center = (0.25, 0.25)"

definition rim_writes :: "vt_idx \<Rightarrow> vec2 list \<Rightarrow> int \<Rightarrow> (int \<times> vec2) list" where
  "rim_writes tx cs i =
     (let cos_t = fst (cs ! nat i);
          sin_t = snd (cs ! nat i)
      in [(vt_idx_btm_edge tx + i,
             (fst vt_btm_center + cos_t * vts_rad, snd vt_btm_center + sin_t * vts_rad)),
          (vt_idx_top_edge tx + i,
             (fst vt_top_center + cos_t * vts_rad, snd vt_top_center + sin_t * vts_rad))])"

definition cap_uv_writes :: "factors \<Rightarrow> vt_idx \<Rightarrow> vec2 list \<Rightarrow> int \<Rightarrow> (int \<times> vec2) list" where
  "cap_uv_writes fc tx cs i =
     (let vts_radius_mid = vts_rad * 0.5;
          vts_radius_cap_lwr_ctrl = u_fan_btm fc * vts_rad + t_fan_btm fc * vts_radius_mid;
          vts_radius_cap_upp_ctrl = u_fan_top fc * vts_rad + t_fan_top fc * vts_radius_mid;
          cos_t = fst (cs ! nat i);
          sin_t = snd (cs ! nat i);
          cos_t_mid = cos_t * vts_radius_mid;
          sin_t_mid = sin_t * vts_radius_mid
      in [(vt_idx_btm_fan tx + i, (fst vt_btm_center + cos_t_mid, snd vt_btm_center + sin_t_mid)),
          (vt_idx_btm_ctrl tx + i,
             (fst vt_btm_center + cos_t * vts_radius_cap_lwr_ctrl,
              snd vt_btm_center + sin_t * vts_radius_cap_lwr_ctrl)),
          (vt_idx_top_ctrl tx + i,
             (fst vt_top_center + cos_t * vts_radius_cap_upp_ctrl,
              snd vt_top_center + sin_t * vts_radius_cap_upp_ctrl)),
          (vt_idx_top_fan tx + i,
             (fst vt_top_center + cos_t_mid, snd vt_top_center + sin_t_mid))])"

definition make_vts ::
  "int \<Rightarrow> flags \<Rightarrow> factors \<Rightarrow> vec2 list \<Rightarrow> vt_idx \<Rightarrow> py_error + vec2 list" where
  "make_vts n fl fc cs tx =
     (let vts0 = py_repeat (0, 0) (len_vts tx);
          sectors_range = py_range 0 n;
          sectorsp1_range = py_range 0 (n + 1)
      in
      py_bind (py_fdiv 1 (of_int n)) (\<lambda>sectors_to_uv.
      py_bind (for_loop sectorsp1_range
                 (\<lambda>j vts. py_sets vts (strip_writes fl tx sectors_to_uv j)) vts0) (\<lambda>vts1.
      py_bind (if use_edge_loops fl
               then for_loop sectorsp1_range
                      (\<lambda>j vts. py_sets vts (ctrl_strip_writes fl fc tx sectors_to_uv j)) vts1
               else Inr vts1) (\<lambda>vts2.
      if use_caps fl then
        py_bind (if use_center_spoke fl
                 then py_sets vts2 [(vt_idx_btm_spoke tx, vt_btm_center),
                                    (vt_idx_top_spoke tx, vt_top_center)]
                 else Inr vts2) (\<lambda>vts3.
        py_bind (for_loop sectors_range (\<lambda>i vts. py_sets vts (rim_writes tx cs i)) vts3)
          (\<lambda>vts4.
        if use_edge_loops fl
        then for_loop sectors_range (\<lambda>i vts. py_sets vts (cap_uv_writes fc tx cs i)) vts4
        else Inr vts4))
      else Inr vts2))))"

subsection \<open>UV faces (lines 692 to 786)\<close>

definition uv_side_band_writes :: "loop_idx \<Rightarrow> vt_idx \<Rightarrow> int \<Rightarrow> (int \<times> face) list" where
  "uv_side_band_writes lx tx i =
     (let j = i + 1
      in [(loop_idx_side_lwr_ctrl lx + i,
             [vt_idx_btm_strip tx + i, vt_idx_btm_strip tx + j,
              vt_idx_side_lwr_ctrl tx + j, vt_idx_side_lwr_ctrl tx + i]),
          (loop_idx_side_lwr lx + i,
             [vt_idx_side_lwr_ctrl tx + i, vt_idx_side_lwr_ctrl tx + j,
              vt_idx_mid_strip tx + j, vt_idx_mid_strip tx + i]),
          (loop_idx_side_upp lx + i,
             [vt_idx_mid_strip tx + i, vt_idx_mid_strip tx + j,
              vt_idx_side_upp_ctrl tx + j, vt_idx_side_upp_ctrl tx + i]),
          (loop_idx_side_upp_ctrl lx + i,
             [vt_idx_side_upp_ctrl tx + i, vt_idx_side_upp_ctrl tx + j,
              vt_idx_top_strip tx + j, vt_idx_top_strip tx + i])])"

definition uv_side_strip_writes :: "loop_idx \<Rightarrow> vt_idx \<Rightarrow> int \<Rightarrow> (int \<times> face) list" where
  "uv_side_strip_writes lx tx i =
     (let j = i + 1
      in [(loop_idx_side_lwr_ctrl lx + i,
             [vt_idx_btm_strip tx + i, vt_idx_btm_strip tx + j,
              vt_idx_top_strip tx + j, vt_idx_top_strip tx + i])])"

definition make_vt_idcs :: "int \<Rightarrow> flags \<Rightarrow> vt_idx \<Rightarrow> loop_idx \<Rightarrow> py_error + face list" where
  "make_vt_idcs n fl tx lx =
     (let vt_idcs0 = py_repeat [0, 0, 0, 0] (len_loop_idcs lx);
          sectors_range = py_range 0 n
      in
      py_bind (cap_faces n fl lx (vt_idx_btm_spoke tx) (vt_idx_btm_fan tx)
                 (vt_idx_top_spoke tx) (vt_idx_top_fan tx) vt_idcs0) (\<lambda>vt_idcs1.
      if use_edge_loops fl then
        py_bind (if use_caps fl
                 then for_loop sectors_range
                        (\<lambda>i fs. py_sets fs
                           (cap_band_writes n lx (vt_idx_btm_fan tx) (vt_idx_btm_ctrl tx)
                              (vt_idx_btm_edge tx) (vt_idx_top_edge tx) (vt_idx_top_ctrl tx)
                              (vt_idx_top_fan tx) i)) vt_idcs1
                 else Inr vt_idcs1) (\<lambda>vt_idcs2.
        for_loop sectors_range (\<lambda>i fs. py_sets fs (uv_side_band_writes lx tx i)) vt_idcs2)
      else for_loop sectors_range (\<lambda>i fs. py_sets fs (uv_side_strip_writes lx tx i)) vt_idcs1))"

subsection \<open>The generator (lines 125 to 802)\<close>

text \<open>The statements in the order of the source: flags, factors, table, vertex offsets
  and positions, face offsets and faces, and, when \<^verbatim>\<open>calc_uvs\<close> is set, the UV offsets,
  coordinates and faces. The first statement that raises ends the call.\<close>

definition make_uvs ::
  "tube_params \<Rightarrow> flags \<Rightarrow> factors \<Rightarrow> vec2 list \<Rightarrow> loop_idx \<Rightarrow>
   py_error + (vec2 list \<times> face list) option" where
  "make_uvs p fl fc cs lx =
     (if calc_uvs p then
        (let tx = vt_offsets (sectors p) fl
         in py_bind (make_vts (sectors p) fl fc cs tx) (\<lambda>vts.
            py_bind (make_vt_idcs (sectors p) fl tx lx) (\<lambda>vt_idcs.
            Inr (Some (vts, vt_idcs)))))
      else Inr None)"

definition execute :: "tube_params \<Rightarrow> py_error + mesh" where
  "execute p =
     (let fl = cap_flags (sectors p) (cap_face_type p) (edge_loop_fac p)
      in
      py_bind (ctrl_factors p fl) (\<lambda>fc.
      py_bind (cartesian p) (\<lambda>cs.
      let ix = v_offsets (sectors p) fl
      in
      py_bind (make_vs p fl fc cs ix) (\<lambda>vs1.
      let lx = loop_offsets (sectors p) fl
      in
      py_bind (make_v_idcs (sectors p) fl ix lx) (\<lambda>v_idcs1.
      py_bind (make_uvs p fl fc cs lx) (\<lambda>uvs1.
      Inr \<lparr> vs = vs1, v_idcs = v_idcs1, uvs = uvs1 \<rparr>))))))"

section \<open>Closed forms of the loops\<close>

text \<open>Each loop of the generator is a block of assignments; the definitions below name
  the blocks, the buffers they produce and the inputs the theorems are stated on.\<close>

text \<open>The list after a block of assignments whose indices all lie inside the list.\<close>

definition upd_all :: "(int \<times> 'a) list \<Rightarrow> 'a list \<Rightarrow> 'a list" where
  "upd_all ws xs = fold (\<lambda>w ys. ys[nat (fst w) := snd w]) ws xs"

text \<open>All the assignments of the vertex stage (lines 271 to 357), in their order.\<close>

definition vs_writes ::
  "tube_params \<Rightarrow> flags \<Rightarrow> factors \<Rightarrow> vec2 list \<Rightarrow> v_idx \<Rightarrow> (int \<times> vec3) list" where
  "vs_writes p fl fc cs ix =
     (if use_center_spoke fl
      then [(v_idx_btm_spoke ix, (0, 0, vz_btm p)), (v_idx_top_spoke ix, (0, 0, vz_top p))]
      else []) @
     concat (map (edge_ring_writes p ix cs) (py_range 0 (sectors p))) @
     (if use_edge_loops fl
      then concat (map (side_ring_writes p fc ix cs) (py_range 0 (sectors p))) @
           (if use_caps fl
            then concat (map (cap_ring_writes p fc ix cs) (py_range 0 (sectors p)))
            else [])
      else [])"

text \<open>The flags are consistent: the derived flags are the disjunctions of lines 164 and
  165, caps or no caps are requested, and at most one cap style stands.\<close>

definition flags_ok :: "flags \<Rightarrow> bool" where
  "flags_ok fl \<longleftrightarrow>
     use_center_spoke fl = (cap_is_tri fl \<or> cap_is_quad fl) \<and>
     use_caps fl = (cap_is_tri fl \<or> cap_is_quad fl \<or> cap_is_ngon fl) \<and>
     (use_caps fl \<or> cap_is_none fl) \<and>
     \<not> (cap_is_tri fl \<and> cap_is_quad fl) \<and>
     \<not> (cap_is_quad fl \<and> cap_is_ngon fl) \<and>
     \<not> (cap_is_tri fl \<and> cap_is_ngon fl)"

text \<open>All the assignments of the cap faces (lines 416 to 451), in their order.\<close>

definition fan_writes ::
  "int \<Rightarrow> flags \<Rightarrow> loop_idx \<Rightarrow> int \<Rightarrow> int \<Rightarrow> int \<Rightarrow> int \<Rightarrow> (int \<times> face) list" where
  "fan_writes n fl lx btm_spoke btm_fan top_spoke top_fan =
     (if cap_is_tri fl then
        concat (map (tri_fan_writes n lx btm_spoke btm_fan top_spoke top_fan) (py_range 0 n))
      else if cap_is_quad fl then
        concat (map (quad_fan_writes n lx btm_spoke btm_fan top_spoke top_fan)
                  (py_range 0 (n div 2)))
      else if cap_is_ngon fl then ngon_writes n lx btm_fan top_fan
      else [])"

text \<open>All the assignments of the face stage (lines 416 to 519), in their order.\<close>

definition v_idcs_writes :: "int \<Rightarrow> flags \<Rightarrow> v_idx \<Rightarrow> loop_idx \<Rightarrow> (int \<times> face) list" where
  "v_idcs_writes n fl ix lx =
     fan_writes n fl lx (v_idx_btm_spoke ix) (v_idx_btm_fan ix)
       (v_idx_top_spoke ix) (v_idx_top_fan ix) @
     (if use_edge_loops fl
      then (if use_caps fl
            then concat (map (cap_band_writes n lx (v_idx_btm_fan ix) (v_idx_btm_ctrl ix)
                                (v_idx_btm_edge ix) (v_idx_top_edge ix) (v_idx_top_ctrl ix)
                                (v_idx_top_fan ix)) (py_range 0 n))
            else []) @
           concat (map (side_band_writes n lx ix) (py_range 0 n))
      else concat (map (side_strip_writes n lx ix) (py_range 0 n)))"

text \<open>The index \<open>k\<close> lies in the ring of \<open>n\<close> cells that starts at \<open>b\<close>.\<close>

definition in_ring :: "int \<Rightarrow> int \<Rightarrow> int \<Rightarrow> bool" where
  "in_ring n b k \<longleftrightarrow> b \<le> k \<and> k < b + n"

text \<open>The offsets of the rings of the vertex layout.\<close>

definition v_rings :: "v_idx \<Rightarrow> int set" where
  "v_rings ix = {v_idx_btm_fan ix, v_idx_btm_ctrl ix, v_idx_btm_edge ix,
     v_idx_side_lwr_ctrl ix, v_idx_mid ix, v_idx_side_upp_ctrl ix, v_idx_top_edge ix,
     v_idx_top_ctrl ix, v_idx_top_fan ix}"

text \<open>All the assignments of the UV coordinates (lines 608 to 690), in their order;
  \<open>su\<close> is \<^verbatim>\<open>sectors_to_uv\<close>.\<close>

definition vts_writes ::
  "int \<Rightarrow> flags \<Rightarrow> factors \<Rightarrow> vec2 list \<Rightarrow> vt_idx \<Rightarrow> real \<Rightarrow> (int \<times> vec2) list" where
  "vts_writes n fl fc cs tx su =
     concat (map (strip_writes fl tx su) (py_range 0 (n + 1))) @
     (if use_edge_loops fl
      then concat (map (ctrl_strip_writes fl fc tx su) (py_range 0 (n + 1)))
      else []) @
     (if use_caps fl
      then (if use_center_spoke fl
            then [(vt_idx_btm_spoke tx, vt_btm_center), (vt_idx_top_spoke tx, vt_top_center)]
            else []) @
           concat (map (rim_writes tx cs) (py_range 0 n)) @
           (if use_edge_loops fl
            then concat (map (cap_uv_writes fc tx cs) (py_range 0 n))
            else [])
      else [])"

text \<open>All the assignments of the UV faces (lines 692 to 786), in their order.\<close>

definition vt_idcs_writes :: "int \<Rightarrow> flags \<Rightarrow> vt_idx \<Rightarrow> loop_idx \<Rightarrow> (int \<times> face) list" where
  "vt_idcs_writes n fl tx lx =
     fan_writes n fl lx (vt_idx_btm_spoke tx) (vt_idx_btm_fan tx)
       (vt_idx_top_spoke tx) (vt_idx_top_fan tx) @
     (if use_edge_loops fl
      then (if use_caps fl
            then concat (map (cap_band_writes n lx (vt_idx_btm_fan tx) (vt_idx_btm_ctrl tx)
                                (vt_idx_btm_edge tx) (vt_idx_top_edge tx) (vt_idx_top_ctrl tx)
                                (vt_idx_top_fan tx)) (py_range 0 n))
            else []) @
           concat (map (uv_side_band_writes lx tx) (py_range 0 n))
      else concat (map (uv_side_strip_writes lx tx) (py_range 0 n)))"

text \<open>The flags of a parameter set.\<close>

definition flags_of :: "tube_params \<Rightarrow> flags" where
  "flags_of p = cap_flags (sectors p) (cap_face_type p) (edge_loop_fac p)"

text \<open>The control loop factors when no division raises.\<close>

definition factors_of :: "tube_params \<Rightarrow> flags \<Rightarrow> factors" where
  "factors_of p fl =
     (let ab = (if use_caps fl then radius_btm p / depth p else 1);
          atp = (if use_caps fl then radius_top p / depth p else 1);
          t = edge_loop_fac p;
          tb = (if radius_btm p < depth p then t * ab else t);
          tt = (if radius_top p < depth p then t * atp else t);
          tfb = (if radius_btm p \<ge> depth p then t / ab else t);
          tft = (if radius_top p \<ge> depth p then t / atp else t)
      in \<lparr> t_btm = tb, u_btm = 1 - tb, t_top = tt, u_top = 1 - tt,
           t_fan_btm = tfb, u_fan_btm = 1 - tfb, t_fan_top = tft, u_fan_top = 1 - tft \<rparr>)"

text \<open>The table of cosines and sines when \<^verbatim>\<open>math.tau / sectors\<close> does not raise.\<close>

definition cart_table :: "tube_params \<Rightarrow> vec2 list" where
  "cart_table p =
     map (\<lambda>i. (cos (orientation p + of_int i * (2 * pi / of_int (sectors p))),
               sin (orientation p + of_int i * (2 * pi / of_int (sectors p)))))
       (py_range 0 (sectors p))"

text \<open>The four buffers when every assignment lies inside its buffer.\<close>

definition final_vs :: "tube_params \<Rightarrow> vec3 list" where
  "final_vs p =
     (let fl = flags_of p; ix = v_offsets (sectors p) fl
      in upd_all (vs_writes p fl (factors_of p fl) (cart_table p) ix)
           (py_repeat (0, 0, 0) (len_vs ix)))"

definition final_v_idcs :: "tube_params \<Rightarrow> face list" where
  "final_v_idcs p =
     (let fl = flags_of p; ix = v_offsets (sectors p) fl; lx = loop_offsets (sectors p) fl
      in upd_all (v_idcs_writes (sectors p) fl ix lx)
           (py_repeat [0, 0, 0, 0] (len_loop_idcs lx)))"

definition final_vts :: "tube_params \<Rightarrow> vec2 list" where
  "final_vts p =
     (let fl = flags_of p; tx = vt_offsets (sectors p) fl
      in upd_all (vts_writes (sectors p) fl (factors_of p fl) (cart_table p) tx
                    (1 / of_int (sectors p)))
           (py_repeat (0, 0) (len_vts tx)))"

definition final_vt_idcs :: "tube_params \<Rightarrow> face list" where
  "final_vt_idcs p =
     (let fl = flags_of p; tx = vt_offsets (sectors p) fl; lx = loop_offsets (sectors p) fl
      in upd_all (vt_idcs_writes (sectors p) fl tx lx)
           (py_repeat [0, 0, 0, 0] (len_loop_idcs lx)))"

text \<open>A loop over \<^verbatim>\<open>range(0, n)\<close> that assigns, for each ring \<open>(b, f)\<close> of a list, the value
  \<open>f i\<close> at the index \<open>b + i\<close>.\<close>

definition ring_ws :: "int \<Rightarrow> (int \<times> (int \<Rightarrow> 'a)) list \<Rightarrow> (int \<times> 'a) list" where
  "ring_ws n rings =
     concat (map (\<lambda>i. map (\<lambda>r. (fst r + i, snd r i)) rings) (py_range 0 n))"

text \<open>The vertex buffer as \<open>execute\<close> computes it: its statements up to line 357.\<close>

definition positions :: "tube_params \<Rightarrow> py_error + vec3 list" where
  "positions p =
     (let fl = cap_flags (sectors p) (cap_face_type p) (edge_loop_fac p)
      in py_bind (ctrl_factors p fl) (\<lambda>fc.
         py_bind (cartesian p) (\<lambda>cs.
         make_vs p fl fc cs (v_offsets (sectors p) fl))))"

text \<open>The loops of the vertex stage as lists of rings.\<close>

definition edge_rings :: "tube_params \<Rightarrow> v_idx \<Rightarrow> vec2 list \<Rightarrow> (int \<times> (int \<Rightarrow> vec3)) list" where
  "edge_rings p ix cs =
     [(v_idx_btm_edge ix,
         \<lambda>i. (fst (cs ! nat i) * radius_btm p, snd (cs ! nat i) * radius_btm p, vz_btm p)),
      (v_idx_top_edge ix,
         \<lambda>i. (fst (cs ! nat i) * radius_top p, snd (cs ! nat i) * radius_top p, vz_top p))]"

text \<open>Linear interpolation from \<open>a\<close> toward \<open>b\<close> with the factor \<open>f\<close>.\<close>

definition lerp :: "real \<Rightarrow> real \<Rightarrow> real \<Rightarrow> real" where
  "lerp a b f = (1 - f) * a + f * b"

definition side_rings ::
  "tube_params \<Rightarrow> factors \<Rightarrow> v_idx \<Rightarrow> vec2 list \<Rightarrow> (int \<times> (int \<Rightarrow> vec3)) list" where
  "side_rings p fc ix cs =
     [(v_idx_side_lwr_ctrl ix,
         \<lambda>i. (fst (cs ! nat i) *
                 (u_btm fc * radius_btm p + t_btm fc * ((radius_btm p + radius_top p) * 0.5)),
               snd (cs ! nat i) *
                 (u_btm fc * radius_btm p + t_btm fc * ((radius_btm p + radius_top p) * 0.5)),
               u_btm fc * vz_btm p + t_btm fc * vz_mid p)),
      (v_idx_mid ix,
         \<lambda>i. (fst (cs ! nat i) * ((radius_btm p + radius_top p) * 0.5),
               snd (cs ! nat i) * ((radius_btm p + radius_top p) * 0.5), vz_mid p)),
      (v_idx_side_upp_ctrl ix,
         \<lambda>i. (fst (cs ! nat i) *
                 (u_top fc * radius_top p + t_top fc * ((radius_btm p + radius_top p) * 0.5)),
               snd (cs ! nat i) *
                 (u_top fc * radius_top p + t_top fc * ((radius_btm p + radius_top p) * 0.5)),
               u_top fc * vz_top p + t_top fc * vz_mid p))]"

definition cap_rings ::
  "tube_params \<Rightarrow> factors \<Rightarrow> v_idx \<Rightarrow> vec2 list \<Rightarrow> (int \<times> (int \<Rightarrow> vec3)) list" where
  "cap_rings p fc ix cs =
     [(v_idx_btm_fan ix,
         \<lambda>i. (fst (cs ! nat i) * (radius_btm p * 0.5), snd (cs ! nat i) * (radius_btm p * 0.5),
               vz_btm p)),
      (v_idx_btm_ctrl ix,
         \<lambda>i. (fst (cs ! nat i) *
                 (u_fan_btm fc * radius_btm p + t_fan_btm fc * (radius_btm p * 0.5)),
               snd (cs ! nat i) *
                 (u_fan_btm fc * radius_btm p + t_fan_btm fc * (radius_btm p * 0.5)),
               vz_btm p)),
      (v_idx_top_ctrl ix,
         \<lambda>i. (fst (cs ! nat i) *
                 (u_fan_top fc * radius_top p + t_fan_top fc * (radius_top p * 0.5)),
               snd (cs ! nat i) *
                 (u_fan_top fc * radius_top p + t_fan_top fc * (radius_top p * 0.5)),
               vz_top p)),
      (v_idx_top_fan ix,
         \<lambda>i. (fst (cs ! nat i) * (radius_top p * 0.5), snd (cs ! nat i) * (radius_top p * 0.5),
               vz_top p))]"

text \<open>The declared defaults of the operator's properties.\<close>

definition default_params :: tube_params where
  "default_params =
     \<lparr> sectors = 8, orientation = 0, radius_btm = 0.5, radius_top = 0.5, depth = 1.5,
       depth_offset = 0, cap_face_type = QUAD, edge_loop_fac = 0, shade_smooth = True,
       auto_normals = True, auto_angle = 0.523599, calc_uvs = False \<rparr>"

text \<open>The assignments of the two spokes (lines 272 to 274) and the rings of the vertex
  stage that the flags enable.\<close>

definition spoke_ws :: "tube_params \<Rightarrow> flags \<Rightarrow> v_idx \<Rightarrow> (int \<times> vec3) list" where
  "spoke_ws p fl ix =
     (if use_center_spoke fl
      then [(v_idx_btm_spoke ix, (0, 0, vz_btm p)), (v_idx_top_spoke ix, (0, 0, vz_top p))]
      else [])"

definition vs_rings ::
  "tube_params \<Rightarrow> flags \<Rightarrow> factors \<Rightarrow> vec2 list \<Rightarrow> v_idx \<Rightarrow> (int \<times> (int \<Rightarrow> vec3)) list" where
  "vs_rings p fl fc cs ix =
     edge_rings p ix cs @
     (if use_edge_loops fl
      then side_rings p fc ix cs @ (if use_caps fl then cap_rings p fc ix cs else [])
      else [])"

text \<open>Following section 3 of the specification: the length of the vertex buffer as the
  sum of the sizes of the groups in their order, 1 for a spoke, \<open>n\<close> for a ring, 0 for a
  group that is disabled. The fan and control rings of a cap exist with caps and edge
  loops; the control and middle rings of the side exist with edge loops.\<close>

definition spec_len_vs :: "int \<Rightarrow> flags \<Rightarrow> int" where
  "spec_len_vs n fl =
     (if use_center_spoke fl then 1 else 0) +
     (if use_edge_loops fl \<and> use_caps fl then n else 0) +
     (if use_edge_loops fl \<and> use_caps fl then n else 0) +
     n +
     (if use_edge_loops fl then n else 0) +
     (if use_edge_loops fl then n else 0) +
     (if use_edge_loops fl then n else 0) +
     n +
     (if use_edge_loops fl \<and> use_caps fl then n else 0) +
     (if use_edge_loops fl \<and> use_caps fl then n else 0) +
     (if use_center_spoke fl then 1 else 0)"

text \<open>Edge loops without caps, the other properties at their defaults.\<close>

definition loops_no_caps :: tube_params where
  "loops_no_caps = default_params \<lparr> cap_face_type := NONE, edge_loop_fac := 0.5 \<rparr>"

text \<open>The side faces as rings of the face buffer: the strip without edge loops, the
  four bands with them.\<close>

definition side_strip_rings :: "int \<Rightarrow> loop_idx \<Rightarrow> v_idx \<Rightarrow> (int \<times> (int \<Rightarrow> face)) list" where
  "side_strip_rings n lx ix =
     [(loop_idx_side_lwr_ctrl lx,
         \<lambda>i. [v_idx_btm_edge ix + i, v_idx_btm_edge ix + (i + 1) mod n,
               v_idx_top_edge ix + (i + 1) mod n, v_idx_top_edge ix + i])]"

definition side_band_rings :: "int \<Rightarrow> loop_idx \<Rightarrow> v_idx \<Rightarrow> (int \<times> (int \<Rightarrow> face)) list" where
  "side_band_rings n lx ix =
     [(loop_idx_side_lwr_ctrl lx,
         \<lambda>i. [v_idx_btm_edge ix + i, v_idx_btm_edge ix + (i + 1) mod n,
               v_idx_side_lwr_ctrl ix + (i + 1) mod n, v_idx_side_lwr_ctrl ix + i]),
      (loop_idx_side_lwr lx,
         \<lambda>i. [v_idx_side_lwr_ctrl ix + i, v_idx_side_lwr_ctrl ix + (i + 1) mod n,
               v_idx_mid ix + (i + 1) mod n, v_idx_mid ix + i]),
      (loop_idx_side_upp lx,
         \<lambda>i. [v_idx_mid ix + i, v_idx_mid ix + (i + 1) mod n,
               v_idx_side_upp_ctrl ix + (i + 1) mod n, v_idx_side_upp_ctrl ix + i]),
      (loop_idx_side_upp_ctrl lx,
         \<lambda>i. [v_idx_side_upp_ctrl ix + i, v_idx_side_upp_ctrl ix + (i + 1) mod n,
               v_idx_top_edge ix + (i + 1) mod n, v_idx_top_edge ix + i])]"

text \<open>The loops of the UV stage as lists of rings: the strips have \<open>sectors + 1\<close>
  samples, the rings of the caps \<open>sectors\<close>.\<close>

definition strip_rings ::
  "flags \<Rightarrow> factors \<Rightarrow> vt_idx \<Rightarrow> real \<Rightarrow> (int \<times> (int \<Rightarrow> vec2)) list" where
  "strip_rings fl fc tx su =
     [(vt_idx_btm_strip tx, \<lambda>j. (of_int j * su, vts_min_y fl)),
      (vt_idx_top_strip tx, \<lambda>j. (of_int j * su, vts_max_y))] @
     (if use_edge_loops fl
      then [(vt_idx_side_lwr_ctrl tx,
               \<lambda>j. (of_int j * su,
                     u_btm fc * vts_min_y fl + t_btm fc * ((vts_min_y fl + vts_max_y) * 0.5))),
            (vt_idx_mid_strip tx, \<lambda>j. (of_int j * su, (vts_min_y fl + vts_max_y) * 0.5)),
            (vt_idx_side_upp_ctrl tx,
               \<lambda>j. (of_int j * su,
                     u_top fc * vts_max_y + t_top fc * ((vts_min_y fl + vts_max_y) * 0.5)))]
      else [])"

definition uv_cap_rings ::
  "flags \<Rightarrow> factors \<Rightarrow> vt_idx \<Rightarrow> vec2 list \<Rightarrow> (int \<times> (int \<Rightarrow> vec2)) list" where
  "uv_cap_rings fl fc tx cs =
     (if use_caps fl
      then [(vt_idx_btm_edge tx,
               \<lambda>i. (fst vt_btm_center + fst (cs ! nat i) * vts_rad,
                     snd vt_btm_center + snd (cs ! nat i) * vts_rad)),
            (vt_idx_top_edge tx,
               \<lambda>i. (fst vt_top_center + fst (cs ! nat i) * vts_rad,
                     snd vt_top_center + snd (cs ! nat i) * vts_rad))] @
           (if use_edge_loops fl
            then [(vt_idx_btm_fan tx,
                     \<lambda>i. (fst vt_btm_center + fst (cs ! nat i) * (vts_rad * 0.5),
                           snd vt_btm_center + snd (cs ! nat i) * (vts_rad * 0.5))),
                  (vt_idx_btm_ctrl tx,
                     \<lambda>i. (fst vt_btm_center + fst (cs ! nat i) *
                             (u_fan_btm fc * vts_rad + t_fan_btm fc * (vts_rad * 0.5)),
                           snd vt_btm_center + snd (cs ! nat i) *
                             (u_fan_btm fc * vts_rad + t_fan_btm fc * (vts_rad * 0.5)))),
                  (vt_idx_top_ctrl tx,
                     \<lambda>i. (fst vt_top_center + fst (cs ! nat i) *
                             (u_fan_top fc * vts_rad + t_fan_top fc * (vts_rad * 0.5)),
                           snd vt_top_center + snd (cs ! nat i) *
                             (u_fan_top fc * vts_rad + t_fan_top fc * (vts_rad * 0.5)))),
                  (vt_idx_top_fan tx,
                     \<lambda>i. (fst vt_top_center + fst (cs ! nat i) * (vts_rad * 0.5),
                           snd vt_top_center + snd (cs ! nat i) * (vts_rad * 0.5)))]
            else [])
      else [])"

text \<open>The assignments of the two UV spokes (lines 640 to 646).\<close>

definition uv_spoke_ws :: "flags \<Rightarrow> vt_idx \<Rightarrow> (int \<times> vec2) list" where
  "uv_spoke_ws fl tx =
     (if use_caps fl \<and> use_center_spoke fl
      then [(vt_idx_btm_spoke tx, vt_btm_center), (vt_idx_top_spoke tx, vt_top_center)]
      else [])"

text \<open>The cap faces of the triangle and quad styles as rings of the face buffer.\<close>

definition tri_fan_rings ::
  "int \<Rightarrow> loop_idx \<Rightarrow> int \<Rightarrow> int \<Rightarrow> int \<Rightarrow> int \<Rightarrow> (int \<times> (int \<Rightarrow> face)) list" where
  "tri_fan_rings n lx bs bf ts tf =
     [(loop_idx_btm_fan lx, \<lambda>i. [bs, bf + (i + 1) mod n, bf + i]),
      (loop_idx_top_fan lx, \<lambda>i. [ts, tf + i, tf + (i + 1) mod n])]"

definition quad_fan_rings ::
  "int \<Rightarrow> loop_idx \<Rightarrow> int \<Rightarrow> int \<Rightarrow> int \<Rightarrow> int \<Rightarrow> (int \<times> (int \<Rightarrow> face)) list" where
  "quad_fan_rings n lx bs bf ts tf =
     [(loop_idx_btm_fan lx,
         \<lambda>h. [bs, bf + (h + h + 2) mod n, bf + (h + h + 1) mod n, bf + (h + h)]),
      (loop_idx_top_fan lx,
         \<lambda>h. [ts, tf + (h + h), tf + (h + h + 1) mod n, tf + (h + h + 2) mod n])]"

text \<open>The buffer of faces without edge loops: the cap faces, then one strip of side
  faces \<open>g\<close>.\<close>

definition fan_strip_buffer ::
  "int \<Rightarrow> flags \<Rightarrow> int \<Rightarrow> int \<Rightarrow> int \<Rightarrow> int \<Rightarrow> (int \<Rightarrow> face) \<Rightarrow> face list" where
  "fan_strip_buffer n fl bs bf ts tf g =
     upd_all (fan_writes n fl (loop_offsets n fl) bs bf ts tf @
              ring_ws n [(loop_idx_side_lwr_ctrl (loop_offsets n fl), g)])
       (py_repeat [0, 0, 0, 0] (len_loop_idcs (loop_offsets n fl)))"

text \<open>The side face of sector \<open>i\<close> without edge loops, over the vertex offsets (lines 510
  to 519) and over the UV offsets (lines 777 to 786).\<close>

definition side_face :: "int \<Rightarrow> v_idx \<Rightarrow> int \<Rightarrow> face" where
  "side_face n ix i =
     [v_idx_btm_edge ix + i, v_idx_btm_edge ix + (i + 1) mod n,
      v_idx_top_edge ix + (i + 1) mod n, v_idx_top_edge ix + i]"

definition uv_side_face :: "vt_idx \<Rightarrow> int \<Rightarrow> face" where
  "uv_side_face tx i =
     [vt_idx_btm_strip tx + i, vt_idx_btm_strip tx + (i + 1),
      vt_idx_top_strip tx + (i + 1), vt_idx_top_strip tx + i]"

text \<open>Triangle caps on seven sectors, the other properties at their defaults.\<close>

definition tri7 :: tube_params where
  "tri7 = default_params \<lparr> sectors := 7, cap_face_type := TRI \<rparr>"

text \<open>Triangle caps on five sectors, the other properties at their defaults.\<close>

definition tri5 :: tube_params where
  "tri5 = default_params \<lparr> sectors := 5, cap_face_type := TRI \<rparr>"

text \<open>Two sectors, and a depth of zero, the other properties at their defaults.\<close>

definition two_sectors :: tube_params where
  "two_sectors = default_params \<lparr> sectors := 2 \<rparr>"

definition zero_depth :: tube_params where
  "zero_depth = default_params \<lparr> depth := 0 \<rparr>"

text \<open>No caps, the other properties at their defaults.\<close>

definition no_caps :: tube_params where
  "no_caps = default_params \<lparr> cap_face_type := NONE \<rparr>"

text \<open>Edge loops with quad caps, the other properties at their defaults.\<close>

definition loops_quad :: tube_params where
  "loops_quad = default_params \<lparr> edge_loop_fac := 0.5 \<rparr>"

text \<open>The defaults with an edge loop factor of one half and UV coordinates requested.\<close>

definition loops_uvs :: tube_params where
  "loops_uvs = default_params \<lparr> edge_loop_fac := 1 / 2, calc_uvs := True \<rparr>"

text \<open>The defaults with UV coordinates requested.\<close>

definition with_uvs :: tube_params where
  "with_uvs = default_params \<lparr> calc_uvs := True \<rparr>"

section \<open>Lemmas\<close>

lemma py_bind_Inr [simp]: "py_bind (Inr x) f = f x"
  by (simp add: py_bind_def)

lemma py_bind_Inl [simp]: "py_bind (Inl e) f = Inl e"
  by (simp add: py_bind_def)

lemma py_bind_return [simp]: "py_bind m Inr = m"
  by (cases m) simp_all

lemma py_bind_assoc: "py_bind (py_bind m f) g = py_bind m (\<lambda>x. py_bind (f x) g)"
  by (cases m) simp_all

lemma py_bind_Inr_iff:
  "py_bind m f = Inr y \<longleftrightarrow> (\<exists>x. m = Inr x \<and> f x = Inr y)"
  by (cases m) simp_all

lemma py_set_in_range:
  "0 \<le> i \<Longrightarrow> i < int (length xs) \<Longrightarrow> py_set xs i v = Inr (xs[nat i := v])"
  by (simp add: py_set_def)

lemma py_set_beyond:
  "int (length xs) \<le> i \<Longrightarrow> py_set xs i v = Inl IndexError"
  by (simp add: py_set_def)

lemma py_set_length: "py_set xs i v = Inr ys \<Longrightarrow> length ys = length xs"
  by (auto simp: py_set_def split: if_splits)

lemma py_set_error: "py_set xs i v = Inl e \<Longrightarrow> e = IndexError"
  by (auto simp: py_set_def split: if_splits)

lemma upd_all_Nil [simp]: "upd_all [] xs = xs"
  by (simp add: upd_all_def)

lemma upd_all_Cons [simp]: "upd_all (w # ws) xs = upd_all ws (xs[nat (fst w) := snd w])"
  by (simp add: upd_all_def)

lemma upd_all_append [simp]: "upd_all (a @ b) xs = upd_all b (upd_all a xs)"
  by (simp add: upd_all_def)

lemma length_upd_all [simp]: "length (upd_all ws xs) = length xs"
  by (induction ws arbitrary: xs) simp_all

lemma py_sets_in_range:
  "(\<And>w. w \<in> set ws \<Longrightarrow> 0 \<le> fst w \<and> fst w < int (length xs)) \<Longrightarrow>
   py_sets xs ws = Inr (upd_all ws xs)"
proof (induction ws arbitrary: xs)
  case Nil
  show ?case by simp
next
  case (Cons w ws)
  obtain i v where w: "w = (i, v)" by (cases w)
  from Cons.prems [of w] w have i: "0 \<le> i" "i < int (length xs)" by simp_all
  have "py_sets (xs[nat i := v]) ws = Inr (upd_all ws (xs[nat i := v]))"
    by (rule Cons.IH) (use Cons.prems in simp)
  with i w show ?case by (simp add: py_set_in_range)
qed

lemma py_sets_append:
  "py_sets xs (a @ b) = py_bind (py_sets xs a) (\<lambda>ys. py_sets ys b)"
proof (induction a arbitrary: xs)
  case Nil
  show ?case by simp
next
  case (Cons w a)
  obtain i v where w: "w = (i, v)" by (cases w)
  show ?case
    by (cases "py_set xs i v") (simp_all add: w Cons.IH)
qed

lemma for_loop_py_sets:
  "for_loop r (\<lambda>i xs. py_sets xs (W i)) xs = py_sets xs (concat (map W r))"
proof (induction r arbitrary: xs)
  case Nil
  show ?case by simp
next
  case (Cons i r)
  have "for_loop r (\<lambda>i xs. py_sets xs (W i)) = (\<lambda>ys. py_sets ys (concat (map W r)))"
    by (rule ext) (rule Cons.IH)
  then show ?case by (simp add: py_sets_append)
qed

lemma for_loop_py_sets_fun:
  "for_loop r (\<lambda>i xs. py_sets xs (W i)) = (\<lambda>xs. py_sets xs (concat (map W r)))"
  by (rule ext) (rule for_loop_py_sets)

text \<open>A write beyond the end of the list makes the block fail.\<close>

lemma py_sets_beyond:
  "w \<in> set ws \<Longrightarrow> int (length xs) \<le> fst w \<Longrightarrow> py_sets xs ws = Inl IndexError"
proof (induction ws arbitrary: xs)
  case Nil
  then show ?case by simp
next
  case (Cons a ws)
  obtain i v where a: "a = (i, v)" by (cases a)
  show ?case
  proof (cases "py_set xs i v")
    case (Inl e)
    with a py_set_error [OF Inl] show ?thesis by simp
  next
    case (Inr zs)
    have len: "length zs = length xs" by (rule py_set_length [OF Inr])
    from Inr Cons.prems a have "w \<in> set ws"
      by (auto simp: py_set_beyond)
    with Cons.IH [of zs] Cons.prems len have "py_sets zs ws = Inl IndexError" by simp
    with Inr a show ?thesis by simp
  qed
qed

lemma upd_all_frame:
  "(\<And>w. w \<in> set ws \<Longrightarrow> nat (fst w) \<noteq> k) \<Longrightarrow> upd_all ws xs ! k = xs ! k"
  by (induction ws arbitrary: xs) simp_all

lemma upd_all_value:
  assumes "k < length xs" and "\<exists>w\<in>set ws. nat (fst w) = k"
    and "\<And>w. w \<in> set ws \<Longrightarrow> nat (fst w) = k \<Longrightarrow> snd w = v"
  shows "upd_all ws xs ! k = v"
  using assms
proof (induction ws arbitrary: xs)
  case Nil
  then show ?case by simp
next
  case (Cons a ws)
  show ?case
  proof (cases "\<exists>w\<in>set ws. nat (fst w) = k")
    case True
    have "upd_all ws (xs[nat (fst a) := snd a]) ! k = v"
    proof (rule Cons.IH)
      show "k < length (xs[nat (fst a) := snd a])" using Cons.prems(1) by simp
      show "\<exists>w\<in>set ws. nat (fst w) = k" by (rule True)
      show "\<And>w. w \<in> set ws \<Longrightarrow> nat (fst w) = k \<Longrightarrow> snd w = v"
        using Cons.prems(3) by simp
    qed
    then show ?thesis by simp
  next
    case False
    with Cons.prems(2) have a: "nat (fst a) = k" by auto
    with Cons.prems(3) [of a] have v: "snd a = v" by simp
    from False have "upd_all ws (xs[nat (fst a) := snd a]) ! k = xs[nat (fst a) := snd a] ! k"
      by (intro upd_all_frame) auto
    with a v Cons.prems(1) show ?thesis by simp
  qed
qed

lemma upd_all_set:
  "(\<And>x. x \<in> set xs \<Longrightarrow> P x) \<Longrightarrow> (\<And>w. w \<in> set ws \<Longrightarrow> P (snd w)) \<Longrightarrow>
   x \<in> set (upd_all ws xs) \<Longrightarrow> P x"
proof (induction ws arbitrary: xs)
  case Nil
  then show ?case by simp
next
  case (Cons a ws)
  show ?case
  proof (rule Cons.IH [of "xs[nat (fst a) := snd a]"])
    fix y assume "y \<in> set (xs[nat (fst a) := snd a])"
    then have "y = snd a \<or> y \<in> set xs" using set_update_subset_insert by fast
    moreover have "P (snd a)" using Cons.prems(2) [of a] by simp
    ultimately show "P y" using Cons.prems(1) by blast
  next
    fix w assume "w \<in> set ws" with Cons.prems(2) show "P (snd w)" by simp
  next
    from Cons.prems(3) show "x \<in> set (upd_all ws (xs[nat (fst a) := snd a]))" by simp
  qed
qed

lemma set_py_range [simp]: "set (py_range a b) = {i. a \<le> i \<and> i < b}"
  by (auto simp: py_range_def)

lemma length_py_range [simp]: "length (py_range 0 n) = nat n"
  by (simp add: py_range_def)

lemma nth_py_range: "0 \<le> i \<Longrightarrow> i < n \<Longrightarrow> py_range 0 n ! nat i = i"
  by (simp add: py_range_def)

lemma length_py_repeat [simp]: "length (py_repeat x n) = nat n"
  by (simp add: py_repeat_def)

lemma set_py_repeat: "y \<in> set (py_repeat x n) \<Longrightarrow> y = x"
  by (simp add: py_repeat_def)

lemma nth_py_repeat: "k < nat n \<Longrightarrow> py_repeat x n ! k = x"
  by (simp add: py_repeat_def)

lemma make_vs_writes:
  "make_vs p fl fc cs ix = py_sets (py_repeat (0, 0, 0) (len_vs ix)) (vs_writes p fl fc cs ix)"
  by (simp add: make_vs_def vs_writes_def for_loop_py_sets py_sets_append Let_def py_bind_assoc)

lemma set_concat_range:
  "w \<in> set (concat (map W (py_range 0 n))) \<longleftrightarrow> (\<exists>i. 0 \<le> i \<and> i < n \<and> w \<in> set (W i))"
  by auto

lemma vs_writes_in_range:
  assumes "1 \<le> sectors p" and "use_caps fl \<or> cap_is_none fl"
    and "w \<in> set (vs_writes p fl fc cs (v_offsets (sectors p) fl))"
  shows "0 \<le> fst w \<and> fst w < len_vs (v_offsets (sectors p) fl)"
  using assms
  by (auto simp: vs_writes_def set_concat_range edge_ring_writes_def side_ring_writes_def
      cap_ring_writes_def v_offsets_def Let_def split: if_splits)

lemma cap_faces_writes:
  "cap_faces n fl lx bs bf ts tf fs = py_sets fs (fan_writes n fl lx bs bf ts tf)"
  by (simp add: cap_faces_def fan_writes_def for_loop_py_sets)

lemma make_v_idcs_writes:
  "make_v_idcs n fl ix lx =
     py_sets (py_repeat [0, 0, 0, 0] (len_loop_idcs lx)) (v_idcs_writes n fl ix lx)"
  by (simp add: make_v_idcs_def v_idcs_writes_def cap_faces_writes for_loop_py_sets
      for_loop_py_sets_fun py_sets_append Let_def py_bind_assoc)

lemma cap_flags_ok:
  "cft = TRI \<longrightarrow> n < 4 \<or> (5 \<le> n \<and> n mod 2 = 0) \<Longrightarrow> flags_ok (cap_flags n cft elf)"
  by (cases cft) (auto simp: flags_ok_def cap_flags_def Let_def)

lemma fan_writes_in_range:
  assumes "1 \<le> n" and "flags_ok fl"
    and "w \<in> set (fan_writes n fl (loop_offsets n fl) bs bf ts tf)"
  shows "0 \<le> fst w \<and> fst w < len_loop_idcs (loop_offsets n fl)"
  using assms
  by (auto simp: fan_writes_def flags_ok_def set_concat_range tri_fan_writes_def
      quad_fan_writes_def ngon_writes_def loop_offsets_def cap_loops_def Let_def
      split: if_splits)

lemma bands_in_range:
  assumes "1 \<le> n" and "flags_ok fl"
    and "w \<in> set (v_idcs_writes n fl ix (loop_offsets n fl))"
  shows "0 \<le> fst w \<and> fst w < len_loop_idcs (loop_offsets n fl)"
proof (cases "w \<in> set (fan_writes n fl (loop_offsets n fl) (v_idx_btm_spoke ix) (v_idx_btm_fan ix)
       (v_idx_top_spoke ix) (v_idx_top_fan ix))")
  case True
  then show ?thesis using assms(1,2) by (rule fan_writes_in_range [rotated 2])
next
  case False
  have "0 \<le> cap_loops n fl" using assms(1) by (simp add: cap_loops_def)
  with False assms show ?thesis
    by (auto simp: v_idcs_writes_def set_concat_range cap_band_writes_def
        side_band_writes_def side_strip_writes_def loop_offsets_def Let_def
        split: if_splits)
qed

lemma tri_fan_valid:
  assumes "0 < n" "0 \<le> i" "i < n"
    and "w \<in> set (tri_fan_writes n lx bs bf ts tf i)" and "k \<in> set (snd w)"
  shows "k = bs \<or> k = ts \<or> in_ring n bf k \<or> in_ring n tf k"
proof -
  define j where "j = (i + 1) mod n"
  have "0 \<le> j" "j < n" using assms(1) by (simp_all add: j_def)
  with assms(2-5) show ?thesis
    unfolding tri_fan_writes_def Let_def j_def [symmetric] in_ring_def by auto
qed

lemma quad_fan_valid:
  assumes "0 < n" "0 \<le> h" "h < n div 2"
    and "w \<in> set (quad_fan_writes n lx bs bf ts tf h)" and "k \<in> set (snd w)"
  shows "k = bs \<or> k = ts \<or> in_ring n bf k \<or> in_ring n tf k"
proof -
  define j where "j = (h + h + 1) mod n"
  define l where "l = (h + h + 2) mod n"
  have "0 \<le> j" "j < n" "0 \<le> l" "l < n" using assms(1) by (simp_all add: j_def l_def)
  moreover have "h + h < n" using assms(3) by linarith
  ultimately show ?thesis
    using assms(2,4,5)
    unfolding quad_fan_writes_def Let_def j_def [symmetric] l_def [symmetric] in_ring_def
    by auto
qed

lemma ngon_valid:
  assumes "0 < n" and "w \<in> set (ngon_writes n lx bf tf)" and "k \<in> set (snd w)"
  shows "in_ring n bf k \<or> in_ring n tf k"
proof -
  have m: "0 \<le> (i - 1) mod n \<and> (i - 1) mod n < n" for i using assms(1) by simp
  from assms(2,3) consider i where "0 \<le> i" "i < n" "k = bf + n - 1 - (i - 1) mod n"
    | i where "0 \<le> i" "i < n" "k = tf + i"
    by (auto simp: ngon_writes_def Let_def)
  then show ?thesis
  proof cases
    case (1 i)
    have "0 \<le> (i - 1) mod n" "(i - 1) mod n < n" using m [of i] by blast+
    then have "bf \<le> k \<and> k < bf + n" unfolding 1(3) by linarith
    then show ?thesis by (simp only: in_ring_def) blast
  next
    case (2 i)
    then show ?thesis by (simp add: in_ring_def)
  qed
qed

lemma fan_writes_valid:
  assumes "0 < n" and "w \<in> set (fan_writes n fl lx bs bf ts tf)" and "k \<in> set (snd w)"
  shows "(cap_is_tri fl \<or> cap_is_quad fl) \<and> (k = bs \<or> k = ts) \<or>
         in_ring n bf k \<or> in_ring n tf k"
proof -
  consider (tri) "cap_is_tri fl" | (quad) "\<not> cap_is_tri fl" "cap_is_quad fl"
    | (ngon) "\<not> cap_is_tri fl" "\<not> cap_is_quad fl" "cap_is_ngon fl"
    | (none) "\<not> cap_is_tri fl" "\<not> cap_is_quad fl" "\<not> cap_is_ngon fl"
    by blast
  then show ?thesis
  proof cases
    case tri
    with assms(2) obtain i where "0 \<le> i" "i < n"
      "w \<in> set (tri_fan_writes n lx bs bf ts tf i)"
      by (auto simp: fan_writes_def set_concat_range)
    from tri_fan_valid [OF assms(1) this assms(3)] tri show ?thesis by blast
  next
    case quad
    with assms(2) obtain h where "0 \<le> h" "h < n div 2"
      "w \<in> set (quad_fan_writes n lx bs bf ts tf h)"
      by (auto simp: fan_writes_def set_concat_range)
    from quad_fan_valid [OF assms(1) this assms(3)] quad show ?thesis by blast
  next
    case ngon
    with assms(2) have "w \<in> set (ngon_writes n lx bf tf)" by (simp add: fan_writes_def)
    from ngon_valid [OF assms(1) this assms(3)] show ?thesis by blast
  next
    case none
    with assms(2) show ?thesis by (simp add: fan_writes_def)
  qed
qed

lemma cap_band_valid:
  assumes "0 < n" "0 \<le> i" "i < n"
    and "w \<in> set (cap_band_writes n lx bf bc be te tc tf i)" and "k \<in> set (snd w)"
  shows "in_ring n bf k \<or> in_ring n bc k \<or> in_ring n be k \<or>
         in_ring n te k \<or> in_ring n tc k \<or> in_ring n tf k"
proof -
  define j where "j = (i + 1) mod n"
  have "0 \<le> j" "j < n" using assms(1) by (simp_all add: j_def)
  with assms(2-5) show ?thesis
    unfolding cap_band_writes_def Let_def j_def [symmetric] in_ring_def by auto
qed

lemma side_band_valid:
  assumes "0 < n" "0 \<le> i" "i < n"
    and "w \<in> set (side_band_writes n lx ix i)" and "k \<in> set (snd w)"
  shows "in_ring n (v_idx_btm_edge ix) k \<or> in_ring n (v_idx_side_lwr_ctrl ix) k \<or>
         in_ring n (v_idx_mid ix) k \<or> in_ring n (v_idx_side_upp_ctrl ix) k \<or>
         in_ring n (v_idx_top_edge ix) k"
proof -
  define j where "j = (i + 1) mod n"
  have "0 \<le> j" "j < n" using assms(1) by (simp_all add: j_def)
  with assms(2-5) show ?thesis
    unfolding side_band_writes_def Let_def j_def [symmetric] in_ring_def by auto
qed

lemma side_strip_valid:
  assumes "0 < n" "0 \<le> i" "i < n"
    and "w \<in> set (side_strip_writes n lx ix i)" and "k \<in> set (snd w)"
  shows "in_ring n (v_idx_btm_edge ix) k \<or> in_ring n (v_idx_top_edge ix) k"
proof -
  define j where "j = (i + 1) mod n"
  have "0 \<le> j" "j < n" using assms(1) by (simp_all add: j_def)
  with assms(2-5) show ?thesis
    unfolding side_strip_writes_def Let_def j_def [symmetric] in_ring_def by auto
qed

text \<open>Every ring of the vertex layout lies inside the vertex buffer.\<close>

lemma v_rings_inside:
  assumes "0 < n" and "use_caps fl \<or> cap_is_none fl" and "b \<in> v_rings (v_offsets n fl)"
    and "in_ring n b k"
  shows "0 \<le> k \<and> k < len_vs (v_offsets n fl)"
  using assms
  by (auto simp: v_rings_def v_offsets_def in_ring_def Let_def split: if_splits)

lemma v_spokes_inside:
  assumes "0 < n" and "use_center_spoke fl"
    and "k = v_idx_btm_spoke (v_offsets n fl) \<or> k = v_idx_top_spoke (v_offsets n fl)"
  shows "0 \<le> k \<and> k < len_vs (v_offsets n fl)"
  using assms
  by (auto simp: v_offsets_def Let_def split: if_splits)

lemma v_idcs_writes_valid:
  assumes n: "0 < n" and fl: "flags_ok fl"
    and w: "w \<in> set (v_idcs_writes n fl (v_offsets n fl) lx)"
    and k: "k \<in> set (snd w)"
  shows "0 \<le> k \<and> k < len_vs (v_offsets n fl)"
proof -
  let ?ix = "v_offsets n fl"
  have cn: "use_caps fl \<or> cap_is_none fl" using fl unfolding flags_ok_def by blast
  have ring: "in_ring n b k \<Longrightarrow> b \<in> v_rings ?ix \<Longrightarrow> ?thesis" for b
    using v_rings_inside [OF n cn] by blast
  from w consider
      (fan) "w \<in> set (fan_writes n fl lx (v_idx_btm_spoke ?ix) (v_idx_btm_fan ?ix)
                   (v_idx_top_spoke ?ix) (v_idx_top_fan ?ix))"
    | (cap) i where "0 \<le> i" "i < n"
        "w \<in> set (cap_band_writes n lx (v_idx_btm_fan ?ix) (v_idx_btm_ctrl ?ix)
           (v_idx_btm_edge ?ix) (v_idx_top_edge ?ix) (v_idx_top_ctrl ?ix)
           (v_idx_top_fan ?ix) i)"
    | (band) i where "0 \<le> i" "i < n" "w \<in> set (side_band_writes n lx ?ix i)"
    | (strip) i where "0 \<le> i" "i < n" "w \<in> set (side_strip_writes n lx ?ix i)"
    unfolding v_idcs_writes_def by (auto simp: set_concat_range split: if_splits)
  then show ?thesis
  proof cases
    case fan
    from fan_writes_valid [OF n fan k]
    consider "use_center_spoke fl" "k = v_idx_btm_spoke ?ix \<or> k = v_idx_top_spoke ?ix"
      | "in_ring n (v_idx_btm_fan ?ix) k" | "in_ring n (v_idx_top_fan ?ix) k"
      using fl by (auto simp: flags_ok_def)
    then show ?thesis
    proof cases
      case 1
      then show ?thesis by (rule v_spokes_inside [OF n])
    next
      case 2
      then show ?thesis by (rule ring) (simp add: v_rings_def)
    next
      case 3
      then show ?thesis by (rule ring) (simp add: v_rings_def)
    qed
  next
    case (cap i)
    from cap_band_valid [OF n cap k] show ?thesis
      by (elim disjE) (erule ring, simp add: v_rings_def)+
  next
    case (band i)
    from side_band_valid [OF n band k] show ?thesis
      by (elim disjE) (erule ring, simp add: v_rings_def)+
  next
    case (strip i)
    from side_strip_valid [OF n strip k] show ?thesis
      by (elim disjE) (erule ring, simp add: v_rings_def)+
  qed
qed

lemma make_vts_writes:
  "n \<noteq> 0 \<Longrightarrow>
   make_vts n fl fc cs tx =
     py_sets (py_repeat (0, 0) (len_vts tx)) (vts_writes n fl fc cs tx (1 / of_int n))"
  by (simp add: make_vts_def vts_writes_def py_fdiv_def for_loop_py_sets for_loop_py_sets_fun
      py_sets_append Let_def py_bind_assoc)

lemma make_vt_idcs_writes:
  "make_vt_idcs n fl tx lx =
     py_sets (py_repeat [0, 0, 0, 0] (len_loop_idcs lx)) (vt_idcs_writes n fl tx lx)"
  by (simp add: make_vt_idcs_def vt_idcs_writes_def cap_faces_writes for_loop_py_sets
      for_loop_py_sets_fun py_sets_append Let_def py_bind_assoc)

lemma vts_writes_in_range:
  assumes "1 \<le> n"
    and "w \<in> set (vts_writes n fl fc cs (vt_offsets n fl) su)"
  shows "0 \<le> fst w \<and> fst w < len_vts (vt_offsets n fl)"
  using assms
  by (auto simp: vts_writes_def set_concat_range strip_writes_def ctrl_strip_writes_def
      rim_writes_def cap_uv_writes_def vt_offsets_def vt_len_def Let_def
      split: if_splits)

lemma vt_idcs_writes_in_range:
  assumes "1 \<le> n" and "flags_ok fl"
    and "w \<in> set (vt_idcs_writes n fl tx (loop_offsets n fl))"
  shows "0 \<le> fst w \<and> fst w < len_loop_idcs (loop_offsets n fl)"
proof (cases "w \<in> set (fan_writes n fl (loop_offsets n fl) (vt_idx_btm_spoke tx)
       (vt_idx_btm_fan tx) (vt_idx_top_spoke tx) (vt_idx_top_fan tx))")
  case True
  then show ?thesis using assms(1,2) by (rule fan_writes_in_range [rotated 2])
next
  case False
  have "0 \<le> cap_loops n fl" using assms(1) by (simp add: cap_loops_def)
  with False assms show ?thesis
    by (auto simp: vt_idcs_writes_def set_concat_range cap_band_writes_def
        uv_side_band_writes_def uv_side_strip_writes_def loop_offsets_def Let_def
        split: if_splits)
qed

lemma ctrl_factors_ok:
  assumes "0 < radius_btm p" "0 < radius_top p" "0 < depth p"
  shows "ctrl_factors p fl = Inr (factors_of p fl)"
  using assms
  by (simp add: ctrl_factors_def aspect_ratios_def factors_of_def py_fdiv_def Let_def)

lemma cartesian_ok: "sectors p \<noteq> 0 \<Longrightarrow> cartesian p = Inr (cart_table p)"
  by (simp add: cartesian_def cart_table_def py_fdiv_def Let_def)

lemma cart_table_nth:
  "0 \<le> i \<Longrightarrow> i < sectors p \<Longrightarrow>
   cart_table p ! nat i =
     (cos (orientation p + of_int i * (2 * pi / of_int (sectors p))),
      sin (orientation p + of_int i * (2 * pi / of_int (sectors p))))"
  by (simp add: cart_table_def nth_py_range)

lemma make_vs_ok:
  assumes "1 \<le> sectors p" and "use_caps fl \<or> cap_is_none fl"
  shows "make_vs p fl fc cs (v_offsets (sectors p) fl) =
     Inr (upd_all (vs_writes p fl fc cs (v_offsets (sectors p) fl))
            (py_repeat (0, 0, 0) (len_vs (v_offsets (sectors p) fl))))"
  unfolding make_vs_writes
proof (rule py_sets_in_range)
  fix w assume "w \<in> set (vs_writes p fl fc cs (v_offsets (sectors p) fl))"
  from vs_writes_in_range [OF assms this]
  show "0 \<le> fst w \<and> fst w < int (length (py_repeat (0::real, 0::real, 0::real)
          (len_vs (v_offsets (sectors p) fl))))"
    by simp
qed

lemma make_v_idcs_ok:
  assumes "1 \<le> n" and "flags_ok fl"
  shows "make_v_idcs n fl ix (loop_offsets n fl) =
     Inr (upd_all (v_idcs_writes n fl ix (loop_offsets n fl))
            (py_repeat [0, 0, 0, 0] (len_loop_idcs (loop_offsets n fl))))"
  unfolding make_v_idcs_writes
proof (rule py_sets_in_range)
  fix w assume "w \<in> set (v_idcs_writes n fl ix (loop_offsets n fl))"
  from bands_in_range [OF assms this]
  show "0 \<le> fst w \<and> fst w < int (length (py_repeat [0::int, 0, 0, 0]
          (len_loop_idcs (loop_offsets n fl))))"
    by simp
qed

lemma make_vts_ok:
  assumes "1 \<le> n"
  shows "make_vts n fl fc cs (vt_offsets n fl) =
     Inr (upd_all (vts_writes n fl fc cs (vt_offsets n fl) (1 / of_int n))
            (py_repeat (0, 0) (len_vts (vt_offsets n fl))))"
proof -
  have "n \<noteq> 0" using assms by simp
  show ?thesis
    unfolding make_vts_writes [OF \<open>n \<noteq> 0\<close>]
  proof (rule py_sets_in_range)
    fix w assume "w \<in> set (vts_writes n fl fc cs (vt_offsets n fl) (1 / of_int n))"
    from vts_writes_in_range [OF assms this]
    show "0 \<le> fst w \<and> fst w < int (length (py_repeat (0::real, 0::real)
            (len_vts (vt_offsets n fl))))"
      by simp
  qed
qed

lemma make_vt_idcs_ok:
  assumes "1 \<le> n" and "flags_ok fl"
  shows "make_vt_idcs n fl tx (loop_offsets n fl) =
     Inr (upd_all (vt_idcs_writes n fl tx (loop_offsets n fl))
            (py_repeat [0, 0, 0, 0] (len_loop_idcs (loop_offsets n fl))))"
  unfolding make_vt_idcs_writes
proof (rule py_sets_in_range)
  fix w assume "w \<in> set (vt_idcs_writes n fl tx (loop_offsets n fl))"
  from vt_idcs_writes_in_range [OF assms this]
  show "0 \<le> fst w \<and> fst w < int (length (py_repeat [0::int, 0, 0, 0]
          (len_loop_idcs (loop_offsets n fl))))"
    by simp
qed

lemma execute_ok:
  assumes n: "1 \<le> sectors p"
    and pos: "0 < radius_btm p" "0 < radius_top p" "0 < depth p"
    and fl: "flags_ok (flags_of p)"
  shows "execute p =
     Inr \<lparr> vs = final_vs p, v_idcs = final_v_idcs p,
           uvs = (if calc_uvs p then Some (final_vts p, final_vt_idcs p) else None) \<rparr>"
proof -
  have cn: "use_caps (flags_of p) \<or> cap_is_none (flags_of p)"
    using fl unfolding flags_ok_def by blast
  have n0: "sectors p \<noteq> 0" using n by simp
  show ?thesis
    unfolding execute_def Let_def flags_of_def [symmetric]
    by (simp add: ctrl_factors_ok [OF pos] cartesian_ok [OF n0] make_vs_ok [OF n cn]
        make_v_idcs_ok [OF n fl] make_uvs_def make_vts_ok [OF n] make_vt_idcs_ok [OF n fl]
        final_vs_def final_v_idcs_def final_vts_def final_vt_idcs_def Let_def)
qed

lemma set_ring_ws:
  "w \<in> set (ring_ws n rings) \<longleftrightarrow>
     (\<exists>i r. 0 \<le> i \<and> i < n \<and> r \<in> set rings \<and> w = (fst r + i, snd r i))"
proof
  assume "w \<in> set (ring_ws n rings)"
  then obtain i where i: "i \<in> set (py_range 0 n)"
      "w \<in> set (map (\<lambda>r. (fst r + i, snd r i)) rings)"
    unfolding ring_ws_def by auto
  from i(2) obtain r where "r \<in> set rings" "w = (fst r + i, snd r i)" by auto
  with i(1) have "0 \<le> i \<and> i < n \<and> r \<in> set rings \<and> w = (fst r + i, snd r i)"
    by simp
  then show "\<exists>i r. 0 \<le> i \<and> i < n \<and> r \<in> set rings \<and> w = (fst r + i, snd r i)"
    by (intro exI)
next
  assume "\<exists>i r. 0 \<le> i \<and> i < n \<and> r \<in> set rings \<and> w = (fst r + i, snd r i)"
  then obtain i r where ir: "0 \<le> i" "i < n" "r \<in> set rings" "w = (fst r + i, snd r i)"
    by blast
  then have "i \<in> set (py_range 0 n)" "w \<in> set (map (\<lambda>r. (fst r + i, snd r i)) rings)"
    by auto
  then show "w \<in> set (ring_ws n rings)" unfolding ring_ws_def by auto
qed

lemma cap_flags_caps_or_none:
  "use_caps (cap_flags n cft elf) \<or> cap_is_none (cap_flags n cft elf)"
  by (cases cft) (simp_all add: cap_flags_def Let_def)

lemma positions_ok:
  assumes "1 \<le> sectors p" "0 < radius_btm p" "0 < radius_top p" "0 < depth p"
  shows "positions p = Inr (final_vs p)"
proof -
  have n0: "sectors p \<noteq> 0" using assms(1) by simp
  have cn: "use_caps (flags_of p) \<or> cap_is_none (flags_of p)"
    unfolding flags_of_def by (rule cap_flags_caps_or_none)
  show ?thesis
    unfolding positions_def Let_def flags_of_def [symmetric]
    by (simp add: ctrl_factors_ok [OF assms(2-4)] cartesian_ok [OF n0]
        make_vs_ok [OF assms(1) cn] final_vs_def Let_def)
qed

lemma execute_positions: "execute p = Inr m \<Longrightarrow> positions p = Inr (vs m)"
  unfolding execute_def positions_def Let_def
  by (auto simp: py_bind_Inr_iff)

lemma length_final_vs: "length (final_vs p) = nat (len_vs (v_offsets (sectors p) (flags_of p)))"
  by (simp add: final_vs_def Let_def)

lemma edge_loop_rings:
  "concat (map (edge_ring_writes p ix cs) (py_range 0 n)) = ring_ws n (edge_rings p ix cs)"
proof -
  have "edge_ring_writes p ix cs = (\<lambda>i. map (\<lambda>r. (fst r + i, snd r i)) (edge_rings p ix cs))"
    by (rule ext) (simp add: edge_ring_writes_def edge_rings_def Let_def)
  then show ?thesis by (simp only: ring_ws_def)
qed

lemma side_loop_rings:
  "concat (map (side_ring_writes p fc ix cs) (py_range 0 n)) = ring_ws n (side_rings p fc ix cs)"
proof -
  have "side_ring_writes p fc ix cs = (\<lambda>i. map (\<lambda>r. (fst r + i, snd r i)) (side_rings p fc ix cs))"
    by (rule ext) (simp add: side_ring_writes_def side_rings_def Let_def)
  then show ?thesis by (simp only: ring_ws_def)
qed

lemma cap_loop_rings:
  "concat (map (cap_ring_writes p fc ix cs) (py_range 0 n)) = ring_ws n (cap_rings p fc ix cs)"
proof -
  have "cap_ring_writes p fc ix cs = (\<lambda>i. map (\<lambda>r. (fst r + i, snd r i)) (cap_rings p fc ix cs))"
    by (rule ext) (simp add: cap_ring_writes_def cap_rings_def Let_def)
  then show ?thesis by (simp only: ring_ws_def)
qed

lemma default_params_simps [simp]:
  "sectors default_params = 8" "orientation default_params = 0"
  "radius_btm default_params = 0.5" "radius_top default_params = 0.5"
  "depth default_params = 1.5" "depth_offset default_params = 0"
  "cap_face_type default_params = QUAD" "edge_loop_fac default_params = 0"
  "calc_uvs default_params = False"
  by (simp_all add: default_params_def)

lemma cap_flags_tri_ngon:
  assumes "4 \<le> n" and "n < 5 \<or> n mod 2 \<noteq> 0"
  shows "cap_flags n TRI elf =
     \<lparr> cap_is_none = False, cap_is_ngon = True, cap_is_quad = False, cap_is_tri = True,
       use_center_spoke = True, use_caps = True, use_edge_loops = (elf > 0 \<and> elf < 1) \<rparr>"
  using assms by (auto simp: cap_flags_def Let_def)

lemma make_v_idcs_tri_ngon:
  assumes n: "2 \<le> n" and tri: "cap_is_tri fl" and ngon: "cap_is_ngon fl"
  shows "make_v_idcs n fl ix (loop_offsets n fl) = Inl IndexError"
proof -
  let ?lx = "loop_offsets n fl"
  let ?w = "(loop_idx_top_fan ?lx + 1,
             [v_idx_top_spoke ix, v_idx_top_fan ix + 1, v_idx_top_fan ix + (1 + 1) mod n])"
  have "?w \<in> set (tri_fan_writes n ?lx (v_idx_btm_spoke ix) (v_idx_btm_fan ix)
                     (v_idx_top_spoke ix) (v_idx_top_fan ix) 1)"
    by (simp add: tri_fan_writes_def Let_def)
  moreover have "(1::int) \<in> set (py_range 0 n)" using n by simp
  ultimately have "?w \<in> set (fan_writes n fl ?lx (v_idx_btm_spoke ix) (v_idx_btm_fan ix)
                     (v_idx_top_spoke ix) (v_idx_top_fan ix))"
    unfolding fan_writes_def using tri by (simp only: if_True set_concat set_map) blast
  then have mem: "?w \<in> set (v_idcs_writes n fl ix ?lx)"
    unfolding v_idcs_writes_def by simp
  have "len_loop_idcs ?lx = loop_idx_top_fan ?lx + 1"
    using ngon by (simp add: loop_offsets_def cap_loops_def Let_def)
  moreover have "0 \<le> loop_idx_top_fan ?lx"
    using n ngon by (simp add: loop_offsets_def cap_loops_def Let_def)
  ultimately have "int (length (py_repeat [0::int, 0, 0, 0] (len_loop_idcs ?lx))) \<le> fst ?w"
    by simp
  from py_sets_beyond [OF mem this] show ?thesis
    by (simp only: make_v_idcs_writes)
qed

lemma execute_tri_defect:
  assumes tri: "cap_face_type p = TRI" and n: "4 \<le> sectors p"
    and odd: "sectors p < 5 \<or> sectors p mod 2 \<noteq> 0"
    and pos: "0 < radius_btm p" "0 < radius_top p" "0 < depth p"
  shows "execute p = Inl IndexError"
proof -
  have fl: "cap_is_tri (flags_of p)" "cap_is_ngon (flags_of p)" "use_caps (flags_of p)"
    unfolding flags_of_def tri by (simp_all add: cap_flags_tri_ngon [OF n odd])
  have n0: "sectors p \<noteq> 0" and n1: "1 \<le> sectors p" and n2: "2 \<le> sectors p"
    using n by simp_all
  have cn: "use_caps (flags_of p) \<or> cap_is_none (flags_of p)" using fl(3) by simp
  show ?thesis
    unfolding execute_def Let_def flags_of_def [symmetric]
    by (simp add: ctrl_factors_ok [OF pos] cartesian_ok [OF n0] make_vs_ok [OF n1 cn]
        make_v_idcs_tri_ngon [OF n2 fl(1,2)])
qed

lemma flags_of_ok:
  assumes "cap_face_type p = TRI \<longrightarrow> sectors p < 4 \<or> (5 \<le> sectors p \<and> sectors p mod 2 = 0)"
  shows "flags_ok (flags_of p)"
  unfolding flags_of_def using assms by (rule cap_flags_ok)

text \<open>Outside the defect of the triangle caps, every assignment of the generator lands
  inside its buffer and every index of a face is an index of the vertex buffer.\<close>

lemma execute_safe:
  assumes n: "1 \<le> sectors p"
    and pos: "0 < radius_btm p" "0 < radius_top p" "0 < depth p"
    and ok: "cap_face_type p = TRI \<longrightarrow>
               sectors p < 4 \<or> (5 \<le> sectors p \<and> sectors p mod 2 = 0)"
  shows "\<exists>m. execute p = Inr m \<and>
           int (length (vs m)) = len_vs (v_offsets (sectors p) (flags_of p)) \<and>
           int (length (v_idcs m)) = len_loop_idcs (loop_offsets (sectors p) (flags_of p)) \<and>
           (\<forall>f\<in>set (v_idcs m). \<forall>k\<in>set f. 0 \<le> k \<and> k < int (length (vs m)))"
proof -
  let ?fl = "flags_of p"
  let ?ix = "v_offsets (sectors p) ?fl"
  let ?lx = "loop_offsets (sectors p) ?fl"
  have fl: "flags_ok ?fl" by (rule flags_of_ok [OF ok])
  have n0: "0 < sectors p" using n by simp
  have lv: "0 < len_vs ?ix" using n by (simp add: v_offsets_def Let_def)
  have ll: "0 \<le> len_loop_idcs ?lx" using n by (simp add: loop_offsets_def cap_loops_def Let_def)
  have valid: "\<forall>k\<in>set f. 0 \<le> k \<and> k < len_vs ?ix" if "f \<in> set (final_v_idcs p)" for f
    using _ _ that unfolding final_v_idcs_def Let_def
  proof (rule upd_all_set)
    fix x :: face assume "x \<in> set (py_repeat [0, 0, 0, 0] (len_loop_idcs ?lx))"
    then have "x = [0, 0, 0, 0]" by (rule set_py_repeat)
    with lv show "\<forall>k\<in>set x. 0 \<le> k \<and> k < len_vs ?ix" by simp
  next
    fix w assume "w \<in> set (v_idcs_writes (sectors p) ?fl ?ix ?lx)"
    from v_idcs_writes_valid [OF n0 fl this]
    show "\<forall>k\<in>set (snd w). 0 \<le> k \<and> k < len_vs ?ix" by blast
  qed
  have "execute p = Inr \<lparr> vs = final_vs p, v_idcs = final_v_idcs p,
           uvs = (if calc_uvs p then Some (final_vts p, final_vt_idcs p) else None) \<rparr>"
    by (rule execute_ok [OF n pos fl])
  moreover have "int (length (final_vs p)) = len_vs ?ix"
    using lv by (simp add: length_final_vs)
  moreover have "int (length (final_v_idcs p)) = len_loop_idcs ?lx"
    using ll by (simp add: final_v_idcs_def Let_def)
  ultimately show ?thesis using valid by simp
qed

text \<open>The value of a cell after a block made of single assignments \<open>sp\<close> and of two
  groups of rings.\<close>

lemma rings_frame:
  assumes ws: "set ws = set sp \<union> set (ring_ws n rings) \<union> set (ring_ws n' rings')"
    and k: "0 \<le> k"
    and sp: "\<And>w. w \<in> set sp \<Longrightarrow> 0 \<le> fst w \<and> fst w \<noteq> k"
    and o1: "\<And>r. r \<in> set rings \<Longrightarrow> 0 \<le> fst r \<and> \<not> in_ring n (fst r) k"
    and o2: "\<And>r. r \<in> set rings' \<Longrightarrow> 0 \<le> fst r \<and> \<not> in_ring n' (fst r) k"
  shows "upd_all ws xs ! nat k = xs ! nat k"
proof (rule upd_all_frame)
  fix w assume "w \<in> set ws"
  then consider "w \<in> set sp" | "w \<in> set (ring_ws n rings)" | "w \<in> set (ring_ws n' rings')"
    unfolding ws by blast
  then have "0 \<le> fst w \<and> fst w \<noteq> k"
  proof cases
    case 1
    then show ?thesis by (rule sp)
  next
    case 2
    then obtain i r where "0 \<le> i" "i < n" "r \<in> set rings" "w = (fst r + i, snd r i)"
      unfolding set_ring_ws by blast
    with o1 [of r] show ?thesis by (auto simp: in_ring_def)
  next
    case 3
    then obtain i r where "0 \<le> i" "i < n'" "r \<in> set rings'" "w = (fst r + i, snd r i)"
      unfolding set_ring_ws by blast
    with o2 [of r] show ?thesis by (auto simp: in_ring_def)
  qed
  with k show "nat (fst w) \<noteq> nat k" by (simp add: eq_nat_nat_iff)
qed

lemma rings_value:
  assumes ws: "set ws = set sp \<union> set (ring_ws n rings) \<union> set (ring_ws n' rings')"
    and r: "(b, f) \<in> set rings" and i: "0 \<le> i" "i < n" and b: "0 \<le> b"
    and len: "b + i < int (length xs)"
    and sp: "\<And>w. w \<in> set sp \<Longrightarrow> 0 \<le> fst w \<and> fst w \<noteq> b + i"
    and o1: "\<And>r. r \<in> set rings \<Longrightarrow>
               0 \<le> fst r \<and> (r = (b, f) \<or> \<not> in_ring n (fst r) (b + i))"
    and o2: "\<And>r. r \<in> set rings' \<Longrightarrow> 0 \<le> fst r \<and> \<not> in_ring n' (fst r) (b + i)"
  shows "upd_all ws xs ! nat (b + i) = f i"
proof (rule upd_all_value)
  show "nat (b + i) < length xs" using len b i by linarith
  have "(b + i, f i) \<in> set (ring_ws n rings)"
    unfolding set_ring_ws using r i by force
  then show "\<exists>w\<in>set ws. nat (fst w) = nat (b + i)" unfolding ws by force
  fix w assume w: "w \<in> set ws" and k: "nat (fst w) = nat (b + i)"
  from w consider "w \<in> set sp" | "w \<in> set (ring_ws n rings)"
    | "w \<in> set (ring_ws n' rings')"
    unfolding ws by blast
  then show "snd w = f i"
  proof cases
    case 1
    from sp [OF 1] k b i have False by (simp add: eq_nat_nat_iff)
    then show ?thesis ..
  next
    case 2
    then obtain j r' where jr: "0 \<le> j" "j < n" "r' \<in> set rings"
        "w = (fst r' + j, snd r' j)"
      unfolding set_ring_ws by blast
    from o1 [OF jr(3)] jr(1,4) k b i have e: "fst r' + j = b + i"
      by (simp add: eq_nat_nat_iff)
    with o1 [OF jr(3)] jr(1,2) have "r' = (b, f)" by (auto simp: in_ring_def)
    with e jr(4) show ?thesis by simp
  next
    case 3
    then obtain j r' where jr: "0 \<le> j" "j < n'" "r' \<in> set rings'"
        "w = (fst r' + j, snd r' j)"
      unfolding set_ring_ws by blast
    from o2 [OF jr(3)] jr(1,4) k b i have e: "fst r' + j = b + i"
      by (simp add: eq_nat_nat_iff)
    with o2 [OF jr(3)] jr(1,2) show ?thesis by (auto simp: in_ring_def)
  qed
qed

lemma rings_single:
  assumes ws: "set ws = set sp \<union> set (ring_ws n rings) \<union> set (ring_ws n' rings')"
    and kv: "(k, v) \<in> set sp" and k: "0 \<le> k" "k < int (length xs)"
    and sp: "\<And>w. w \<in> set sp \<Longrightarrow> 0 \<le> fst w \<and> (fst w = k \<longrightarrow> snd w = v)"
    and o1: "\<And>r. r \<in> set rings \<Longrightarrow> 0 \<le> fst r \<and> \<not> in_ring n (fst r) k"
    and o2: "\<And>r. r \<in> set rings' \<Longrightarrow> 0 \<le> fst r \<and> \<not> in_ring n' (fst r) k"
  shows "upd_all ws xs ! nat k = v"
proof (rule upd_all_value)
  show "nat k < length xs" using k by linarith
  show "\<exists>w\<in>set ws. nat (fst w) = nat k" unfolding ws using kv by force
  fix w assume w: "w \<in> set ws" and e: "nat (fst w) = nat k"
  from w consider "w \<in> set sp" | "w \<in> set (ring_ws n rings)"
    | "w \<in> set (ring_ws n' rings')"
    unfolding ws by blast
  then show "snd w = v"
  proof cases
    case 1
    from sp [OF 1] e k show ?thesis by (simp add: eq_nat_nat_iff)
  next
    case 2
    then obtain j r' where jr: "0 \<le> j" "j < n" "r' \<in> set rings"
        "w = (fst r' + j, snd r' j)"
      unfolding set_ring_ws by blast
    from o1 [OF jr(3)] jr(1,4) e k have "fst r' + j = k" by (simp add: eq_nat_nat_iff)
    with o1 [OF jr(3)] jr(1,2) show ?thesis by (auto simp: in_ring_def)
  next
    case 3
    then obtain j r' where jr: "0 \<le> j" "j < n'" "r' \<in> set rings'"
        "w = (fst r' + j, snd r' j)"
      unfolding set_ring_ws by blast
    from o2 [OF jr(3)] jr(1,4) e k have "fst r' + j = k" by (simp add: eq_nat_nat_iff)
    with o2 [OF jr(3)] jr(1,2) show ?thesis by (auto simp: in_ring_def)
  qed
qed

lemma set_ring_ws_append:
  "set (ring_ws n (a @ b)) = set (ring_ws n a) \<union> set (ring_ws n b)"
  by (auto simp: ring_ws_def)

lemma set_ring_ws_Nil [simp]: "set (ring_ws n []) = {}"
  by (simp add: ring_ws_def)

lemma set_vs_writes:
  "set (vs_writes p fl fc cs ix) =
     set (spoke_ws p fl ix) \<union> set (ring_ws (sectors p) (vs_rings p fl fc cs ix)) \<union>
     set (ring_ws 0 [])"
  by (auto simp: vs_writes_def spoke_ws_def vs_rings_def edge_loop_rings side_loop_rings
      cap_loop_rings set_ring_ws_append)

lemma vs_rings_nonneg:
  assumes "0 \<le> n" and "r \<in> set (vs_rings p fl fc cs (v_offsets n fl))"
  shows "0 \<le> fst r"
  using assms
  by (auto simp: vs_rings_def edge_rings_def side_rings_def cap_rings_def v_offsets_def Let_def
      split: if_splits)

lemma vs_rings_inside:
  assumes "0 \<le> n" and "use_caps fl \<or> cap_is_none fl"
    and "r \<in> set (vs_rings p fl fc cs (v_offsets n fl))"
  shows "fst r + n \<le> len_vs (v_offsets n fl)"
  using assms
  by (auto simp: vs_rings_def edge_rings_def side_rings_def cap_rings_def v_offsets_def Let_def
      split: if_splits)

lemma vs_rings_disjoint:
  assumes "0 \<le> i" "i < n"
    and "r \<in> set (vs_rings p fl fc cs (v_offsets n fl))"
    and "r' \<in> set (vs_rings p fl fc cs (v_offsets n fl))"
  shows "r' = r \<or> \<not> in_ring n (fst r') (fst r + i)"
  using assms
  by (auto simp: vs_rings_def edge_rings_def side_rings_def cap_rings_def v_offsets_def
      in_ring_def Let_def split: if_splits)

lemma spoke_ws_outside:
  assumes "0 \<le> i" "i < n" and "use_caps fl \<or> cap_is_none fl"
    and "r \<in> set (vs_rings p fl fc cs (v_offsets n fl))"
    and "w \<in> set (spoke_ws p fl (v_offsets n fl))"
  shows "0 \<le> fst w \<and> fst w \<noteq> fst r + i"
  using assms
  by (auto simp: vs_rings_def edge_rings_def side_rings_def cap_rings_def v_offsets_def
      spoke_ws_def Let_def split: if_splits)

lemma final_vs_ring:
  assumes i: "0 \<le> i" "i < sectors p"
    and r: "(b, f) \<in> set (vs_rings p (flags_of p) (factors_of p (flags_of p)) (cart_table p)
                            (v_offsets (sectors p) (flags_of p)))"
  shows "final_vs p ! nat (b + i) = f i"
proof -
  let ?fl = "flags_of p"
  let ?ix = "v_offsets (sectors p) ?fl"
  have cn: "use_caps ?fl \<or> cap_is_none ?fl"
    unfolding flags_of_def by (rule cap_flags_caps_or_none)
  have n0: "0 \<le> sectors p" using i by simp
  show ?thesis
    unfolding final_vs_def Let_def
  proof (rule rings_value [OF set_vs_writes r i])
    show "0 \<le> b" using vs_rings_nonneg [OF n0 r] by simp
    show "b + i < int (length (py_repeat (0::real, 0::real, 0::real) (len_vs ?ix)))"
      using vs_rings_inside [OF n0 cn r] i by simp
    show "0 \<le> fst w \<and> fst w \<noteq> b + i" if "w \<in> set (spoke_ws p ?fl ?ix)" for w
      using spoke_ws_outside [OF i cn r that] by simp
    show "0 \<le> fst r' \<and> (r' = (b, f) \<or> \<not> in_ring (sectors p) (fst r') (b + i))"
      if "r' \<in> set (vs_rings p ?fl (factors_of p ?fl) (cart_table p) ?ix)" for r'
      using vs_rings_nonneg [OF n0 that] vs_rings_disjoint [OF i r that] by simp
  qed simp
qed

lemma final_vs_spokes:
  assumes n: "1 \<le> sectors p" and sp: "use_center_spoke (flags_of p)"
  shows "final_vs p ! nat (v_idx_btm_spoke (v_offsets (sectors p) (flags_of p))) =
           (0, 0, vz_btm p)"
    and "final_vs p ! nat (v_idx_top_spoke (v_offsets (sectors p) (flags_of p))) =
           (0, 0, vz_top p)"
proof -
  let ?fl = "flags_of p"
  let ?ix = "v_offsets (sectors p) ?fl"
  have cn: "use_caps ?fl \<or> cap_is_none ?fl"
    unfolding flags_of_def by (rule cap_flags_caps_or_none)
  have n0: "0 \<le> sectors p" using n by simp
  have out: "0 \<le> fst r \<and> \<not> in_ring (sectors p) (fst r) (v_idx_btm_spoke ?ix) \<and>
             \<not> in_ring (sectors p) (fst r) (v_idx_top_spoke ?ix)"
    if "r \<in> set (vs_rings p ?fl (factors_of p ?fl) (cart_table p) ?ix)" for r
    using that n sp cn
    by (auto simp: vs_rings_def edge_rings_def side_rings_def cap_rings_def v_offsets_def
        in_ring_def Let_def split: if_splits)
  have ne: "v_idx_btm_spoke ?ix \<noteq> v_idx_top_spoke ?ix" "0 \<le> v_idx_top_spoke ?ix"
    "v_idx_btm_spoke ?ix = 0" "v_idx_top_spoke ?ix < len_vs ?ix" "0 < len_vs ?ix"
    using n sp cn by (auto simp: v_offsets_def Let_def)
  show "final_vs p ! nat (v_idx_btm_spoke ?ix) = (0, 0, vz_btm p)"
    unfolding final_vs_def Let_def
  proof (rule rings_single [OF set_vs_writes])
    show "(v_idx_btm_spoke ?ix, (0, 0, vz_btm p)) \<in> set (spoke_ws p ?fl ?ix)"
      using sp by (simp add: spoke_ws_def)
    show "0 \<le> v_idx_btm_spoke ?ix" using ne by simp
    show "v_idx_btm_spoke ?ix < int (length (py_repeat (0::real, 0::real, 0::real) (len_vs ?ix)))"
      using ne by simp
    show "0 \<le> fst w \<and> (fst w = v_idx_btm_spoke ?ix \<longrightarrow> snd w = (0, 0, vz_btm p))"
      if "w \<in> set (spoke_ws p ?fl ?ix)" for w
      using that ne by (auto simp: spoke_ws_def split: if_splits)
    show "0 \<le> fst r \<and> \<not> in_ring (sectors p) (fst r) (v_idx_btm_spoke ?ix)"
      if "r \<in> set (vs_rings p ?fl (factors_of p ?fl) (cart_table p) ?ix)" for r
      using out [OF that] by simp
  qed simp
  show "final_vs p ! nat (v_idx_top_spoke ?ix) = (0, 0, vz_top p)"
    unfolding final_vs_def Let_def
  proof (rule rings_single [OF set_vs_writes])
    show "(v_idx_top_spoke ?ix, (0, 0, vz_top p)) \<in> set (spoke_ws p ?fl ?ix)"
      using sp by (simp add: spoke_ws_def)
    show "0 \<le> v_idx_top_spoke ?ix" using ne by simp
    show "v_idx_top_spoke ?ix < int (length (py_repeat (0::real, 0::real, 0::real) (len_vs ?ix)))"
      using ne by simp
    show "0 \<le> fst w \<and> (fst w = v_idx_top_spoke ?ix \<longrightarrow> snd w = (0, 0, vz_top p))"
      if "w \<in> set (spoke_ws p ?fl ?ix)" for w
      using that ne by (auto simp: spoke_ws_def split: if_splits)
    show "0 \<le> fst r \<and> \<not> in_ring (sectors p) (fst r) (v_idx_top_spoke ?ix)"
      if "r \<in> set (vs_rings p ?fl (factors_of p ?fl) (cart_table p) ?ix)" for r
      using out [OF that] by simp
  qed simp
qed

text \<open>A cell that no spoke and no ring covers keeps the value the buffer was created
  with.\<close>

lemma final_vs_untouched:
  assumes n: "1 \<le> sectors p" and k: "0 \<le> k" "k < len_vs (v_offsets (sectors p) (flags_of p))"
    and sp: "\<And>w. w \<in> set (spoke_ws p (flags_of p) (v_offsets (sectors p) (flags_of p))) \<Longrightarrow>
               fst w \<noteq> k"
    and rs: "\<And>r. r \<in> set (vs_rings p (flags_of p) (factors_of p (flags_of p)) (cart_table p)
                            (v_offsets (sectors p) (flags_of p))) \<Longrightarrow>
               \<not> in_ring (sectors p) (fst r) k"
  shows "final_vs p ! nat k = (0, 0, 0)"
proof -
  let ?fl = "flags_of p"
  let ?ix = "v_offsets (sectors p) ?fl"
  have n0: "0 \<le> sectors p" using n by simp
  have "final_vs p ! nat k = py_repeat (0, 0, 0) (len_vs ?ix) ! nat k"
    unfolding final_vs_def Let_def
  proof (rule rings_frame [OF set_vs_writes k(1)])
    show "0 \<le> fst w \<and> fst w \<noteq> k" if "w \<in> set (spoke_ws p ?fl ?ix)" for w
      using that sp [OF that] n0 by (auto simp: spoke_ws_def v_offsets_def Let_def split: if_splits)
    show "0 \<le> fst r \<and> \<not> in_ring (sectors p) (fst r) k"
      if "r \<in> set (vs_rings p ?fl (factors_of p ?fl) (cart_table p) ?ix)" for r
      using vs_rings_nonneg [OF n0 that] rs [OF that] by simp
  qed simp
  also have "\<dots> = (0, 0, 0)" using k by (intro nth_py_repeat) linarith
  finally show ?thesis .
qed

lemma cap_flags_none:
  "cap_flags n NONE elf =
     \<lparr> cap_is_none = True, cap_is_ngon = False, cap_is_quad = False, cap_is_tri = False,
       use_center_spoke = False, use_caps = False, use_edge_loops = (elf > 0 \<and> elf < 1) \<rparr>"
  by (simp add: cap_flags_def Let_def)

text \<open>The code agrees with the sum of the group sizes, except with edge loops and no
  caps.\<close>

lemma len_vs_spec:
  assumes "use_caps fl \<or> cap_is_none fl" and "use_edge_loops fl \<longrightarrow> use_caps fl"
  shows "len_vs (v_offsets n fl) = spec_len_vs n fl"
  using assms by (auto simp: v_offsets_def spec_len_vs_def Let_def)

lemma final_v_idcs_all:
  assumes init: "P [0, 0, 0, 0]"
    and ws: "\<And>w. w \<in> set (v_idcs_writes (sectors p) (flags_of p)
                 (v_offsets (sectors p) (flags_of p)) (loop_offsets (sectors p) (flags_of p))) \<Longrightarrow>
               P (snd w)"
    and f: "f \<in> set (final_v_idcs p)"
  shows "P f"
  using _ ws f unfolding final_v_idcs_def Let_def
proof (rule upd_all_set)
  fix x :: face
  assume "x \<in> set (py_repeat [0, 0, 0, 0]
    (len_loop_idcs (loop_offsets (sectors p) (flags_of p))))"
  then have "x = [0, 0, 0, 0]" by (rule set_py_repeat)
  with init show "P x" by simp
qed

lemma side_strip_loop_rings:
  "concat (map (side_strip_writes n lx ix) (py_range 0 m)) = ring_ws m (side_strip_rings n lx ix)"
proof -
  have "side_strip_writes n lx ix = (\<lambda>i. map (\<lambda>r. (fst r + i, snd r i)) (side_strip_rings n lx ix))"
    by (rule ext) (simp add: side_strip_writes_def side_strip_rings_def Let_def)
  then show ?thesis by (simp only: ring_ws_def)
qed

lemma side_band_loop_rings:
  "concat (map (side_band_writes n lx ix) (py_range 0 m)) = ring_ws m (side_band_rings n lx ix)"
proof -
  have "side_band_writes n lx ix = (\<lambda>i. map (\<lambda>r. (fst r + i, snd r i)) (side_band_rings n lx ix))"
    by (rule ext) (simp add: side_band_writes_def side_band_rings_def Let_def)
  then show ?thesis by (simp only: ring_ws_def)
qed

text \<open>Without caps the face buffer is the side strip, or the four side bands.\<close>

lemma final_v_idcs_no_caps:
  assumes none: "cap_face_type p = NONE"
  shows "final_v_idcs p =
     upd_all (ring_ws (sectors p)
                (if use_edge_loops (flags_of p)
                 then side_band_rings (sectors p) (loop_offsets (sectors p) (flags_of p))
                        (v_offsets (sectors p) (flags_of p))
                 else side_strip_rings (sectors p) (loop_offsets (sectors p) (flags_of p))
                        (v_offsets (sectors p) (flags_of p))))
       (py_repeat [0, 0, 0, 0] (len_loop_idcs (loop_offsets (sectors p) (flags_of p))))"
proof -
  have fl: "\<not> cap_is_tri (flags_of p)" "\<not> cap_is_quad (flags_of p)"
    "\<not> cap_is_ngon (flags_of p)" "\<not> use_caps (flags_of p)"
    unfolding flags_of_def none by (simp_all add: cap_flags_none)
  show ?thesis
    unfolding final_v_idcs_def Let_def v_idcs_writes_def fan_writes_def
    by (simp add: fl side_band_loop_rings side_strip_loop_rings)
qed

lemma ring_ws_only_value:
  assumes r: "(b, f) \<in> set rings" and i: "0 \<le> i" "i < n" and b: "0 \<le> b"
    and len: "b + i < int (length xs)"
    and o1: "\<And>r. r \<in> set rings \<Longrightarrow>
               0 \<le> fst r \<and> (r = (b, f) \<or> \<not> in_ring n (fst r) (b + i))"
  shows "upd_all (ring_ws n rings) xs ! nat (b + i) = f i"
proof (rule rings_value [where sp = "[]" and n' = 0 and rings' = "[]", OF _ r i b len _ o1])
  show "set (ring_ws n rings) = set [] \<union> set (ring_ws n rings) \<union> set (ring_ws 0 [])"
    by simp
qed simp_all

lemma ctrl_factors_error: "ctrl_factors p fl = Inl e \<Longrightarrow> e = ZeroDivisionError"
  by (auto simp: ctrl_factors_def aspect_ratios_def py_fdiv_def py_bind_def Let_def
      split: if_splits sum.splits prod.splits)

lemma cap_flags_use_caps: "cft \<noteq> NONE \<Longrightarrow> use_caps (cap_flags n cft elf)"
  by (cases cft) (auto simp: cap_flags_def Let_def)

lemma ctrl_factors_zero_depth:
  assumes "use_caps fl" and "depth p = 0"
  shows "ctrl_factors p fl = Inl ZeroDivisionError"
  using assms by (simp add: ctrl_factors_def aspect_ratios_def py_fdiv_def)

lemma execute_zero_depth:
  assumes "cap_face_type p \<noteq> NONE" and "depth p = 0"
  shows "execute p = Inl ZeroDivisionError"
proof -
  have "use_caps (cap_flags (sectors p) (cap_face_type p) (edge_loop_fac p))"
    by (rule cap_flags_use_caps [OF assms(1)])
  from ctrl_factors_zero_depth [OF this assms(2)] show ?thesis
    by (simp add: execute_def Let_def)
qed

lemma execute_zero_sectors:
  assumes "sectors p = 0"
  shows "execute p = Inl ZeroDivisionError"
proof -
  let ?fl = "cap_flags (sectors p) (cap_face_type p) (edge_loop_fac p)"
  have c: "cartesian p = Inl ZeroDivisionError"
    using assms by (simp add: cartesian_def py_fdiv_def)
  show ?thesis
  proof (cases "ctrl_factors p ?fl")
    case (Inl e)
    with ctrl_factors_error [OF Inl] show ?thesis by (simp add: execute_def Let_def)
  next
    case (Inr fc)
    with c show ?thesis by (simp add: execute_def Let_def)
  qed
qed

lemma strip_loop_rings:
  "set (concat (map (strip_writes fl tx su) (py_range 0 m))) \<union>
   (if use_edge_loops fl
    then set (concat (map (ctrl_strip_writes fl fc tx su) (py_range 0 m))) else {}) =
   set (ring_ws m (strip_rings fl fc tx su))"
proof -
  have a: "strip_writes fl tx su =
      (\<lambda>i. map (\<lambda>r. (fst r + i, snd r i))
         [(vt_idx_btm_strip tx, \<lambda>j. (of_int j * su, vts_min_y fl)),
          (vt_idx_top_strip tx, \<lambda>j. (of_int j * su, vts_max_y))])"
    by (rule ext) (simp add: strip_writes_def Let_def)
  have b: "ctrl_strip_writes fl fc tx su =
      (\<lambda>i. map (\<lambda>r. (fst r + i, snd r i))
         [(vt_idx_side_lwr_ctrl tx,
               \<lambda>j. (of_int j * su,
                     u_btm fc * vts_min_y fl + t_btm fc * ((vts_min_y fl + vts_max_y) * 0.5))),
            (vt_idx_mid_strip tx, \<lambda>j. (of_int j * su, (vts_min_y fl + vts_max_y) * 0.5)),
            (vt_idx_side_upp_ctrl tx,
               \<lambda>j. (of_int j * su,
                     u_top fc * vts_max_y + t_top fc * ((vts_min_y fl + vts_max_y) * 0.5)))])"
    by (rule ext) (simp add: ctrl_strip_writes_def Let_def)
  show ?thesis
    unfolding a b strip_rings_def ring_ws_def [symmetric] set_ring_ws_append
    by simp
qed

lemma uv_cap_loop_rings:
  "set (concat (map (rim_writes tx cs) (py_range 0 m))) \<union>
   (if use_edge_loops fl
    then set (concat (map (cap_uv_writes fc tx cs) (py_range 0 m))) else {}) =
   set (ring_ws m (uv_cap_rings (fl \<lparr> use_caps := True \<rparr>) fc tx cs))"
proof -
  have a: "rim_writes tx cs =
      (\<lambda>i. map (\<lambda>r. (fst r + i, snd r i))
         [(vt_idx_btm_edge tx,
               \<lambda>i. (fst vt_btm_center + fst (cs ! nat i) * vts_rad,
                     snd vt_btm_center + snd (cs ! nat i) * vts_rad)),
            (vt_idx_top_edge tx,
               \<lambda>i. (fst vt_top_center + fst (cs ! nat i) * vts_rad,
                     snd vt_top_center + snd (cs ! nat i) * vts_rad))])"
    by (rule ext) (simp add: rim_writes_def Let_def)
  have b: "cap_uv_writes fc tx cs =
      (\<lambda>i. map (\<lambda>r. (fst r + i, snd r i))
         [(vt_idx_btm_fan tx,
                     \<lambda>i. (fst vt_btm_center + fst (cs ! nat i) * (vts_rad * 0.5),
                           snd vt_btm_center + snd (cs ! nat i) * (vts_rad * 0.5))),
                  (vt_idx_btm_ctrl tx,
                     \<lambda>i. (fst vt_btm_center + fst (cs ! nat i) *
                             (u_fan_btm fc * vts_rad + t_fan_btm fc * (vts_rad * 0.5)),
                           snd vt_btm_center + snd (cs ! nat i) *
                             (u_fan_btm fc * vts_rad + t_fan_btm fc * (vts_rad * 0.5)))),
                  (vt_idx_top_ctrl tx,
                     \<lambda>i. (fst vt_top_center + fst (cs ! nat i) *
                             (u_fan_top fc * vts_rad + t_fan_top fc * (vts_rad * 0.5)),
                           snd vt_top_center + snd (cs ! nat i) *
                             (u_fan_top fc * vts_rad + t_fan_top fc * (vts_rad * 0.5)))),
                  (vt_idx_top_fan tx,
                     \<lambda>i. (fst vt_top_center + fst (cs ! nat i) * (vts_rad * 0.5),
                           snd vt_top_center + snd (cs ! nat i) * (vts_rad * 0.5)))])"
    by (rule ext) (simp add: cap_uv_writes_def Let_def)
  show ?thesis
    unfolding a b uv_cap_rings_def ring_ws_def [symmetric]
    by (simp add: set_ring_ws_append [symmetric])
qed

lemma set_vts_writes:
  "set (vts_writes n fl fc cs tx su) =
     set (uv_spoke_ws fl tx) \<union> set (ring_ws n (uv_cap_rings fl fc tx cs)) \<union>
     set (ring_ws (n + 1) (strip_rings fl fc tx su))"
proof -
  have s: "set (ring_ws (n + 1) (strip_rings fl fc tx su)) =
      set (concat (map (strip_writes fl tx su) (py_range 0 (n + 1)))) \<union>
      (if use_edge_loops fl
       then set (concat (map (ctrl_strip_writes fl fc tx su) (py_range 0 (n + 1)))) else {})"
    by (rule strip_loop_rings [symmetric])
  have c: "set (ring_ws n (uv_cap_rings fl fc tx cs)) =
      set (concat (map (rim_writes tx cs) (py_range 0 n))) \<union>
      (if use_edge_loops fl
       then set (concat (map (cap_uv_writes fc tx cs) (py_range 0 n))) else {})"
    if "use_caps fl"
    using uv_cap_loop_rings [of tx cs n fl fc] that by (simp add: uv_cap_rings_def)
  have c': "set (ring_ws n (uv_cap_rings fl fc tx cs)) = {}" if "\<not> use_caps fl"
    using that by (simp add: uv_cap_rings_def)
  show ?thesis
  proof (cases "use_caps fl")
    case True
    show ?thesis unfolding s c [OF True] vts_writes_def uv_spoke_ws_def
      using True by auto
  next
    case False
    show ?thesis unfolding s c' [OF False] vts_writes_def uv_spoke_ws_def
      using False by auto
  qed
qed

lemma uv_rings_nonneg:
  assumes "0 \<le> n"
  shows "r \<in> set (strip_rings fl fc (vt_offsets n fl) su) \<Longrightarrow> 0 \<le> fst r"
    and "r \<in> set (uv_cap_rings fl fc (vt_offsets n fl) cs) \<Longrightarrow> 0 \<le> fst r"
  using assms
  by (auto simp: strip_rings_def uv_cap_rings_def vt_offsets_def Let_def split: if_splits)

lemma uv_rings_inside:
  assumes "0 \<le> n"
  shows "r \<in> set (strip_rings fl fc (vt_offsets n fl) su) \<Longrightarrow>
           fst r + (n + 1) \<le> len_vts (vt_offsets n fl)"
    and "r \<in> set (uv_cap_rings fl fc (vt_offsets n fl) cs) \<Longrightarrow>
           fst r + n \<le> len_vts (vt_offsets n fl)"
  using assms
  by (auto simp: strip_rings_def uv_cap_rings_def vt_offsets_def vt_len_def Let_def
      split: if_splits)

lemma strip_rings_disjoint:
  assumes "0 \<le> j" "j < n + 1"
    and "r \<in> set (strip_rings fl fc (vt_offsets n fl) su)"
  shows "r' \<in> set (strip_rings fl fc (vt_offsets n fl) su) \<Longrightarrow>
           r' = r \<or> \<not> in_ring (n + 1) (fst r') (fst r + j)"
    and "r' \<in> set (uv_cap_rings fl fc (vt_offsets n fl) cs) \<Longrightarrow>
           \<not> in_ring n (fst r') (fst r + j)"
    and "w \<in> set (uv_spoke_ws fl (vt_offsets n fl)) \<Longrightarrow> 0 \<le> fst w \<and> fst w \<noteq> fst r + j"
  using assms
  by (auto simp: strip_rings_def uv_cap_rings_def uv_spoke_ws_def vt_offsets_def vt_len_def
      in_ring_def Let_def split: if_splits)

lemma uv_cap_rings_disjoint:
  assumes "0 \<le> i" "i < n"
    and "r \<in> set (uv_cap_rings fl fc (vt_offsets n fl) cs)"
  shows "r' \<in> set (uv_cap_rings fl fc (vt_offsets n fl) cs) \<Longrightarrow>
           r' = r \<or> \<not> in_ring n (fst r') (fst r + i)"
    and "r' \<in> set (strip_rings fl fc (vt_offsets n fl) su) \<Longrightarrow>
           \<not> in_ring (n + 1) (fst r') (fst r + i)"
    and "w \<in> set (uv_spoke_ws fl (vt_offsets n fl)) \<Longrightarrow> 0 \<le> fst w \<and> fst w \<noteq> fst r + i"
  using assms
  by (auto simp: strip_rings_def uv_cap_rings_def uv_spoke_ws_def vt_offsets_def vt_len_def
      in_ring_def Let_def split: if_splits)

lemma final_vts_strip:
  assumes j: "0 \<le> j" "j < sectors p + 1"
    and r: "(b, f) \<in> set (strip_rings (flags_of p) (factors_of p (flags_of p))
                            (vt_offsets (sectors p) (flags_of p)) (1 / of_int (sectors p)))"
  shows "final_vts p ! nat (b + j) = f j"
proof -
  let ?fl = "flags_of p"
  let ?tx = "vt_offsets (sectors p) ?fl"
  let ?fc = "factors_of p ?fl"
  let ?su = "1 / real_of_int (sectors p)"
  have n0: "0 \<le> sectors p" using j by simp
  have ws: "set (vts_writes (sectors p) ?fl ?fc (cart_table p) ?tx ?su) =
     set (uv_spoke_ws ?fl ?tx) \<union> set (ring_ws (sectors p + 1) (strip_rings ?fl ?fc ?tx ?su)) \<union>
     set (ring_ws (sectors p) (uv_cap_rings ?fl ?fc ?tx (cart_table p)))"
    unfolding set_vts_writes by blast
  show ?thesis
    unfolding final_vts_def Let_def
  proof (rule rings_value [OF ws r j])
    show "0 \<le> b" using uv_rings_nonneg(1) [OF n0 r] by simp
    show "b + j < int (length (py_repeat (0::real, 0::real) (len_vts ?tx)))"
      using uv_rings_inside(1) [OF n0 r] j by simp
    show "0 \<le> fst w \<and> fst w \<noteq> b + j" if "w \<in> set (uv_spoke_ws ?fl ?tx)" for w
      using strip_rings_disjoint(3) [OF j r that] by simp
    show "0 \<le> fst r' \<and> (r' = (b, f) \<or> \<not> in_ring (sectors p + 1) (fst r') (b + j))"
      if "r' \<in> set (strip_rings ?fl ?fc ?tx ?su)" for r'
      using uv_rings_nonneg(1) [OF n0 that] strip_rings_disjoint(1) [OF j r that] by simp
    show "0 \<le> fst r' \<and> \<not> in_ring (sectors p) (fst r') (b + j)"
      if "r' \<in> set (uv_cap_rings ?fl ?fc ?tx (cart_table p))" for r'
      using uv_rings_nonneg(2) [OF n0 that] strip_rings_disjoint(2) [OF j r that] by simp
  qed
qed

lemma final_vts_cap_ring:
  assumes i: "0 \<le> i" "i < sectors p"
    and r: "(b, f) \<in> set (uv_cap_rings (flags_of p) (factors_of p (flags_of p))
                            (vt_offsets (sectors p) (flags_of p)) (cart_table p))"
  shows "final_vts p ! nat (b + i) = f i"
proof -
  let ?fl = "flags_of p"
  let ?tx = "vt_offsets (sectors p) ?fl"
  let ?fc = "factors_of p ?fl"
  let ?su = "1 / real_of_int (sectors p)"
  have n0: "0 \<le> sectors p" using i by simp
  show ?thesis
    unfolding final_vts_def Let_def
  proof (rule rings_value [OF set_vts_writes r i])
    show "0 \<le> b" using uv_rings_nonneg(2) [OF n0 r] by simp
    show "b + i < int (length (py_repeat (0::real, 0::real) (len_vts ?tx)))"
      using uv_rings_inside(2) [OF n0 r] i by simp
    show "0 \<le> fst w \<and> fst w \<noteq> b + i" if "w \<in> set (uv_spoke_ws ?fl ?tx)" for w
      using uv_cap_rings_disjoint(3) [OF i r that] by simp
    show "0 \<le> fst r' \<and> (r' = (b, f) \<or> \<not> in_ring (sectors p) (fst r') (b + i))"
      if "r' \<in> set (uv_cap_rings ?fl ?fc ?tx (cart_table p))" for r'
      using uv_rings_nonneg(2) [OF n0 that] uv_cap_rings_disjoint(1) [OF i r that] by simp
    show "0 \<le> fst r' \<and> \<not> in_ring (sectors p + 1) (fst r') (b + i)"
      if "r' \<in> set (strip_rings ?fl ?fc ?tx ?su)" for r'
      using uv_rings_nonneg(1) [OF n0 that] uv_cap_rings_disjoint(2) [OF i r that] by simp
  qed
qed

lemma execute_returns:
  assumes n: "1 \<le> sectors p"
    and pos: "0 < radius_btm p" "0 < radius_top p" "0 < depth p"
    and ex: "execute p = Inr m"
  shows "flags_ok (flags_of p)"
    and "m = \<lparr> vs = final_vs p, v_idcs = final_v_idcs p,
              uvs = (if calc_uvs p then Some (final_vts p, final_vt_idcs p) else None) \<rparr>"
proof -
  have ok: "cap_face_type p = TRI \<longrightarrow>
      sectors p < 4 \<or> (5 \<le> sectors p \<and> sectors p mod 2 = 0)"
  proof (rule ccontr)
    assume "\<not> ?thesis"
    then have "cap_face_type p = TRI" "4 \<le> sectors p"
      "sectors p < 5 \<or> sectors p mod 2 \<noteq> 0"
      by auto
    from execute_tri_defect [OF this pos] ex show False by simp
  qed
  show fl: "flags_ok (flags_of p)" by (rule flags_of_ok [OF ok])
  from execute_ok [OF n pos fl] ex
  show "m = \<lparr> vs = final_vs p, v_idcs = final_v_idcs p,
              uvs = (if calc_uvs p then Some (final_vts p, final_vt_idcs p) else None) \<rparr>"
    by simp
qed

lemma tri_fan_loop_rings:
  "concat (map (tri_fan_writes n lx bs bf ts tf) (py_range 0 m)) =
     ring_ws m (tri_fan_rings n lx bs bf ts tf)"
proof -
  have "tri_fan_writes n lx bs bf ts tf =
      (\<lambda>i. map (\<lambda>r. (fst r + i, snd r i)) (tri_fan_rings n lx bs bf ts tf))"
    by (rule ext) (simp add: tri_fan_writes_def tri_fan_rings_def Let_def)
  then show ?thesis by (simp only: ring_ws_def)
qed

lemma quad_fan_loop_rings:
  "concat (map (quad_fan_writes n lx bs bf ts tf) (py_range 0 m)) =
     ring_ws m (quad_fan_rings n lx bs bf ts tf)"
proof -
  have "quad_fan_writes n lx bs bf ts tf =
      (\<lambda>i. map (\<lambda>r. (fst r + i, snd r i)) (quad_fan_rings n lx bs bf ts tf))"
    by (rule ext) (simp add: quad_fan_writes_def quad_fan_rings_def Let_def)
  then show ?thesis by (simp only: ring_ws_def)
qed

lemma fan_writes_outside:
  assumes "1 \<le> n" and "flags_ok fl"
    and "w \<in> set (fan_writes n fl (loop_offsets n fl) bs bf ts tf)"
  shows "0 \<le> fst w \<and>
         (fst w < loop_idx_btm_mid (loop_offsets n fl) \<or>
          loop_idx_top_fan (loop_offsets n fl) \<le> fst w)"
  using assms
  by (auto simp: fan_writes_def flags_ok_def set_concat_range tri_fan_writes_def
      quad_fan_writes_def ngon_writes_def loop_offsets_def cap_loops_def Let_def
      split: if_splits)

lemma fan_strip_side:
  assumes n: "1 \<le> n" and fl: "flags_ok fl" and el: "\<not> use_edge_loops fl"
    and i: "0 \<le> i" "i < n"
  shows "fan_strip_buffer n fl bs bf ts tf g !
           nat (loop_idx_side_lwr_ctrl (loop_offsets n fl) + i) = g i"
proof -
  let ?lx = "loop_offsets n fl"
  have c: "0 \<le> cap_loops n fl" using n by (simp add: cap_loops_def)
  have lx: "loop_idx_btm_mid ?lx = loop_idx_side_lwr_ctrl ?lx"
    "loop_idx_top_fan ?lx = loop_idx_side_lwr_ctrl ?lx + n"
    "len_loop_idcs ?lx = loop_idx_side_lwr_ctrl ?lx + n + cap_loops n fl"
    "0 \<le> loop_idx_side_lwr_ctrl ?lx"
    using el c by (simp_all add: loop_offsets_def Let_def)
  show ?thesis
    unfolding fan_strip_buffer_def
  proof (rule rings_value [where sp = "fan_writes n fl ?lx bs bf ts tf" and n' = 0
        and rings' = "[]", OF _ _ i])
    show "set (fan_writes n fl ?lx bs bf ts tf @
               ring_ws n [(loop_idx_side_lwr_ctrl ?lx, g)]) =
          set (fan_writes n fl ?lx bs bf ts tf) \<union>
          set (ring_ws n [(loop_idx_side_lwr_ctrl ?lx, g)]) \<union> set (ring_ws 0 [])"
      by simp
    show "(loop_idx_side_lwr_ctrl ?lx, g) \<in> set [(loop_idx_side_lwr_ctrl ?lx, g)]" by simp
    show "0 \<le> loop_idx_side_lwr_ctrl ?lx" by (rule lx(4))
    show "loop_idx_side_lwr_ctrl ?lx + i
          < int (length (py_repeat [0::int, 0, 0, 0] (len_loop_idcs ?lx)))"
      using lx c i by simp
    show "0 \<le> fst w \<and> fst w \<noteq> loop_idx_side_lwr_ctrl ?lx + i"
      if "w \<in> set (fan_writes n fl ?lx bs bf ts tf)" for w
      using fan_writes_outside [OF n fl that] lx i by auto
    show "0 \<le> fst r \<and> (r = (loop_idx_side_lwr_ctrl ?lx, g) \<or>
            \<not> in_ring n (fst r) (loop_idx_side_lwr_ctrl ?lx + i))"
      if "r \<in> set [(loop_idx_side_lwr_ctrl ?lx, g)]" for r
      using that lx(4) by auto
  qed simp
qed

lemma fan_strip_rings:
  assumes n: "1 \<le> n" and fl: "flags_ok fl" and el: "\<not> use_edge_loops fl"
    and fan: "set (fan_writes n fl (loop_offsets n fl) bs bf ts tf) = set (ring_ws k rings)"
    and k: "k = cap_loops n fl"
    and bases: "\<And>r. r \<in> set rings \<Longrightarrow>
                  fst r = loop_idx_btm_fan (loop_offsets n fl) \<or>
                  fst r = loop_idx_top_fan (loop_offsets n fl)"
    and dist: "\<And>r r'. r \<in> set rings \<Longrightarrow> r' \<in> set rings \<Longrightarrow> fst r = fst r' \<Longrightarrow> r = r'"
    and r: "(b, f) \<in> set rings" and i: "0 \<le> i" "i < k"
  shows "fan_strip_buffer n fl bs bf ts tf g ! nat (b + i) = f i"
proof -
  let ?lx = "loop_offsets n fl"
  have c: "0 \<le> cap_loops n fl" using n by (simp add: cap_loops_def)
  have lx: "loop_idx_btm_fan ?lx = 0"
    "loop_idx_side_lwr_ctrl ?lx = cap_loops n fl"
    "loop_idx_top_fan ?lx = cap_loops n fl + n"
    "len_loop_idcs ?lx = cap_loops n fl + n + cap_loops n fl"
    using el by (simp_all add: loop_offsets_def Let_def)
  have b: "b = 0 \<or> b = k + n" using bases [OF r] by (simp add: lx k)
  show ?thesis
    unfolding fan_strip_buffer_def
  proof (rule rings_value [where sp = "[]" and n = k and rings = rings and n' = n
        and rings' = "[(loop_idx_side_lwr_ctrl ?lx, g)]", OF _ r i])
    show "set (fan_writes n fl ?lx bs bf ts tf @
               ring_ws n [(loop_idx_side_lwr_ctrl ?lx, g)]) =
          set [] \<union> set (ring_ws k rings) \<union>
          set (ring_ws n [(loop_idx_side_lwr_ctrl ?lx, g)])"
      by (simp add: fan)
    show "0 \<le> b" using b i n by auto
    show "b + i < int (length (py_repeat [0::int, 0, 0, 0] (len_loop_idcs ?lx)))"
      using b i n c by (auto simp: lx k)
    show "0 \<le> fst r' \<and> (r' = (b, f) \<or> \<not> in_ring k (fst r') (b + i))"
      if "r' \<in> set rings" for r'
    proof -
      from bases [OF that] have b': "fst r' = 0 \<or> fst r' = k + n" by (simp add: lx k)
      show ?thesis
      proof (cases "fst r' = b")
        case True
        with dist [OF that r] have "r' = (b, f)" by simp
        with b i n show ?thesis by auto
      next
        case False
        with b b' i n show ?thesis by (auto simp: in_ring_def)
      qed
    qed
    show "0 \<le> fst r' \<and> \<not> in_ring n (fst r') (b + i)"
      if "r' \<in> set [(loop_idx_side_lwr_ctrl ?lx, g)]" for r'
      using that b i n c by (auto simp: lx k in_ring_def)
  qed simp
qed

lemma fan_strip_tri:
  assumes n: "1 \<le> n" and fl: "flags_ok fl" and el: "\<not> use_edge_loops fl"
    and tri: "cap_is_tri fl" and i: "0 \<le> i" "i < n"
  shows "fan_strip_buffer n fl bs bf ts tf g ! nat (loop_idx_btm_fan (loop_offsets n fl) + i) =
           [bs, bf + (i + 1) mod n, bf + i]"
    and "fan_strip_buffer n fl bs bf ts tf g ! nat (loop_idx_top_fan (loop_offsets n fl) + i) =
           [ts, tf + i, tf + (i + 1) mod n]"
proof -
  let ?lx = "loop_offsets n fl"
  let ?R = "tri_fan_rings n ?lx bs bf ts tf"
  have k: "n = cap_loops n fl" using tri fl by (auto simp: cap_loops_def flags_ok_def)
  have fan: "set (fan_writes n fl ?lx bs bf ts tf) = set (ring_ws n ?R)"
    using tri by (simp add: fan_writes_def tri_fan_loop_rings)
  have "0 \<le> cap_loops n fl" using n by (simp add: cap_loops_def)
  then have ne: "loop_idx_btm_fan ?lx \<noteq> loop_idx_top_fan ?lx"
    using n el by (simp add: loop_offsets_def Let_def)
  have bases: "fst r = loop_idx_btm_fan ?lx \<or> fst r = loop_idx_top_fan ?lx"
    if "r \<in> set ?R" for r
    using that by (auto simp: tri_fan_rings_def)
  have dist: "r = r'" if "r \<in> set ?R" "r' \<in> set ?R" "fst r = fst r'" for r r'
    using that ne by (auto simp: tri_fan_rings_def)
  note v = fan_strip_rings [OF n fl el fan k bases dist _ i]
  show "fan_strip_buffer n fl bs bf ts tf g ! nat (loop_idx_btm_fan ?lx + i) =
           [bs, bf + (i + 1) mod n, bf + i]"
    by (rule v [where f = "\<lambda>i. [bs, bf + (i + 1) mod n, bf + i]"])
      (simp_all add: tri_fan_rings_def)
  show "fan_strip_buffer n fl bs bf ts tf g ! nat (loop_idx_top_fan ?lx + i) =
           [ts, tf + i, tf + (i + 1) mod n]"
    by (rule v [where f = "\<lambda>i. [ts, tf + i, tf + (i + 1) mod n]"])
      (simp_all add: tri_fan_rings_def)
qed

lemma fan_strip_quad:
  assumes n: "1 \<le> n" and fl: "flags_ok fl" and el: "\<not> use_edge_loops fl"
    and quad: "cap_is_quad fl" and h: "0 \<le> h" "h < n div 2"
  shows "fan_strip_buffer n fl bs bf ts tf g ! nat (loop_idx_btm_fan (loop_offsets n fl) + h) =
           [bs, bf + (h + h + 2) mod n, bf + (h + h + 1) mod n, bf + (h + h)]"
    and "fan_strip_buffer n fl bs bf ts tf g ! nat (loop_idx_top_fan (loop_offsets n fl) + h) =
           [ts, tf + (h + h), tf + (h + h + 1) mod n, tf + (h + h + 2) mod n]"
proof -
  let ?lx = "loop_offsets n fl"
  let ?R = "quad_fan_rings n ?lx bs bf ts tf"
  have k: "n div 2 = cap_loops n fl"
    using quad fl by (auto simp: cap_loops_def flags_ok_def)
  have fan: "set (fan_writes n fl ?lx bs bf ts tf) = set (ring_ws (n div 2) ?R)"
    using quad fl by (auto simp: fan_writes_def quad_fan_loop_rings flags_ok_def)
  have "0 \<le> cap_loops n fl" using n by (simp add: cap_loops_def)
  then have ne: "loop_idx_btm_fan ?lx \<noteq> loop_idx_top_fan ?lx"
    using n el by (simp add: loop_offsets_def Let_def)
  have bases: "fst r = loop_idx_btm_fan ?lx \<or> fst r = loop_idx_top_fan ?lx"
    if "r \<in> set ?R" for r
    using that by (auto simp: quad_fan_rings_def)
  have dist: "r = r'" if "r \<in> set ?R" "r' \<in> set ?R" "fst r = fst r'" for r r'
    using that ne by (auto simp: quad_fan_rings_def)
  note v = fan_strip_rings [OF n fl el fan k bases dist _ h]
  show "fan_strip_buffer n fl bs bf ts tf g ! nat (loop_idx_btm_fan ?lx + h) =
           [bs, bf + (h + h + 2) mod n, bf + (h + h + 1) mod n, bf + (h + h)]"
    by (rule v [where f = "\<lambda>h. [bs, bf + (h + h + 2) mod n, bf + (h + h + 1) mod n,
                                 bf + (h + h)]"])
      (simp_all add: quad_fan_rings_def)
  show "fan_strip_buffer n fl bs bf ts tf g ! nat (loop_idx_top_fan ?lx + h) =
           [ts, tf + (h + h), tf + (h + h + 1) mod n, tf + (h + h + 2) mod n]"
    by (rule v [where f = "\<lambda>h. [ts, tf + (h + h), tf + (h + h + 1) mod n,
                                 tf + (h + h + 2) mod n]"])
      (simp_all add: quad_fan_rings_def)
qed

lemma fan_strip_ngon:
  assumes n: "1 \<le> n" and fl: "flags_ok fl" and el: "\<not> use_edge_loops fl"
    and ngon: "cap_is_ngon fl"
  shows "fan_strip_buffer n fl bs bf ts tf g ! nat (loop_idx_btm_fan (loop_offsets n fl)) =
           map (\<lambda>i. bf + n - 1 - (i - 1) mod n) (py_range 0 n)"
    and "fan_strip_buffer n fl bs bf ts tf g ! nat (loop_idx_top_fan (loop_offsets n fl)) =
           map (\<lambda>i. tf + i) (py_range 0 n)"
proof -
  let ?lx = "loop_offsets n fl"
  have flg: "\<not> cap_is_tri fl" "\<not> cap_is_quad fl"
    using ngon fl by (auto simp: flags_ok_def)
  have lx: "loop_idx_btm_fan ?lx = 0" "loop_idx_side_lwr_ctrl ?lx = 1"
    "loop_idx_top_fan ?lx = 1 + n" "len_loop_idcs ?lx = 2 + n"
    using el ngon by (simp_all add: loop_offsets_def cap_loops_def Let_def)
  have fw: "fan_writes n fl ?lx bs bf ts tf =
      [(0, map (\<lambda>i. bf + n - 1 - (i - 1) mod n) (py_range 0 n)),
       (1 + n, map (\<lambda>i. tf + i) (py_range 0 n))]"
    using ngon flg by (simp add: fan_writes_def ngon_writes_def lx Let_def)
  have ws: "set (fan_writes n fl ?lx bs bf ts tf @ ring_ws n [(loop_idx_side_lwr_ctrl ?lx, g)]) =
      set (fan_writes n fl ?lx bs bf ts tf) \<union>
      set (ring_ws n [(loop_idx_side_lwr_ctrl ?lx, g)]) \<union> set (ring_ws 0 [])"
    by simp
  show "fan_strip_buffer n fl bs bf ts tf g ! nat (loop_idx_btm_fan ?lx) =
           map (\<lambda>i. bf + n - 1 - (i - 1) mod n) (py_range 0 n)"
    unfolding fan_strip_buffer_def
  proof (rule rings_single [OF ws])
    show "(loop_idx_btm_fan ?lx, map (\<lambda>i. bf + n - 1 - (i - 1) mod n) (py_range 0 n))
          \<in> set (fan_writes n fl ?lx bs bf ts tf)"
      by (simp add: fw lx)
    show "0 \<le> loop_idx_btm_fan ?lx" by (simp add: lx)
    show "loop_idx_btm_fan ?lx < int (length (py_repeat [0::int, 0, 0, 0] (len_loop_idcs ?lx)))"
      using n by (simp add: lx)
    show "0 \<le> fst w \<and> (fst w = loop_idx_btm_fan ?lx \<longrightarrow>
            snd w = map (\<lambda>i. bf + n - 1 - (i - 1) mod n) (py_range 0 n))"
      if "w \<in> set (fan_writes n fl ?lx bs bf ts tf)" for w
      using that n by (auto simp: fw lx)
    show "0 \<le> fst r \<and> \<not> in_ring n (fst r) (loop_idx_btm_fan ?lx)"
      if "r \<in> set [(loop_idx_side_lwr_ctrl ?lx, g)]" for r
      using that by (auto simp: lx in_ring_def)
  qed simp
  show "fan_strip_buffer n fl bs bf ts tf g ! nat (loop_idx_top_fan ?lx) =
           map (\<lambda>i. tf + i) (py_range 0 n)"
    unfolding fan_strip_buffer_def
  proof (rule rings_single [OF ws])
    show "(loop_idx_top_fan ?lx, map (\<lambda>i. tf + i) (py_range 0 n))
          \<in> set (fan_writes n fl ?lx bs bf ts tf)"
      by (simp add: fw lx)
    show "0 \<le> loop_idx_top_fan ?lx" using n by (simp add: lx)
    show "loop_idx_top_fan ?lx < int (length (py_repeat [0::int, 0, 0, 0] (len_loop_idcs ?lx)))"
      using n by (simp add: lx)
    show "0 \<le> fst w \<and> (fst w = loop_idx_top_fan ?lx \<longrightarrow>
            snd w = map (\<lambda>i. tf + i) (py_range 0 n))"
      if "w \<in> set (fan_writes n fl ?lx bs bf ts tf)" for w
      using that n by (auto simp: fw lx)
    show "0 \<le> fst r \<and> \<not> in_ring n (fst r) (loop_idx_top_fan ?lx)"
      if "r \<in> set [(loop_idx_side_lwr_ctrl ?lx, g)]" for r
      using that n by (auto simp: lx in_ring_def)
  qed simp
qed

lemma uv_side_strip_loop_rings:
  "concat (map (uv_side_strip_writes lx tx) (py_range 0 m)) =
     ring_ws m [(loop_idx_side_lwr_ctrl lx, uv_side_face tx)]"
proof -
  have "uv_side_strip_writes lx tx =
      (\<lambda>i. map (\<lambda>r. (fst r + i, snd r i)) [(loop_idx_side_lwr_ctrl lx, uv_side_face tx)])"
    by (rule ext) (simp add: uv_side_strip_writes_def uv_side_face_def Let_def)
  then show ?thesis by (simp only: ring_ws_def)
qed

lemma final_v_idcs_no_loops:
  assumes "\<not> use_edge_loops (flags_of p)"
  shows "final_v_idcs p =
     fan_strip_buffer (sectors p) (flags_of p)
       (v_idx_btm_spoke (v_offsets (sectors p) (flags_of p)))
       (v_idx_btm_fan (v_offsets (sectors p) (flags_of p)))
       (v_idx_top_spoke (v_offsets (sectors p) (flags_of p)))
       (v_idx_top_fan (v_offsets (sectors p) (flags_of p)))
       (side_face (sectors p) (v_offsets (sectors p) (flags_of p)))"
proof -
  have "side_face n ix =
      (\<lambda>i. [v_idx_btm_edge ix + i, v_idx_btm_edge ix + (i + 1) mod n,
            v_idx_top_edge ix + (i + 1) mod n, v_idx_top_edge ix + i])" for n ix
    by (rule ext) (simp add: side_face_def)
  then have "side_strip_rings n lx ix = [(loop_idx_side_lwr_ctrl lx, side_face n ix)]"
    for n lx ix
    by (simp add: side_strip_rings_def)
  then show ?thesis
    using assms
    by (simp add: final_v_idcs_def fan_strip_buffer_def v_idcs_writes_def
        side_strip_loop_rings Let_def)
qed

lemma final_vt_idcs_no_loops:
  assumes "\<not> use_edge_loops (flags_of p)"
  shows "final_vt_idcs p =
     fan_strip_buffer (sectors p) (flags_of p)
       (vt_idx_btm_spoke (vt_offsets (sectors p) (flags_of p)))
       (vt_idx_btm_fan (vt_offsets (sectors p) (flags_of p)))
       (vt_idx_top_spoke (vt_offsets (sectors p) (flags_of p)))
       (vt_idx_top_fan (vt_offsets (sectors p) (flags_of p)))
       (uv_side_face (vt_offsets (sectors p) (flags_of p)))"
  using assms
  by (simp add: final_vt_idcs_def fan_strip_buffer_def vt_idcs_writes_def
      uv_side_strip_loop_rings Let_def)

lemma execute_returns_iff:
  assumes n: "1 \<le> sectors p"
    and pos: "0 < radius_btm p" "0 < radius_top p" "0 < depth p"
  shows "(\<exists>m. execute p = Inr m) \<longleftrightarrow>
      (cap_face_type p = TRI \<longrightarrow> sectors p < 4 \<or> (5 \<le> sectors p \<and> sectors p mod 2 = 0))"
proof
  assume "\<exists>m. execute p = Inr m"
  then obtain m where m: "execute p = Inr m" ..
  show "cap_face_type p = TRI \<longrightarrow> sectors p < 4 \<or> (5 \<le> sectors p \<and> sectors p mod 2 = 0)"
  proof (rule ccontr)
    assume "\<not> ?thesis"
    then have "cap_face_type p = TRI" "4 \<le> sectors p"
      "sectors p < 5 \<or> sectors p mod 2 \<noteq> 0"
      by auto
    from execute_tri_defect [OF this pos] m show False by simp
  qed
next
  assume "cap_face_type p = TRI \<longrightarrow>
    sectors p < 4 \<or> (5 \<le> sectors p \<and> sectors p mod 2 = 0)"
  from execute_ok [OF n pos flags_of_ok [OF this]]
  show "\<exists>m. execute p = Inr m" by blast
qed

section \<open>The claims\<close>

text \<open>
  C1. The claim is that for every valid parameter set and any cap style every assignment
  lands inside its buffer. With the defaults, seven sectors and triangle caps the
  parameters are valid, and the face buffer has 9 entries; the second triangle of the top
  cap is assigned at index \<open>loop_idx_top_fan + 1 = 9\<close>, and the call ends with
  \<^verbatim>\<open>IndexError\<close>.
\<close>

theorem tri_cap_seven_sectors_index_error:
  "declared_bounds tri7 \<and>
   len_loop_idcs (loop_offsets 7 (cap_flags 7 TRI 0)) = 9 \<and>
   loop_idx_top_fan (loop_offsets 7 (cap_flags 7 TRI 0)) + 1 = 9 \<and>
   execute tri7 = Inl IndexError"
proof -
  have fl: "cap_flags 7 TRI 0 =
      \<lparr> cap_is_none = False, cap_is_ngon = True, cap_is_quad = False, cap_is_tri = True,
        use_center_spoke = True, use_caps = True, use_edge_loops = False \<rparr>"
    by (simp add: cap_flags_def Let_def)
  have "execute tri7 = Inl IndexError"
    by (rule execute_tri_defect) (simp_all add: tri7_def default_params_def)
  moreover have "declared_bounds tri7"
    by (simp add: declared_bounds_def tri7_def default_params_def)
  ultimately show ?thesis
    by (simp add: fl loop_offsets_def cap_loops_def Let_def)
qed

text \<open>
  C2. The claim is that triangle caps with an odd number of sectors, five or more, stay
  triangle caps of \<open>sectors\<close> faces each. The test of lines 152 to 155 does not look at
  the requested style: with triangle caps and odd sectors it sets the n-gon flag too, both
  flags stand, one face per cap is reserved, and the triangle loop runs out of the face
  buffer: the call ends with \<^verbatim>\<open>IndexError\<close>.
\<close>

theorem tri_cap_odd_sectors_index_error:
  assumes "cap_face_type p = TRI" and "5 \<le> sectors p" and "sectors p mod 2 \<noteq> 0"
    and "0 < radius_btm p" and "0 < radius_top p" and "0 < depth p"
    and "fl = cap_flags (sectors p) (cap_face_type p) (edge_loop_fac p)"
  shows "cap_is_tri fl \<and> cap_is_ngon fl \<and> use_center_spoke fl \<and>
         cap_loops (sectors p) fl = 1 \<and> execute p = Inl IndexError"
proof -
  have n: "4 \<le> sectors p" and o: "sectors p < 5 \<or> sectors p mod 2 \<noteq> 0"
    using assms(2,3) by simp_all
  have "execute p = Inl IndexError"
    by (rule execute_tri_defect [OF assms(1) n o assms(4-6)])
  then show ?thesis
    unfolding assms(7) assms(1) by (simp add: cap_flags_tri_ngon [OF n o] cap_loops_def)
qed

theorem tri_cap_odd_sectors_index_error_witness:
  "cap_face_type tri5 = TRI \<and> 5 \<le> sectors tri5 \<and> sectors tri5 mod 2 \<noteq> 0 \<and>
   0 < radius_btm tri5 \<and> 0 < radius_top tri5 \<and> 0 < depth tri5 \<and>
   cap_is_tri (cap_flags 5 TRI 0) \<and> cap_is_ngon (cap_flags 5 TRI 0) \<and>
   use_center_spoke (cap_flags 5 TRI 0) \<and> cap_loops 5 (cap_flags 5 TRI 0) = 1 \<and>
   execute tri5 = Inl IndexError"
proof -
  have h: "cap_face_type tri5 = TRI" "5 \<le> sectors tri5" "sectors tri5 mod 2 \<noteq> 0"
    "0 < radius_btm tri5" "0 < radius_top tri5" "0 < depth tri5"
    by (simp_all add: tri5_def default_params_def)
  have e: "cap_flags 5 TRI 0 =
      cap_flags (sectors tri5) (cap_face_type tri5) (edge_loop_fac tri5)"
    by (simp add: tri5_def default_params_def)
  have s: "sectors tri5 = 5" by (simp add: tri5_def default_params_def)
  from tri_cap_odd_sectors_index_error [OF h e] h show ?thesis unfolding s by simp
qed

text \<open>
  C3. The claim is that every group advances the running offset by exactly its size, 0
  when it is disabled, so that the length of the vertex buffer is the sum of the sizes of
  the enabled groups. With edge loops and no caps the top control ring and the top fan are
  disabled, as their bottom counterparts are, and the bottom offsets do not advance; but
  lines 254 to 259 test \<^verbatim>\<open>use_edge_loops\<close> alone and advance by \<open>sectors\<close> twice. The
  buffer has \<open>7 * sectors\<close> cells where the groups fill \<open>5 * sectors\<close>: the last
  \<open>2 * sectors\<close> positions are never assigned and no face refers to them.
\<close>

theorem loops_without_caps_orphan_positions:
  assumes "cap_face_type p = NONE" and "0 < edge_loop_fac p" and "edge_loop_fac p < 1"
    and "3 \<le> sectors p" and "0 < radius_btm p" and "0 < radius_top p" and "0 < depth p"
    and "fl = cap_flags (sectors p) (cap_face_type p) (edge_loop_fac p)"
    and "ix = v_offsets (sectors p) fl"
  shows "\<not> use_caps fl \<and> use_edge_loops fl \<and>
         v_idx_btm_ctrl ix = v_idx_btm_fan ix \<and> v_idx_btm_edge ix = v_idx_btm_ctrl ix \<and>
         v_idx_top_fan ix = v_idx_top_ctrl ix + sectors p \<and>
         v_idx_top_spoke ix = v_idx_top_fan ix + sectors p \<and>
         spec_len_vs (sectors p) fl = 5 * sectors p \<and>
         len_vs ix = 7 * sectors p \<and>
         (\<exists>m. execute p = Inr m \<and> int (length (vs m)) = 7 * sectors p \<and>
              (\<forall>k. 5 * sectors p \<le> k \<and> k < 7 * sectors p \<longrightarrow> vs m ! nat k = (0, 0, 0)) \<and>
              (\<forall>f\<in>set (v_idcs m). \<forall>k\<in>set f. 0 \<le> k \<and> k < 5 * sectors p))"
proof -
  let ?n = "sectors p"
  have fl: "flags_of p =
     \<lparr> cap_is_none = True, cap_is_ngon = False, cap_is_quad = False, cap_is_tri = False,
       use_center_spoke = False, use_caps = False, use_edge_loops = True \<rparr>"
    unfolding flags_of_def assms(1) using assms(2,3) by (simp add: cap_flags_none)
  have fl': "fl = flags_of p" by (simp add: assms(8) flags_of_def)
  have ix: "v_offsets ?n (flags_of p) =
     \<lparr> v_idx_btm_spoke = 0, v_idx_btm_fan = 0, v_idx_btm_ctrl = 0, v_idx_btm_edge = 0,
       v_idx_side_lwr_ctrl = ?n, v_idx_mid = 2 * ?n, v_idx_side_upp_ctrl = 3 * ?n,
       v_idx_top_edge = 4 * ?n, v_idx_top_ctrl = 5 * ?n, v_idx_top_fan = 6 * ?n,
       v_idx_top_spoke = 7 * ?n, len_vs = 7 * ?n \<rparr>"
    by (simp add: fl v_offsets_def Let_def)
  have n1: "1 \<le> ?n" and n0: "0 < ?n" using assms(4) by simp_all
  have ok: "flags_ok (flags_of p)" by (simp add: fl flags_ok_def)
  have ex: "execute p = Inr \<lparr> vs = final_vs p, v_idcs = final_v_idcs p,
           uvs = (if calc_uvs p then Some (final_vts p, final_vt_idcs p) else None) \<rparr>"
    by (rule execute_ok [OF n1 assms(5-7) ok])
  have len: "int (length (final_vs p)) = 7 * ?n"
    using n1 by (simp add: length_final_vs ix)
  have orphan: "final_vs p ! nat k = (0, 0, 0)" if "5 * ?n \<le> k" "k < 7 * ?n" for k
  proof (rule final_vs_untouched [OF n1])
    show "0 \<le> k" using that n1 by linarith
    show "k < len_vs (v_offsets ?n (flags_of p))" using that by (simp add: ix)
    show "fst w \<noteq> k"
      if "w \<in> set (spoke_ws p (flags_of p) (v_offsets ?n (flags_of p)))" for w
      using that by (simp add: spoke_ws_def fl)
    show "\<not> in_ring ?n (fst r) k"
      if "r \<in> set (vs_rings p (flags_of p) (factors_of p (flags_of p)) (cart_table p)
                     (v_offsets ?n (flags_of p)))" for r
      using that \<open>5 * ?n \<le> k\<close> unfolding ix
      by (auto simp: vs_rings_def fl edge_rings_def side_rings_def in_ring_def)
  qed
  have faces: "\<forall>k\<in>set f. 0 \<le> k \<and> k < 5 * ?n" if "f \<in> set (final_v_idcs p)" for f
  proof (rule final_v_idcs_all [OF _ _ that])
    show "\<forall>k\<in>set [0, 0, 0, 0]. 0 \<le> k \<and> k < 5 * ?n" using n0 by simp
    fix w
    assume "w \<in> set (v_idcs_writes ?n (flags_of p) (v_offsets ?n (flags_of p))
                       (loop_offsets ?n (flags_of p)))"
    then obtain i where i: "0 \<le> i" "i < ?n"
      "w \<in> set (side_band_writes ?n (loop_offsets ?n (flags_of p))
                  (v_offsets ?n (flags_of p)) i)"
      by (auto simp: v_idcs_writes_def fan_writes_def fl set_concat_range)
    show "\<forall>k\<in>set (snd w). 0 \<le> k \<and> k < 5 * ?n"
    proof
      fix k assume "k \<in> set (snd w)"
      from side_band_valid [OF n0 i this] n0 show "0 \<le> k \<and> k < 5 * ?n"
        unfolding ix by (auto simp: in_ring_def)
    qed
  qed
  have spec: "spec_len_vs ?n (flags_of p) = 5 * ?n"
    by (simp add: spec_len_vs_def fl)
  let ?ix = "v_offsets ?n (flags_of p)"
  have c1: "\<not> use_caps (flags_of p) \<and> use_edge_loops (flags_of p)" by (simp add: fl)
  have c2: "v_idx_btm_ctrl ?ix = v_idx_btm_fan ?ix \<and> v_idx_btm_edge ?ix = v_idx_btm_ctrl ?ix \<and>
         v_idx_top_fan ?ix = v_idx_top_ctrl ?ix + ?n \<and>
         v_idx_top_spoke ?ix = v_idx_top_fan ?ix + ?n"
    by (simp add: ix)
  have c3: "len_vs ?ix = 7 * ?n" by (simp add: ix)
  have c4: "\<exists>m. execute p = Inr m \<and> int (length (vs m)) = 7 * ?n \<and>
              (\<forall>k. 5 * ?n \<le> k \<and> k < 7 * ?n \<longrightarrow> vs m ! nat k = (0, 0, 0)) \<and>
              (\<forall>f\<in>set (v_idcs m). \<forall>k\<in>set f. 0 \<le> k \<and> k < 5 * ?n)"
    unfolding ex using len orphan faces by simp
  show ?thesis
    unfolding assms(9) fl' using c1 c2 spec c3 c4 by blast
qed

theorem loops_without_caps_orphan_positions_witness:
  "cap_face_type loops_no_caps = NONE \<and> 0 < edge_loop_fac loops_no_caps \<and>
   edge_loop_fac loops_no_caps < 1 \<and> 3 \<le> sectors loops_no_caps \<and>
   0 < radius_btm loops_no_caps \<and> 0 < radius_top loops_no_caps \<and> 0 < depth loops_no_caps \<and>
   spec_len_vs 8 (cap_flags 8 NONE 0.5) = 40 \<and>
   len_vs (v_offsets 8 (cap_flags 8 NONE 0.5)) = 56 \<and>
   (\<exists>m. execute loops_no_caps = Inr m \<and> length (vs m) = 56 \<and>
        vs m ! 40 = (0, 0, 0) \<and> vs m ! 55 = (0, 0, 0))"
proof -
  have h: "cap_face_type loops_no_caps = NONE" "0 < edge_loop_fac loops_no_caps"
    "edge_loop_fac loops_no_caps < 1" "3 \<le> sectors loops_no_caps"
    "0 < radius_btm loops_no_caps" "0 < radius_top loops_no_caps" "0 < depth loops_no_caps"
    by (simp_all add: loops_no_caps_def default_params_def)
  have e: "cap_flags 8 NONE 0.5 =
      cap_flags (sectors loops_no_caps) (cap_face_type loops_no_caps)
        (edge_loop_fac loops_no_caps)"
    by (simp add: loops_no_caps_def default_params_def)
  have s: "sectors loops_no_caps = 8" by (simp add: loops_no_caps_def default_params_def)
  from loops_without_caps_orphan_positions [OF h e refl]
  obtain m where m: "execute loops_no_caps = Inr m" "int (length (vs m)) = 56"
    "\<forall>k. 40 \<le> k \<and> k < 56 \<longrightarrow> vs m ! nat k = (0, 0, 0)"
    and l: "spec_len_vs 8 (cap_flags 8 NONE 0.5) = 40"
      "len_vs (v_offsets 8 (cap_flags 8 NONE 0.5)) = 56"
    unfolding s by auto
  from m(3) [rule_format, of 40] m(3) [rule_format, of 55]
  have "vs m ! 40 = (0, 0, 0)" "vs m ! 55 = (0, 0, 0)" by simp_all
  moreover from m(2) have "length (vs m) = 56" by linarith
  ultimately show ?thesis using h l m(1) by blast
qed

text \<open>
  C4, as stated, fails: \<^verbatim>\<open>execute\<close> has no check of its parameters. With two sectors
  and the other defaults it is not rejected: it returns four positions and four faces.
\<close>

theorem two_sectors_not_rejected:
  "sectors two_sectors < 3 \<and>
   map_sum id (\<lambda>m. (length (vs m), v_idcs m)) (execute two_sectors) =
     Inr (4, [[0, 1], [0, 1, 3, 2], [1, 0, 2, 3], [2, 3]])"
proof -
  have s: "sectors two_sectors = 2" "cap_face_type two_sectors = QUAD"
    "edge_loop_fac two_sectors = 0" "radius_btm two_sectors = 0.5"
    "radius_top two_sectors = 0.5" "depth two_sectors = 1.5"
    by (simp_all add: two_sectors_def default_params_def)
  have fl: "flags_of two_sectors =
      \<lparr> cap_is_none = False, cap_is_ngon = True, cap_is_quad = False, cap_is_tri = False,
        use_center_spoke = False, use_caps = True, use_edge_loops = False \<rparr>"
    by (simp add: flags_of_def s cap_flags_def Let_def)
  have ok: "flags_ok (flags_of two_sectors)" by (simp add: fl flags_ok_def)
  have ex: "execute two_sectors =
      Inr \<lparr> vs = final_vs two_sectors, v_idcs = final_v_idcs two_sectors,
            uvs = (if calc_uvs two_sectors
                   then Some (final_vts two_sectors, final_vt_idcs two_sectors)
                   else None) \<rparr>"
    by (rule execute_ok [OF _ _ _ _ ok]) (simp_all add: s)
  have ix: "v_offsets 2 (flags_of two_sectors) =
      \<lparr> v_idx_btm_spoke = 0, v_idx_btm_fan = 0, v_idx_btm_ctrl = 0, v_idx_btm_edge = 0,
        v_idx_side_lwr_ctrl = 2, v_idx_mid = 2, v_idx_side_upp_ctrl = 2, v_idx_top_edge = 2,
        v_idx_top_ctrl = 2, v_idx_top_fan = 2, v_idx_top_spoke = 4, len_vs = 4 \<rparr>"
    by (simp add: fl v_offsets_def Let_def)
  have lx: "loop_offsets 2 (flags_of two_sectors) =
      \<lparr> loop_idx_btm_fan = 0, loop_idx_btm_mid = 1, loop_idx_btm_ctrl = 1,
        loop_idx_side_lwr_ctrl = 1, loop_idx_side_lwr = 1, loop_idx_side_upp = 1,
        loop_idx_side_upp_ctrl = 1, loop_idx_top_ctrl = 1, loop_idx_top_mid = 1,
        loop_idx_top_fan = 3, len_loop_idcs = 4 \<rparr>"
    by (simp add: fl loop_offsets_def cap_loops_def Let_def)
  have len: "length (final_vs two_sectors) = 4"
    by (simp add: length_final_vs s ix)
  have faces: "final_v_idcs two_sectors = [[0, 1], [0, 1, 3, 2], [1, 0, 2, 3], [2, 3]]"
    unfolding final_v_idcs_def Let_def s ix lx
    unfolding v_idcs_writes_def fan_writes_def fl
    by (simp add: py_range_def py_repeat_def upto_rec1 ngon_writes_def
        side_strip_writes_def Let_def numeral_eq_Suc)
  show ?thesis unfolding ex by (simp add: s len faces)
qed

text \<open>
  C4, amended. \<^verbatim>\<open>execute\<close> does not validate its parameters: the declared minimums of
  the properties (3 sectors, radii and depth of 0.001) keep invalid values out of it.
  Called with one or two sectors and positive radii and depth it returns a mesh. It ends
  before any vertex, face or UV buffer is created, with \<^verbatim>\<open>ZeroDivisionError\<close> and no
  mesh, when the depth is 0 and caps are requested, and when there are 0 sectors.
\<close>

theorem execute_without_validation:
  "(declared_bounds p \<longrightarrow>
      3 \<le> sectors p \<and> 0 < radius_btm p \<and> 0 < radius_top p \<and> 0 < depth p) \<and>
   ((sectors p = 1 \<or> sectors p = 2) \<and> 0 < radius_btm p \<and> 0 < radius_top p \<and> 0 < depth p \<longrightarrow>
      (\<exists>m. execute p = Inr m \<and>
            2 * sectors p \<le> int (length (vs m)) \<and>
            sectors p \<le> int (length (v_idcs m)))) \<and>
   (cap_face_type p \<noteq> NONE \<and> depth p = 0 \<longrightarrow>
      ctrl_factors p (cap_flags (sectors p) (cap_face_type p) (edge_loop_fac p)) =
        Inl ZeroDivisionError \<and>
      execute p = Inl ZeroDivisionError) \<and>
   (sectors p = 0 \<longrightarrow> cartesian p = Inl ZeroDivisionError \<and> execute p = Inl ZeroDivisionError)"
proof (intro conjI impI)
  assume "declared_bounds p"
  then show "3 \<le> sectors p" "0 < radius_btm p" "0 < radius_top p" "0 < depth p"
    by (simp_all add: declared_bounds_def)
next
  assume a: "(sectors p = 1 \<or> sectors p = 2) \<and> 0 < radius_btm p \<and> 0 < radius_top p \<and>
    0 < depth p"
  then have n: "1 \<le> sectors p" and small: "sectors p < 4" by auto
  have ok: "cap_face_type p = TRI \<longrightarrow>
      sectors p < 4 \<or> (5 \<le> sectors p \<and> sectors p mod 2 = 0)"
    using small by simp
  from execute_safe [OF n _ _ _ ok] a
  obtain m where m: "execute p = Inr m"
    "int (length (vs m)) = len_vs (v_offsets (sectors p) (flags_of p))"
    "int (length (v_idcs m)) = len_loop_idcs (loop_offsets (sectors p) (flags_of p))"
    by blast
  have cn: "use_caps (flags_of p) \<or> cap_is_none (flags_of p)"
    unfolding flags_of_def by (rule cap_flags_caps_or_none)
  have "2 * sectors p \<le> len_vs (v_offsets (sectors p) (flags_of p))"
    using n cn by (auto simp: v_offsets_def Let_def)
  moreover have "sectors p \<le> len_loop_idcs (loop_offsets (sectors p) (flags_of p))"
    using n by (simp add: loop_offsets_def cap_loops_def Let_def)
  ultimately show "\<exists>m. execute p = Inr m \<and> 2 * sectors p \<le> int (length (vs m)) \<and>
            sectors p \<le> int (length (v_idcs m))"
    using m by auto
next
  assume "cap_face_type p \<noteq> NONE \<and> depth p = 0"
  then show "ctrl_factors p (cap_flags (sectors p) (cap_face_type p) (edge_loop_fac p)) =
        Inl ZeroDivisionError"
    and "execute p = Inl ZeroDivisionError"
    using ctrl_factors_zero_depth cap_flags_use_caps execute_zero_depth by blast+
next
  assume "sectors p = 0"
  then show "cartesian p = Inl ZeroDivisionError" "execute p = Inl ZeroDivisionError"
    using execute_zero_sectors by (simp_all add: cartesian_def py_fdiv_def)
qed

theorem execute_without_validation_witness:
  "declared_bounds default_params \<and> 3 \<le> sectors default_params \<and>
   sectors two_sectors = 2 \<and> 0 < radius_btm two_sectors \<and> 0 < radius_top two_sectors \<and>
   0 < depth two_sectors \<and>
   (\<exists>m. execute two_sectors = Inr m \<and> 4 \<le> int (length (vs m)) \<and>
        2 \<le> int (length (v_idcs m))) \<and>
   cap_face_type zero_depth \<noteq> NONE \<and> depth zero_depth = 0 \<and>
   execute zero_depth = Inl ZeroDivisionError"
proof -
  have s: "sectors two_sectors = 2" "0 < radius_btm two_sectors" "0 < radius_top two_sectors"
    "0 < depth two_sectors"
    by (simp_all add: two_sectors_def default_params_def)
  have z: "cap_face_type zero_depth \<noteq> NONE" "depth zero_depth = 0"
    by (simp_all add: zero_depth_def default_params_def)
  have d: "declared_bounds default_params"
    by (simp add: declared_bounds_def)
  from execute_without_validation [of default_params] d
  have "3 \<le> sectors default_params" by blast
  moreover from execute_without_validation [of two_sectors] s
  have "\<exists>m. execute two_sectors = Inr m \<and> 4 \<le> int (length (vs m)) \<and>
        2 \<le> int (length (v_idcs m))"
    by simp
  moreover from execute_without_validation [of zero_depth] z
  have "execute zero_depth = Inl ZeroDivisionError" by blast
  ultimately show ?thesis using s z d by blast
qed

text \<open>
  C5. With 8 sectors, both radii 0.5, depth 1.5, no offset, quad caps, no edge loops and
  no UVs (the declared defaults), the call returns 18 positions, the two spokes at the
  indices 0 and 17 and the two rings of 8 between them, and 16 faces: the 4 quads of the
  bottom cap, the 8 side quads and the 4 quads of the top cap.
\<close>

theorem default_tube_counts:
  "\<exists>m. execute default_params = Inr m \<and>
       length (vs m) = 18 \<and> vs m ! 0 = (0, 0, - 0.75) \<and> vs m ! 17 = (0, 0, 0.75) \<and>
       uvs m = None \<and>
       v_idcs m =
         [[0, 3, 2, 1], [0, 5, 4, 3], [0, 7, 6, 5], [0, 1, 8, 7],
          [1, 2, 10, 9], [2, 3, 11, 10], [3, 4, 12, 11], [4, 5, 13, 12],
          [5, 6, 14, 13], [6, 7, 15, 14], [7, 8, 16, 15], [8, 1, 9, 16],
          [17, 9, 10, 11], [17, 11, 12, 13], [17, 13, 14, 15], [17, 15, 16, 9]]"
proof -
  have fl: "flags_of default_params =
      \<lparr> cap_is_none = False, cap_is_ngon = False, cap_is_quad = True, cap_is_tri = False,
        use_center_spoke = True, use_caps = True, use_edge_loops = False \<rparr>"
    by (simp add: flags_of_def cap_flags_def Let_def)
  have ok: "flags_ok (flags_of default_params)"
    by (simp add: fl flags_ok_def)
  have ex: "execute default_params =
      Inr \<lparr> vs = final_vs default_params, v_idcs = final_v_idcs default_params,
            uvs = (if calc_uvs default_params
                   then Some (final_vts default_params, final_vt_idcs default_params)
                   else None) \<rparr>"
    by (rule execute_ok [OF _ _ _ _ ok]) simp_all
  have ix: "v_offsets 8 (flags_of default_params) =
      \<lparr> v_idx_btm_spoke = 0, v_idx_btm_fan = 1, v_idx_btm_ctrl = 1, v_idx_btm_edge = 1,
        v_idx_side_lwr_ctrl = 9, v_idx_mid = 9, v_idx_side_upp_ctrl = 9, v_idx_top_edge = 9,
        v_idx_top_ctrl = 9, v_idx_top_fan = 9, v_idx_top_spoke = 17, len_vs = 18 \<rparr>"
    by (simp add: fl v_offsets_def Let_def)
  have lx: "loop_offsets 8 (flags_of default_params) =
      \<lparr> loop_idx_btm_fan = 0, loop_idx_btm_mid = 4, loop_idx_btm_ctrl = 4,
        loop_idx_side_lwr_ctrl = 4, loop_idx_side_lwr = 4, loop_idx_side_upp = 4,
        loop_idx_side_upp_ctrl = 4, loop_idx_top_ctrl = 4, loop_idx_top_mid = 4,
        loop_idx_top_fan = 12, len_loop_idcs = 16 \<rparr>"
    by (simp add: fl loop_offsets_def cap_loops_def Let_def)
  have len: "length (final_vs default_params) = 18"
    by (simp add: length_final_vs ix)
  have faces: "final_v_idcs default_params =
         [[0, 3, 2, 1], [0, 5, 4, 3], [0, 7, 6, 5], [0, 1, 8, 7],
          [1, 2, 10, 9], [2, 3, 11, 10], [3, 4, 12, 11], [4, 5, 13, 12],
          [5, 6, 14, 13], [6, 7, 15, 14], [7, 8, 16, 15], [8, 1, 9, 16],
          [17, 9, 10, 11], [17, 11, 12, 13], [17, 13, 14, 15], [17, 15, 16, 9]]"
    unfolding final_v_idcs_def Let_def default_params_simps ix lx
    unfolding v_idcs_writes_def fan_writes_def fl
    by (simp add: py_range_def py_repeat_def upto_rec1 quad_fan_writes_def
        side_strip_writes_def Let_def numeral_eq_Suc)
  have sp: "use_center_spoke (flags_of default_params)" by (simp add: fl)
  have z: "vz_btm default_params = - 0.75" "vz_top default_params = 0.75"
    by (simp_all add: vz_btm_def vz_top_def vz_mid_def Let_def)
  have "final_vs default_params ! nat 0 = (0, 0, - 0.75)"
    "final_vs default_params ! nat 17 = (0, 0, 0.75)"
    using final_vs_spokes [OF _ sp] by (simp_all add: ix z)
  then have spokes: "final_vs default_params ! 0 = (0, 0, - 0.75)"
    "final_vs default_params ! 17 = (0, 0, 0.75)"
    by simp_all
  show ?thesis
    unfolding ex by (simp add: len faces spokes)
qed

text \<open>
  C6. For every valid parameter set without caps the call returns, and the face buffer
  holds side quads only: with an edge loop factor of 0, or of 1 and more, the \<open>sectors\<close>
  quads of the strip from the bottom ring to the top ring; with a factor strictly
  between 0 and 1 the \<open>4 * sectors\<close> quads of the four bands over the five rings.
\<close>

theorem no_caps_side_quads_only:
  assumes "cap_face_type p = NONE" and "3 \<le> sectors p"
    and "0 < radius_btm p" and "0 < radius_top p" and "0 < depth p"
    and "n = sectors p"
  shows "\<exists>m. execute p = Inr m \<and>
     (if 0 < edge_loop_fac p \<and> edge_loop_fac p < 1
      then int (length (v_idcs m)) = 4 * n \<and>
           (\<forall>i. 0 \<le> i \<and> i < n \<longrightarrow>
              v_idcs m ! nat i =
                [i, (i + 1) mod n, n + (i + 1) mod n, n + i] \<and>
              v_idcs m ! nat (n + i) =
                [n + i, n + (i + 1) mod n, 2 * n + (i + 1) mod n, 2 * n + i] \<and>
              v_idcs m ! nat (2 * n + i) =
                [2 * n + i, 2 * n + (i + 1) mod n, 3 * n + (i + 1) mod n, 3 * n + i] \<and>
              v_idcs m ! nat (3 * n + i) =
                [3 * n + i, 3 * n + (i + 1) mod n, 4 * n + (i + 1) mod n, 4 * n + i])
      else int (length (v_idcs m)) = n \<and>
           (\<forall>i. 0 \<le> i \<and> i < n \<longrightarrow>
              v_idcs m ! nat i = [i, (i + 1) mod n, n + (i + 1) mod n, n + i]))"
proof -
  let ?el = "0 < edge_loop_fac p \<and> edge_loop_fac p < 1"
  let ?fl = "flags_of p"
  have fl: "?fl =
     \<lparr> cap_is_none = True, cap_is_ngon = False, cap_is_quad = False, cap_is_tri = False,
       use_center_spoke = False, use_caps = False, use_edge_loops = ?el \<rparr>"
    unfolding flags_of_def assms(1) by (simp add: cap_flags_none)
  have n1: "1 \<le> sectors p" and n0: "0 \<le> n" using assms(2,6) by simp_all
  have ok: "flags_ok ?fl" by (simp add: fl flags_ok_def)
  have ex: "execute p = Inr \<lparr> vs = final_vs p, v_idcs = final_v_idcs p,
           uvs = (if calc_uvs p then Some (final_vts p, final_vt_idcs p) else None) \<rparr>"
    by (rule execute_ok [OF n1 assms(3-5) ok])
  note fin = final_v_idcs_no_caps [OF assms(1), folded assms(6)]
  show ?thesis
  proof (cases ?el)
    case True
    have el: "use_edge_loops ?fl" using True by (simp add: fl)
    have ix: "v_offsets n ?fl =
       \<lparr> v_idx_btm_spoke = 0, v_idx_btm_fan = 0, v_idx_btm_ctrl = 0, v_idx_btm_edge = 0,
         v_idx_side_lwr_ctrl = n, v_idx_mid = 2 * n, v_idx_side_upp_ctrl = 3 * n,
         v_idx_top_edge = 4 * n, v_idx_top_ctrl = 5 * n, v_idx_top_fan = 6 * n,
         v_idx_top_spoke = 7 * n, len_vs = 7 * n \<rparr>"
      using True by (simp add: fl v_offsets_def Let_def)
    have lx: "loop_offsets n ?fl =
       \<lparr> loop_idx_btm_fan = 0, loop_idx_btm_mid = 0, loop_idx_btm_ctrl = 0,
         loop_idx_side_lwr_ctrl = 0, loop_idx_side_lwr = n, loop_idx_side_upp = 2 * n,
         loop_idx_side_upp_ctrl = 3 * n, loop_idx_top_ctrl = 3 * n, loop_idx_top_mid = 3 * n,
         loop_idx_top_fan = 4 * n, len_loop_idcs = 4 * n \<rparr>"
      using True by (simp add: fl loop_offsets_def cap_loops_def Let_def)
    have F: "final_v_idcs p =
        upd_all (ring_ws n (side_band_rings n (loop_offsets n ?fl) (v_offsets n ?fl)))
          (py_repeat [0, 0, 0, 0] (4 * n))"
      using fin el by (simp add: lx)
    have len: "int (length (final_v_idcs p)) = 4 * n" using n0 unfolding F by simp
    have val: "final_v_idcs p ! nat (b + i) = f i"
      if "(b, f) \<in> set (side_band_rings n (loop_offsets n ?fl) (v_offsets n ?fl))"
        and "0 \<le> i" "i < n" for b f i
      unfolding F
    proof (rule ring_ws_only_value [OF that])
      from that(1) show "0 \<le> b" using n0 by (auto simp: side_band_rings_def lx)
      from that show "b + i < int (length (py_repeat [0::int, 0, 0, 0] (4 * n)))"
        by (auto simp: side_band_rings_def lx)
      fix r assume "r \<in> set (side_band_rings n (loop_offsets n ?fl) (v_offsets n ?fl))"
      with that show "0 \<le> fst r \<and> (r = (b, f) \<or> \<not> in_ring n (fst r) (b + i))"
        by (auto simp: side_band_rings_def lx in_ring_def)
    qed
    let ?R = "side_band_rings n (loop_offsets n ?fl) (v_offsets n ?fl)"
    have mem: "(0, \<lambda>i. [i, (i + 1) mod n, n + (i + 1) mod n, n + i]) \<in> set ?R"
      "(n, \<lambda>i. [n + i, n + (i + 1) mod n, 2 * n + (i + 1) mod n, 2 * n + i]) \<in> set ?R"
      "(2 * n, \<lambda>i. [2 * n + i, 2 * n + (i + 1) mod n, 3 * n + (i + 1) mod n, 3 * n + i])
         \<in> set ?R"
      "(3 * n, \<lambda>i. [3 * n + i, 3 * n + (i + 1) mod n, 4 * n + (i + 1) mod n, 4 * n + i])
         \<in> set ?R"
      by (simp_all add: side_band_rings_def lx ix)
    have quads: "final_v_idcs p ! nat i =
                [i, (i + 1) mod n, n + (i + 1) mod n, n + i] \<and>
              final_v_idcs p ! nat (n + i) =
                [n + i, n + (i + 1) mod n, 2 * n + (i + 1) mod n, 2 * n + i] \<and>
              final_v_idcs p ! nat (2 * n + i) =
                [2 * n + i, 2 * n + (i + 1) mod n, 3 * n + (i + 1) mod n, 3 * n + i] \<and>
              final_v_idcs p ! nat (3 * n + i) =
                [3 * n + i, 3 * n + (i + 1) mod n, 4 * n + (i + 1) mod n, 4 * n + i]"
      if i: "0 \<le> i" "i < n" for i
      using val [OF mem(1) i] val [OF mem(2) i] val [OF mem(3) i] val [OF mem(4) i]
      by simp
    show ?thesis unfolding ex using True len quads by simp
  next
    case False
    have el: "\<not> use_edge_loops ?fl" using False by (simp add: fl)
    have ix: "v_idx_btm_edge (v_offsets n ?fl) = 0" "v_idx_top_edge (v_offsets n ?fl) = n"
      using False by (auto simp: fl v_offsets_def Let_def)
    have lx: "loop_idx_side_lwr_ctrl (loop_offsets n ?fl) = 0"
      "len_loop_idcs (loop_offsets n ?fl) = n"
      using False by (auto simp: fl loop_offsets_def cap_loops_def Let_def)
    have F: "final_v_idcs p =
        upd_all (ring_ws n (side_strip_rings n (loop_offsets n ?fl) (v_offsets n ?fl)))
          (py_repeat [0, 0, 0, 0] n)"
      using fin el by (simp add: lx)
    have len: "int (length (final_v_idcs p)) = n" using n0 unfolding F by simp
    have val: "final_v_idcs p ! nat (b + i) = f i"
      if "(b, f) \<in> set (side_strip_rings n (loop_offsets n ?fl) (v_offsets n ?fl))"
        and "0 \<le> i" "i < n" for b f i
      unfolding F
    proof (rule ring_ws_only_value [OF that])
      from that(1) show "0 \<le> b" by (auto simp: side_strip_rings_def lx)
      from that show "b + i < int (length (py_repeat [0::int, 0, 0, 0] n))"
        by (auto simp: side_strip_rings_def lx)
      fix r assume "r \<in> set (side_strip_rings n (loop_offsets n ?fl) (v_offsets n ?fl))"
      with that show "0 \<le> fst r \<and> (r = (b, f) \<or> \<not> in_ring n (fst r) (b + i))"
        by (auto simp: side_strip_rings_def lx in_ring_def)
    qed
    let ?R = "side_strip_rings n (loop_offsets n ?fl) (v_offsets n ?fl)"
    have mem: "(0, \<lambda>i. [i, (i + 1) mod n, n + (i + 1) mod n, n + i]) \<in> set ?R"
      by (simp add: side_strip_rings_def lx ix)
    have quads: "final_v_idcs p ! nat i = [i, (i + 1) mod n, n + (i + 1) mod n, n + i]"
      if i: "0 \<le> i" "i < n" for i
      using val [OF mem i] by simp
    have "int (length (final_v_idcs p)) = n \<and>
           (\<forall>i. 0 \<le> i \<and> i < n \<longrightarrow>
              final_v_idcs p ! nat i = [i, (i + 1) mod n, n + (i + 1) mod n, n + i])"
      using len quads by simp
    then show ?thesis unfolding ex if_not_P [OF False] by simp
  qed
qed

theorem no_caps_side_quads_only_witness:
  "cap_face_type no_caps = NONE \<and> 3 \<le> sectors no_caps \<and>
   0 < radius_btm no_caps \<and> 0 < radius_top no_caps \<and> 0 < depth no_caps \<and>
   (\<exists>m. execute no_caps = Inr m \<and> length (v_idcs m) = 8 \<and>
        v_idcs m ! 0 = [0, 1, 9, 8] \<and> v_idcs m ! 7 = [7, 0, 8, 15])"
proof -
  have h: "cap_face_type no_caps = NONE" "3 \<le> sectors no_caps"
    "0 < radius_btm no_caps" "0 < radius_top no_caps" "0 < depth no_caps"
    "8 = sectors no_caps"
    by (simp_all add: no_caps_def default_params_def)
  have e: "\<not> (0 < edge_loop_fac no_caps \<and> edge_loop_fac no_caps < 1)"
    by (simp add: no_caps_def default_params_def)
  from no_caps_side_quads_only [OF h] e
  obtain m where m: "execute no_caps = Inr m" "int (length (v_idcs m)) = 8"
    "\<forall>i. 0 \<le> i \<and> i < 8 \<longrightarrow> v_idcs m ! nat i = [i, (i + 1) mod 8, 8 + (i + 1) mod 8, 8 + i]"
    by auto
  from m(3) [rule_format, of 0] m(3) [rule_format, of 7]
  have "v_idcs m ! 0 = [0, 1, 9, 8]" "v_idcs m ! 7 = [7, 0, 8, 15]" by simp_all
  moreover from m(2) have "length (v_idcs m) = 8" by linarith
  ultimately show ?thesis using h m(1) by blast
qed

text \<open>
  C7, as stated, fails without caps: the aspect ratios are computed only under
  \<^verbatim>\<open>if use_caps\<close> (lines 188 to 192) and are 1 otherwise. With no caps, an edge loop
  factor of 0.5, a bottom radius of 0.5 and a depth of 1.5 the lower side factor is 0.5,
  not \<open>0.5 * (0.5 / 1.5) = 1/6\<close>, and the lower control ring lies at the height
  \<open>- 3/8\<close>, not at \<open>- 5/8\<close>.
\<close>

theorem side_factor_unscaled_without_caps:
  "cap_face_type loops_no_caps = NONE \<and>
   radius_btm loops_no_caps < depth loops_no_caps \<and>
   edge_loop_fac loops_no_caps * (radius_btm loops_no_caps / depth loops_no_caps) = 1 / 6 \<and>
   map_sum id t_btm (ctrl_factors loops_no_caps (cap_flags 8 NONE 0.5)) = Inr (1 / 2) \<and>
   v_idx_side_lwr_ctrl (v_offsets 8 (cap_flags 8 NONE 0.5)) = 8 \<and>
   map_sum id (\<lambda>m. snd (snd (vs m ! 8))) (execute loops_no_caps) = Inr (- (3 / 8)) \<and>
   lerp (vz_btm loops_no_caps) (vz_mid loops_no_caps) (1 / 6) = - (5 / 8)"
proof -
  have s: "sectors loops_no_caps = 8" "cap_face_type loops_no_caps = NONE"
    "edge_loop_fac loops_no_caps = 0.5" "radius_btm loops_no_caps = 0.5"
    "radius_top loops_no_caps = 0.5" "depth loops_no_caps = 1.5"
    "depth_offset loops_no_caps = 0"
    by (simp_all add: loops_no_caps_def default_params_def)
  have fl: "flags_of loops_no_caps =
     \<lparr> cap_is_none = True, cap_is_ngon = False, cap_is_quad = False, cap_is_tri = False,
       use_center_spoke = False, use_caps = False, use_edge_loops = True \<rparr>"
    by (simp add: flags_of_def s cap_flags_none)
  have fl8: "cap_flags 8 NONE 0.5 = flags_of loops_no_caps"
    by (simp add: flags_of_def s)
  have ix: "v_idx_side_lwr_ctrl (v_offsets 8 (flags_of loops_no_caps)) = 8"
    by (simp add: fl v_offsets_def Let_def)
  have z: "vz_mid loops_no_caps = 0" "vz_btm loops_no_caps = - (3 / 4)"
    by (simp_all add: vz_btm_def vz_mid_def s Let_def)
  have fc: "ctrl_factors loops_no_caps (flags_of loops_no_caps) =
      Inr (factors_of loops_no_caps (flags_of loops_no_caps))"
    by (rule ctrl_factors_ok) (simp_all add: s)
  have tb: "t_btm (factors_of loops_no_caps (flags_of loops_no_caps)) = 1 / 2"
    "u_btm (factors_of loops_no_caps (flags_of loops_no_caps)) = 1 / 2"
    by (simp_all add: factors_of_def fl s Let_def)
  have ok: "flags_ok (flags_of loops_no_caps)" by (simp add: fl flags_ok_def)
  have ex: "execute loops_no_caps =
      Inr \<lparr> vs = final_vs loops_no_caps, v_idcs = final_v_idcs loops_no_caps,
            uvs = (if calc_uvs loops_no_caps
                   then Some (final_vts loops_no_caps, final_vt_idcs loops_no_caps)
                   else None) \<rparr>"
    by (rule execute_ok [OF _ _ _ _ ok]) (simp_all add: s)
  let ?fc = "factors_of loops_no_caps (flags_of loops_no_caps)"
  let ?cs = "cart_table loops_no_caps"
  have "(v_idx_side_lwr_ctrl (v_offsets (sectors loops_no_caps) (flags_of loops_no_caps)),
         \<lambda>i. (fst (?cs ! nat i) *
                 (u_btm ?fc * radius_btm loops_no_caps +
                  t_btm ?fc * ((radius_btm loops_no_caps + radius_top loops_no_caps) * 0.5)),
               snd (?cs ! nat i) *
                 (u_btm ?fc * radius_btm loops_no_caps +
                  t_btm ?fc * ((radius_btm loops_no_caps + radius_top loops_no_caps) * 0.5)),
               u_btm ?fc * vz_btm loops_no_caps + t_btm ?fc * vz_mid loops_no_caps))
        \<in> set (vs_rings loops_no_caps (flags_of loops_no_caps) ?fc ?cs
                 (v_offsets (sectors loops_no_caps) (flags_of loops_no_caps)))"
    by (simp add: vs_rings_def side_rings_def fl)
  from final_vs_ring [OF _ _ this, of 0]
  have "snd (snd (final_vs loops_no_caps ! 8)) = - (3 / 8)"
    by (simp add: s ix tb z)
  then show ?thesis
    unfolding fl8 ex fc by (simp add: s tb ix z lerp_def)
qed

text \<open>
  C7, amended. With edge loops and caps: where a radius is below the depth, the side
  control ring of that end is interpolated from the edge ring toward the middle ring with
  the factor \<open>t * (radius / depth)\<close>; where a radius is at least the depth, the control
  ring of that cap is interpolated from the edge ring toward the fan ring, at half the
  radius, with the factor \<open>t * (depth / radius)\<close>. With edge loops and no caps the side
  control rings are interpolated with the factor \<open>t\<close>. (Floats as reals.)
\<close>

theorem control_ring_factors:
  assumes "3 \<le> sectors p" and "0 < radius_btm p" and "0 < radius_top p" and "0 < depth p"
    and "0 < edge_loop_fac p" and "edge_loop_fac p < 1"
    and "fl = cap_flags (sectors p) (cap_face_type p) (edge_loop_fac p)"
    and "ix = v_offsets (sectors p) fl"
    and "theta = (\<lambda>i. orientation p + real_of_int i * (2 * pi / real_of_int (sectors p)))"
    and "t = edge_loop_fac p"
    and "r_mid = (radius_btm p + radius_top p) / 2"
    and "side_lwr = (\<lambda>f i. (cos (theta i) * lerp (radius_btm p) r_mid f,
                             sin (theta i) * lerp (radius_btm p) r_mid f,
                             lerp (vz_btm p) (vz_mid p) f))"
    and "side_upp = (\<lambda>f i. (cos (theta i) * lerp (radius_top p) r_mid f,
                             sin (theta i) * lerp (radius_top p) r_mid f,
                             lerp (vz_top p) (vz_mid p) f))"
    and "cap_lwr = (\<lambda>f i. (cos (theta i) * lerp (radius_btm p) (radius_btm p / 2) f,
                            sin (theta i) * lerp (radius_btm p) (radius_btm p / 2) f,
                            vz_btm p))"
    and "cap_upp = (\<lambda>f i. (cos (theta i) * lerp (radius_top p) (radius_top p / 2) f,
                            sin (theta i) * lerp (radius_top p) (radius_top p / 2) f,
                            vz_top p))"
  shows "\<exists>vsb. positions p = Inr vsb \<and> (\<forall>m. execute p = Inr m \<longrightarrow> vs m = vsb) \<and>
     (\<forall>i. 0 \<le> i \<and> i < sectors p \<longrightarrow>
        (use_caps fl \<and> radius_btm p < depth p \<longrightarrow>
           vsb ! nat (v_idx_side_lwr_ctrl ix + i) = side_lwr (t * (radius_btm p / depth p)) i) \<and>
        (use_caps fl \<and> radius_top p < depth p \<longrightarrow>
           vsb ! nat (v_idx_side_upp_ctrl ix + i) = side_upp (t * (radius_top p / depth p)) i) \<and>
        (use_caps fl \<and> depth p \<le> radius_btm p \<longrightarrow>
           vsb ! nat (v_idx_btm_ctrl ix + i) = cap_lwr (t * (depth p / radius_btm p)) i) \<and>
        (use_caps fl \<and> depth p \<le> radius_top p \<longrightarrow>
           vsb ! nat (v_idx_top_ctrl ix + i) = cap_upp (t * (depth p / radius_top p)) i) \<and>
        (\<not> use_caps fl \<longrightarrow>
           vsb ! nat (v_idx_side_lwr_ctrl ix + i) = side_lwr t i \<and>
           vsb ! nat (v_idx_side_upp_ctrl ix + i) = side_upp t i))"
proof -
  let ?fl = "flags_of p"
  let ?ix = "v_offsets (sectors p) ?fl"
  let ?fc = "factors_of p ?fl"
  let ?cs = "cart_table p"
  have fl': "fl = ?fl" by (simp add: assms(7) flags_of_def)
  have el: "use_edge_loops ?fl"
    using assms(5,6) by (simp add: flags_of_def cap_flags_def Let_def)
  have n1: "1 \<le> sectors p" using assms(1) by simp
  have pos: "positions p = Inr (final_vs p)" by (rule positions_ok [OF n1 assms(2-4)])
  have ex: "vs m = final_vs p" if "execute p = Inr m" for m
    using execute_positions [OF that] pos by simp
  have lw: "(v_idx_side_lwr_ctrl ?ix,
         \<lambda>i. (fst (?cs ! nat i) *
                 (u_btm ?fc * radius_btm p + t_btm ?fc * ((radius_btm p + radius_top p) * 0.5)),
               snd (?cs ! nat i) *
                 (u_btm ?fc * radius_btm p + t_btm ?fc * ((radius_btm p + radius_top p) * 0.5)),
               u_btm ?fc * vz_btm p + t_btm ?fc * vz_mid p))
        \<in> set (vs_rings p ?fl ?fc ?cs ?ix)"
    and up: "(v_idx_side_upp_ctrl ?ix,
         \<lambda>i. (fst (?cs ! nat i) *
                 (u_top ?fc * radius_top p + t_top ?fc * ((radius_btm p + radius_top p) * 0.5)),
               snd (?cs ! nat i) *
                 (u_top ?fc * radius_top p + t_top ?fc * ((radius_btm p + radius_top p) * 0.5)),
               u_top ?fc * vz_top p + t_top ?fc * vz_mid p))
        \<in> set (vs_rings p ?fl ?fc ?cs ?ix)"
    using el by (simp_all add: vs_rings_def side_rings_def)
  have cl: "(v_idx_btm_ctrl ?ix,
         \<lambda>i. (fst (?cs ! nat i) *
                 (u_fan_btm ?fc * radius_btm p + t_fan_btm ?fc * (radius_btm p * 0.5)),
               snd (?cs ! nat i) *
                 (u_fan_btm ?fc * radius_btm p + t_fan_btm ?fc * (radius_btm p * 0.5)),
               vz_btm p))
        \<in> set (vs_rings p ?fl ?fc ?cs ?ix)"
    and cu: "(v_idx_top_ctrl ?ix,
         \<lambda>i. (fst (?cs ! nat i) *
                 (u_fan_top ?fc * radius_top p + t_fan_top ?fc * (radius_top p * 0.5)),
               snd (?cs ! nat i) *
                 (u_fan_top ?fc * radius_top p + t_fan_top ?fc * (radius_top p * 0.5)),
               vz_top p))
        \<in> set (vs_rings p ?fl ?fc ?cs ?ix)"
    if "use_caps ?fl"
    using el that by (simp_all add: vs_rings_def cap_rings_def)
  have main: "(use_caps ?fl \<and> radius_btm p < depth p \<longrightarrow>
           final_vs p ! nat (v_idx_side_lwr_ctrl ?ix + i) =
             side_lwr (t * (radius_btm p / depth p)) i) \<and>
        (use_caps ?fl \<and> radius_top p < depth p \<longrightarrow>
           final_vs p ! nat (v_idx_side_upp_ctrl ?ix + i) =
             side_upp (t * (radius_top p / depth p)) i) \<and>
        (use_caps ?fl \<and> depth p \<le> radius_btm p \<longrightarrow>
           final_vs p ! nat (v_idx_btm_ctrl ?ix + i) =
             cap_lwr (t * (depth p / radius_btm p)) i) \<and>
        (use_caps ?fl \<and> depth p \<le> radius_top p \<longrightarrow>
           final_vs p ! nat (v_idx_top_ctrl ?ix + i) =
             cap_upp (t * (depth p / radius_top p)) i) \<and>
        (\<not> use_caps ?fl \<longrightarrow>
           final_vs p ! nat (v_idx_side_lwr_ctrl ?ix + i) = side_lwr t i \<and>
           final_vs p ! nat (v_idx_side_upp_ctrl ?ix + i) = side_upp t i)"
    if i: "0 \<le> i" "i < sectors p" for i
  proof -
    have c: "?cs ! nat i = (cos (theta i), sin (theta i))"
      unfolding assms(9) by (rule cart_table_nth [OF i])
    note v = final_vs_ring [OF i lw] final_vs_ring [OF i up]
    show ?thesis
    proof (cases "use_caps ?fl")
      case True
      note w = final_vs_ring [OF i cl [OF True]] final_vs_ring [OF i cu [OF True]]
      show ?thesis
        using True assms(2-4)
        by (simp add: v w c assms(10-15) lerp_def factors_of_def Let_def)
    next
      case False
      then show ?thesis
        by (simp add: v c assms(10-15) lerp_def factors_of_def Let_def)
    qed
  qed
  show ?thesis
    unfolding assms(8) fl' using pos ex main by simp
qed

theorem control_ring_factors_witness:
  "3 \<le> sectors loops_quad \<and> 0 < radius_btm loops_quad \<and> 0 < radius_top loops_quad \<and>
   0 < depth loops_quad \<and> 0 < edge_loop_fac loops_quad \<and> edge_loop_fac loops_quad < 1 \<and>
   use_caps (cap_flags 8 QUAD 0.5) \<and> radius_btm loops_quad < depth loops_quad \<and>
   edge_loop_fac loops_quad * (radius_btm loops_quad / depth loops_quad) = 1 / 6 \<and>
   v_idx_side_lwr_ctrl (v_offsets 8 (cap_flags 8 QUAD 0.5)) = 25 \<and>
   (\<exists>vsb. positions loops_quad = Inr vsb \<and> vsb ! 25 = (1 / 2, 0, - (5 / 8)))"
proof -
  have s: "sectors loops_quad = 8" "cap_face_type loops_quad = QUAD"
    "edge_loop_fac loops_quad = 0.5" "radius_btm loops_quad = 0.5"
    "radius_top loops_quad = 0.5" "depth loops_quad = 1.5"
    "depth_offset loops_quad = 0" "orientation loops_quad = 0"
    by (simp_all add: loops_quad_def default_params_def)
  have h: "3 \<le> sectors loops_quad" "0 < radius_btm loops_quad" "0 < radius_top loops_quad"
    "0 < depth loops_quad" "0 < edge_loop_fac loops_quad" "edge_loop_fac loops_quad < 1"
    by (simp_all add: s)
  have fl: "cap_flags 8 QUAD (1 / 2) =
     \<lparr> cap_is_none = False, cap_is_ngon = False, cap_is_quad = True, cap_is_tri = False,
       use_center_spoke = True, use_caps = True, use_edge_loops = True \<rparr>"
    by (simp add: cap_flags_def Let_def)
  have ix: "v_idx_side_lwr_ctrl (v_offsets 8 (cap_flags 8 QUAD 0.5)) = 25"
    by (simp add: fl v_offsets_def Let_def)
  have z: "vz_mid loops_quad = 0" "vz_btm loops_quad = - (3 / 4)"
    by (simp_all add: vz_btm_def vz_mid_def s Let_def)
  from control_ring_factors [OF h refl refl refl refl refl refl refl refl refl]
  obtain vsb where v: "positions loops_quad = Inr vsb"
    "vsb ! nat (25 + 0) = (cos 0 * lerp (1 / 2) (1 / 2) (1 / 6),
        sin 0 * lerp (1 / 2) (1 / 2) (1 / 6), lerp (- (3 / 4)) 0 (1 / 6))"
    by (auto simp: s fl z v_offsets_def Let_def dest!: spec [where x = "0::int"])
  from v(2) have "vsb ! 25 = (1 / 2, 0, - (5 / 8))" by (simp add: lerp_def)
  with v(1) h show ?thesis by (auto simp: s fl v_offsets_def Let_def)
qed

text \<open>
  C8. With equal radii and no vertical offset the bottom ring and the top ring are mirror
  images about the plane \<open>z = 0\<close>: sample \<open>i\<close> has the same \<open>x\<close> and \<open>y\<close> on both rings,
  at the heights \<open>- depth / 2\<close> and \<open>depth / 2\<close>. The middle height is 0, halfway between
  the two. With an edge loop factor of 0 no middle ring is computed; the theorem also
  covers the factors for which one is: its sample \<open>i\<close> has the same \<open>x\<close> and \<open>y\<close> at the
  height 0. The positions are those of every mesh the call returns. (Floats as reals.)
\<close>

theorem symmetric_tube_mirror_rings:
  assumes "3 \<le> sectors p" and "0 < radius_btm p" and "0 < radius_top p" and "0 < depth p"
    and "radius_btm p = radius_top p" and "depth_offset p = 0"
    and "fl = cap_flags (sectors p) (cap_face_type p) (edge_loop_fac p)"
    and "ix = v_offsets (sectors p) fl"
    and "theta = (\<lambda>i. orientation p + real_of_int i * (2 * pi / real_of_int (sectors p)))"
  shows "\<exists>vsb. positions p = Inr vsb \<and> (\<forall>m. execute p = Inr m \<longrightarrow> vs m = vsb) \<and>
     (\<forall>i. 0 \<le> i \<and> i < sectors p \<longrightarrow>
        vsb ! nat (v_idx_btm_edge ix + i) =
          (cos (theta i) * radius_btm p, sin (theta i) * radius_btm p, - (depth p / 2)) \<and>
        vsb ! nat (v_idx_top_edge ix + i) =
          (cos (theta i) * radius_btm p, sin (theta i) * radius_btm p, depth p / 2) \<and>
        (use_edge_loops fl \<longrightarrow>
           vsb ! nat (v_idx_mid ix + i) =
             (cos (theta i) * radius_btm p, sin (theta i) * radius_btm p, 0))) \<and>
     vz_mid p = (vz_btm p + vz_top p) / 2 \<and> vz_mid p = 0 \<and>
     (edge_loop_fac p = 0 \<longrightarrow> \<not> use_edge_loops fl \<and> v_idx_mid ix = v_idx_top_edge ix)"
proof -
  let ?fl = "flags_of p"
  let ?ix = "v_offsets (sectors p) ?fl"
  let ?fc = "factors_of p ?fl"
  let ?cs = "cart_table p"
  have fl': "fl = ?fl" by (simp add: assms(7) flags_of_def)
  have n1: "1 \<le> sectors p" using assms(1) by simp
  have pos: "positions p = Inr (final_vs p)" by (rule positions_ok [OF n1 assms(2-4)])
  have ex: "vs m = final_vs p" if "execute p = Inr m" for m
    using execute_positions [OF that] pos by simp
  have zm: "vz_mid p = 0" by (simp add: vz_mid_def assms(6) Let_def)
  have zb: "vz_btm p = - (depth p / 2)" and zt: "vz_top p = depth p / 2"
    by (simp_all add: vz_btm_def vz_top_def zm)
  have rings: "final_vs p ! nat (v_idx_btm_edge ?ix + i) =
          (cos (theta i) * radius_btm p, sin (theta i) * radius_btm p, - (depth p / 2)) \<and>
        final_vs p ! nat (v_idx_top_edge ?ix + i) =
          (cos (theta i) * radius_btm p, sin (theta i) * radius_btm p, depth p / 2) \<and>
        (use_edge_loops ?fl \<longrightarrow>
           final_vs p ! nat (v_idx_mid ?ix + i) =
             (cos (theta i) * radius_btm p, sin (theta i) * radius_btm p, 0))"
    if i: "0 \<le> i" "i < sectors p" for i
  proof -
    have c: "?cs ! nat i = (cos (theta i), sin (theta i))"
      unfolding assms(9) by (rule cart_table_nth [OF i])
    have b: "(v_idx_btm_edge ?ix,
           \<lambda>i. (fst (?cs ! nat i) * radius_btm p, snd (?cs ! nat i) * radius_btm p, vz_btm p))
          \<in> set (vs_rings p ?fl ?fc ?cs ?ix)"
      and t: "(v_idx_top_edge ?ix,
           \<lambda>i. (fst (?cs ! nat i) * radius_top p, snd (?cs ! nat i) * radius_top p, vz_top p))
          \<in> set (vs_rings p ?fl ?fc ?cs ?ix)"
      by (simp_all add: vs_rings_def edge_rings_def)
    have m: "(v_idx_mid ?ix,
           \<lambda>i. (fst (?cs ! nat i) * ((radius_btm p + radius_top p) * 0.5),
                 snd (?cs ! nat i) * ((radius_btm p + radius_top p) * 0.5), vz_mid p))
          \<in> set (vs_rings p ?fl ?fc ?cs ?ix)" if "use_edge_loops ?fl"
      using that by (simp add: vs_rings_def side_rings_def)
    have r: "(radius_btm p + radius_top p) * 0.5 = radius_btm p"
      using assms(5) by simp
    show ?thesis
      using final_vs_ring [OF i b] final_vs_ring [OF i t] final_vs_ring [OF i m]
      by (simp add: c zb zt zm r assms(5) [symmetric])
  qed
  have half: "vz_mid p = (vz_btm p + vz_top p) / 2" by (simp add: zb zt zm)
  have noloop: "\<not> use_edge_loops ?fl \<and> v_idx_mid ?ix = v_idx_top_edge ?ix"
    if "edge_loop_fac p = 0"
    using that by (simp add: flags_of_def cap_flags_def v_offsets_def Let_def)
  show ?thesis
    unfolding assms(8) fl' using pos ex rings half zm noloop by simp
qed

theorem symmetric_tube_mirror_rings_witness:
  "3 \<le> sectors default_params \<and> 0 < radius_btm default_params \<and>
   0 < radius_top default_params \<and> 0 < depth default_params \<and>
   radius_btm default_params = radius_top default_params \<and>
   depth_offset default_params = 0 \<and> edge_loop_fac default_params = 0 \<and>
   (\<exists>vsb. positions default_params = Inr vsb \<and>
      vsb ! 1 = (0.5, 0, - 0.75) \<and> vsb ! 9 = (0.5, 0, 0.75))"
proof -
  have h: "3 \<le> sectors default_params" "0 < radius_btm default_params"
    "0 < radius_top default_params" "0 < depth default_params"
    "radius_btm default_params = radius_top default_params"
    "depth_offset default_params = 0"
    by simp_all
  have ix: "v_idx_btm_edge (v_offsets 8 (cap_flags 8 QUAD 0)) = 1"
    "v_idx_top_edge (v_offsets 8 (cap_flags 8 QUAD 0)) = 9"
    by (simp_all add: v_offsets_def cap_flags_def Let_def)
  from symmetric_tube_mirror_rings [OF h refl refl refl]
  obtain vsb where v: "positions default_params = Inr vsb"
    "\<forall>i. 0 \<le> i \<and> i < 8 \<longrightarrow>
        vsb ! nat (1 + i) = (cos (real_of_int i * (2 * pi / 8)) * 0.5,
                             sin (real_of_int i * (2 * pi / 8)) * 0.5, - (1.5 / 2)) \<and>
        vsb ! nat (9 + i) = (cos (real_of_int i * (2 * pi / 8)) * 0.5,
                             sin (real_of_int i * (2 * pi / 8)) * 0.5, 1.5 / 2)"
    by (auto simp: ix)
  from v(2) [rule_format, of 0] have "vsb ! 1 = (0.5, 0, - 0.75)" "vsb ! 9 = (0.5, 0, 0.75)"
    by simp_all
  with v(1) h show ?thesis by auto
qed

text \<open>
  C9. With UVs requested, the generator returns a mesh exactly when the input is outside
  the defect of the triangle caps (the face stage runs before the UV stage and raises
  there), and the UV coordinates of every mesh it returns are these. Every side strip
  holds the \<open>sectors + 1\<close> samples \<open>x = j / sectors\<close> for \<open>j\<close> from 0 to \<open>sectors\<close>, from
  0 to 1 inclusive: the bottom strip at \<open>y = 0.5\<close> with caps and \<open>y = 0\<close> without, the top
  strip at \<open>y = 1\<close>, and, with edge loops, the lower control strip, the middle strip and
  the upper control strip at the heights of lines 619 to 621. With caps, the rim rings
  are the samples of the circles of radius 0.25 about \<open>(0.75, 0.25)\<close> for the bottom cap
  and about \<open>(0.25, 0.25)\<close> for the top cap.

  The coordinates are real numbers here. The source computes \<open>x\<close> as the floating point
  product \<open>j * (1.0 / sectors)\<close>, which is \<open>j / sectors\<close> up to rounding only: the
  equalities below, the seam value 1 among them, are those of exact arithmetic.
\<close>

theorem uv_strips_and_rims:
  assumes "3 \<le> sectors p" and "0 < radius_btm p" and "0 < radius_top p" and "0 < depth p"
    and "calc_uvs p"
    and "fl = cap_flags (sectors p) (cap_face_type p) (edge_loop_fac p)"
    and "tx = vt_offsets (sectors p) fl"
    and "theta = (\<lambda>i. orientation p + real_of_int i * (2 * pi / real_of_int (sectors p)))"
    and "n = sectors p"
    and "ymin = (if use_caps fl then 1 / 2 else 0)"
    and "ymid = (ymin + 1) / 2"
    and "fb = (if radius_btm p < depth p
               then edge_loop_fac p * (if use_caps fl then radius_btm p / depth p else 1)
               else edge_loop_fac p)"
    and "ft = (if radius_top p < depth p
               then edge_loop_fac p * (if use_caps fl then radius_top p / depth p else 1)
               else edge_loop_fac p)"
  shows "((\<exists>m. execute p = Inr m) \<longleftrightarrow>
            (cap_face_type p = TRI \<longrightarrow> n < 4 \<or> (5 \<le> n \<and> n mod 2 = 0))) \<and>
     (\<forall>m. execute p = Inr m \<longrightarrow>
        (\<exists>vts fs. uvs m = Some (vts, fs) \<and>
           vt_idx_btm_strip tx = 0 \<and> vt_idx_top_strip tx = n + 1 \<and>
           (\<forall>j. 0 \<le> j \<and> j \<le> n \<longrightarrow>
              vts ! nat (vt_idx_btm_strip tx + j) = (real_of_int j / real_of_int n, ymin) \<and>
              vts ! nat (vt_idx_top_strip tx + j) = (real_of_int j / real_of_int n, 1)) \<and>
           fst (vts ! nat (vt_idx_btm_strip tx + 0)) = 0 \<and>
           fst (vts ! nat (vt_idx_btm_strip tx + n)) = 1 \<and>
           fst (vts ! nat (vt_idx_top_strip tx + 0)) = 0 \<and>
           fst (vts ! nat (vt_idx_top_strip tx + n)) = 1 \<and>
           (use_edge_loops fl \<longrightarrow>
              vt_idx_side_lwr_ctrl tx = 2 * (n + 1) \<and> vt_idx_mid_strip tx = 3 * (n + 1) \<and>
              vt_idx_side_upp_ctrl tx = 4 * (n + 1) \<and>
              (\<forall>j. 0 \<le> j \<and> j \<le> n \<longrightarrow>
                 vts ! nat (vt_idx_side_lwr_ctrl tx + j) =
                   (real_of_int j / real_of_int n, (1 - fb) * ymin + fb * ymid) \<and>
                 vts ! nat (vt_idx_mid_strip tx + j) = (real_of_int j / real_of_int n, ymid) \<and>
                 vts ! nat (vt_idx_side_upp_ctrl tx + j) =
                   (real_of_int j / real_of_int n, (1 - ft) * 1 + ft * ymid))) \<and>
           (use_caps fl \<longrightarrow>
              (\<forall>i. 0 \<le> i \<and> i < n \<longrightarrow>
                 vts ! nat (vt_idx_btm_edge tx + i) =
                   (3 / 4 + cos (theta i) / 4, 1 / 4 + sin (theta i) / 4) \<and>
                 vts ! nat (vt_idx_top_edge tx + i) =
                   (1 / 4 + cos (theta i) / 4, 1 / 4 + sin (theta i) / 4) \<and>
                 (fst (vts ! nat (vt_idx_btm_edge tx + i)) - 3 / 4)\<^sup>2 +
                   (snd (vts ! nat (vt_idx_btm_edge tx + i)) - 1 / 4)\<^sup>2 = (1 / 4)\<^sup>2 \<and>
                 (fst (vts ! nat (vt_idx_top_edge tx + i)) - 1 / 4)\<^sup>2 +
                   (snd (vts ! nat (vt_idx_top_edge tx + i)) - 1 / 4)\<^sup>2 = (1 / 4)\<^sup>2))))"
proof -
  let ?fl = "flags_of p"
  let ?tx = "vt_offsets (sectors p) ?fl"
  let ?fc = "factors_of p ?fl"
  let ?cs = "cart_table p"
  let ?su = "1 / real_of_int (sectors p)"
  let ?ymin = "if use_caps ?fl then 1 / 2 else (0::real)"
  let ?ymid = "(?ymin + 1) / 2"
  let ?V = "final_vts p"
  have fl': "fl = ?fl" by (simp add: assms(6) flags_of_def)
  have n1: "1 \<le> sectors p" and n0: "0 \<le> sectors p" and nz: "real_of_int (sectors p) \<noteq> 0"
    using assms(1) by simp_all
  have returns: "(\<exists>m. execute p = Inr m) \<longleftrightarrow>
      (cap_face_type p = TRI \<longrightarrow> sectors p < 4 \<or> (5 \<le> sectors p \<and> sectors p mod 2 = 0))"
  proof
    assume "\<exists>m. execute p = Inr m"
    then obtain m where m: "execute p = Inr m" ..
    show "cap_face_type p = TRI \<longrightarrow> sectors p < 4 \<or> (5 \<le> sectors p \<and> sectors p mod 2 = 0)"
    proof (rule ccontr)
      assume "\<not> ?thesis"
      then have "cap_face_type p = TRI" "4 \<le> sectors p"
        "sectors p < 5 \<or> sectors p mod 2 \<noteq> 0"
        by auto
      from execute_tri_defect [OF this assms(2-4)] m show False by simp
    qed
  next
    assume "cap_face_type p = TRI \<longrightarrow>
      sectors p < 4 \<or> (5 \<le> sectors p \<and> sectors p mod 2 = 0)"
    from execute_ok [OF n1 assms(2-4) flags_of_ok [OF this]]
    show "\<exists>m. execute p = Inr m" by blast
  qed
  have uv: "uvs m = Some (?V, final_vt_idcs p)" if "execute p = Inr m" for m
    using execute_returns(2) [OF n1 assms(2-4) that] assms(5) by simp
  have offs: "vt_idx_btm_strip ?tx = 0 \<and> vt_idx_top_strip ?tx = sectors p + 1"
    by (simp add: vt_offsets_def Let_def)
  have offs_el: "vt_idx_side_lwr_ctrl ?tx = 2 * (sectors p + 1) \<and>
      vt_idx_mid_strip ?tx = 3 * (sectors p + 1) \<and>
      vt_idx_side_upp_ctrl ?tx = 4 * (sectors p + 1)"
    if "use_edge_loops ?fl"
    using that by (simp add: vt_offsets_def Let_def)
  have bs: "(vt_idx_btm_strip ?tx, \<lambda>j. (of_int j * ?su, vts_min_y ?fl))
            \<in> set (strip_rings ?fl ?fc ?tx ?su)"
    and ts: "(vt_idx_top_strip ?tx, \<lambda>j. (of_int j * ?su, vts_max_y))
            \<in> set (strip_rings ?fl ?fc ?tx ?su)"
    by (simp_all add: strip_rings_def)
  have strips: "\<forall>j. 0 \<le> j \<and> j \<le> sectors p \<longrightarrow>
        ?V ! nat (vt_idx_btm_strip ?tx + j) =
          (real_of_int j / real_of_int (sectors p), ?ymin) \<and>
        ?V ! nat (vt_idx_top_strip ?tx + j) =
          (real_of_int j / real_of_int (sectors p), 1)"
  proof (intro allI impI)
    fix j assume "0 \<le> j \<and> j \<le> sectors p"
    then have j: "0 \<le> j" "j < sectors p + 1" by simp_all
    show "?V ! nat (vt_idx_btm_strip ?tx + j) =
          (real_of_int j / real_of_int (sectors p), ?ymin) \<and>
        ?V ! nat (vt_idx_top_strip ?tx + j) =
          (real_of_int j / real_of_int (sectors p), 1)"
      using final_vts_strip [OF j bs] final_vts_strip [OF j ts]
      by (simp add: vts_min_y_def vts_max_y_def)
  qed
  have ends: "fst (?V ! nat (vt_idx_btm_strip ?tx + 0)) = 0 \<and>
    fst (?V ! nat (vt_idx_btm_strip ?tx + sectors p)) = 1 \<and>
    fst (?V ! nat (vt_idx_top_strip ?tx + 0)) = 0 \<and>
    fst (?V ! nat (vt_idx_top_strip ?tx + sectors p)) = 1"
    using strips [rule_format, of 0] strips [rule_format, of "sectors p"] n0 nz by simp
  have tb: "t_btm ?fc = fb" "u_btm ?fc = 1 - fb" "t_top ?fc = ft" "u_top ?fc = 1 - ft"
    unfolding assms(12,13) fl' by (simp_all add: factors_of_def Let_def)
  have ctrl: "\<forall>j. 0 \<le> j \<and> j \<le> sectors p \<longrightarrow>
        ?V ! nat (vt_idx_side_lwr_ctrl ?tx + j) =
          (real_of_int j / real_of_int (sectors p), (1 - fb) * ?ymin + fb * ?ymid) \<and>
        ?V ! nat (vt_idx_mid_strip ?tx + j) =
          (real_of_int j / real_of_int (sectors p), ?ymid) \<and>
        ?V ! nat (vt_idx_side_upp_ctrl ?tx + j) =
          (real_of_int j / real_of_int (sectors p), (1 - ft) * 1 + ft * ?ymid)"
    if el: "use_edge_loops ?fl"
  proof (intro allI impI)
    fix j assume "0 \<le> j \<and> j \<le> sectors p"
    then have j: "0 \<le> j" "j < sectors p + 1" by simp_all
    have lw: "(vt_idx_side_lwr_ctrl ?tx,
               \<lambda>j. (of_int j * ?su,
                     u_btm ?fc * vts_min_y ?fl +
                     t_btm ?fc * ((vts_min_y ?fl + vts_max_y) * 0.5)))
              \<in> set (strip_rings ?fl ?fc ?tx ?su)"
      and md: "(vt_idx_mid_strip ?tx, \<lambda>j. (of_int j * ?su, (vts_min_y ?fl + vts_max_y) * 0.5))
              \<in> set (strip_rings ?fl ?fc ?tx ?su)"
      and up: "(vt_idx_side_upp_ctrl ?tx,
               \<lambda>j. (of_int j * ?su,
                     u_top ?fc * vts_max_y +
                     t_top ?fc * ((vts_min_y ?fl + vts_max_y) * 0.5)))
              \<in> set (strip_rings ?fl ?fc ?tx ?su)"
      using el by (simp_all add: strip_rings_def)
    show "?V ! nat (vt_idx_side_lwr_ctrl ?tx + j) =
          (real_of_int j / real_of_int (sectors p), (1 - fb) * ?ymin + fb * ?ymid) \<and>
        ?V ! nat (vt_idx_mid_strip ?tx + j) =
          (real_of_int j / real_of_int (sectors p), ?ymid) \<and>
        ?V ! nat (vt_idx_side_upp_ctrl ?tx + j) =
          (real_of_int j / real_of_int (sectors p), (1 - ft) * 1 + ft * ?ymid)"
      using final_vts_strip [OF j lw] final_vts_strip [OF j md] final_vts_strip [OF j up]
      by (simp add: tb vts_min_y_def vts_max_y_def)
  qed
  have circle: "(cos a / 4)\<^sup>2 + (sin a / 4)\<^sup>2 = ((1::real) / 4)\<^sup>2" for a :: real
  proof -
    have "(cos a / 4)\<^sup>2 + (sin a / 4)\<^sup>2 = ((cos a)\<^sup>2 + (sin a)\<^sup>2) / 16"
      by (simp add: power_divide add_divide_distrib)
    also have "\<dots> = 1 / 16" by simp
    finally show ?thesis by (simp add: power_divide)
  qed
  have rims: "\<forall>i. 0 \<le> i \<and> i < sectors p \<longrightarrow>
           ?V ! nat (vt_idx_btm_edge ?tx + i) =
             (3 / 4 + cos (theta i) / 4, 1 / 4 + sin (theta i) / 4) \<and>
           ?V ! nat (vt_idx_top_edge ?tx + i) =
             (1 / 4 + cos (theta i) / 4, 1 / 4 + sin (theta i) / 4) \<and>
           (fst (?V ! nat (vt_idx_btm_edge ?tx + i)) - 3 / 4)\<^sup>2 +
             (snd (?V ! nat (vt_idx_btm_edge ?tx + i)) - 1 / 4)\<^sup>2 = (1 / 4)\<^sup>2 \<and>
           (fst (?V ! nat (vt_idx_top_edge ?tx + i)) - 1 / 4)\<^sup>2 +
             (snd (?V ! nat (vt_idx_top_edge ?tx + i)) - 1 / 4)\<^sup>2 = (1 / 4)\<^sup>2"
    if caps: "use_caps ?fl"
  proof (intro allI impI)
    fix i assume "0 \<le> i \<and> i < sectors p"
    then have i: "0 \<le> i" "i < sectors p" by simp_all
    have c: "?cs ! nat i = (cos (theta i), sin (theta i))"
      unfolding assms(8) by (rule cart_table_nth [OF i])
    have be: "(vt_idx_btm_edge ?tx,
               \<lambda>i. (fst vt_btm_center + fst (?cs ! nat i) * vts_rad,
                     snd vt_btm_center + snd (?cs ! nat i) * vts_rad))
              \<in> set (uv_cap_rings ?fl ?fc ?tx ?cs)"
      and te: "(vt_idx_top_edge ?tx,
               \<lambda>i. (fst vt_top_center + fst (?cs ! nat i) * vts_rad,
                     snd vt_top_center + snd (?cs ! nat i) * vts_rad))
              \<in> set (uv_cap_rings ?fl ?fc ?tx ?cs)"
      using caps by (simp_all add: uv_cap_rings_def)
    have v: "?V ! nat (vt_idx_btm_edge ?tx + i) =
             (3 / 4 + cos (theta i) / 4, 1 / 4 + sin (theta i) / 4)"
      "?V ! nat (vt_idx_top_edge ?tx + i) =
             (1 / 4 + cos (theta i) / 4, 1 / 4 + sin (theta i) / 4)"
      using final_vts_cap_ring [OF i be] final_vts_cap_ring [OF i te]
      by (simp_all add: c vt_btm_center_def vt_top_center_def vts_rad_def)
    show "?V ! nat (vt_idx_btm_edge ?tx + i) =
             (3 / 4 + cos (theta i) / 4, 1 / 4 + sin (theta i) / 4) \<and>
           ?V ! nat (vt_idx_top_edge ?tx + i) =
             (1 / 4 + cos (theta i) / 4, 1 / 4 + sin (theta i) / 4) \<and>
           (fst (?V ! nat (vt_idx_btm_edge ?tx + i)) - 3 / 4)\<^sup>2 +
             (snd (?V ! nat (vt_idx_btm_edge ?tx + i)) - 1 / 4)\<^sup>2 = (1 / 4)\<^sup>2 \<and>
           (fst (?V ! nat (vt_idx_top_edge ?tx + i)) - 1 / 4)\<^sup>2 +
             (snd (?V ! nat (vt_idx_top_edge ?tx + i)) - 1 / 4)\<^sup>2 = (1 / 4)\<^sup>2"
      unfolding v using circle [of "theta i"] by simp
  qed
  have content: "\<exists>vts fs. uvs m = Some (vts, fs) \<and>
           vt_idx_btm_strip ?tx = 0 \<and> vt_idx_top_strip ?tx = sectors p + 1 \<and>
           (\<forall>j. 0 \<le> j \<and> j \<le> sectors p \<longrightarrow>
              vts ! nat (vt_idx_btm_strip ?tx + j) =
                (real_of_int j / real_of_int (sectors p), ?ymin) \<and>
              vts ! nat (vt_idx_top_strip ?tx + j) =
                (real_of_int j / real_of_int (sectors p), 1)) \<and>
           fst (vts ! nat (vt_idx_btm_strip ?tx + 0)) = 0 \<and>
           fst (vts ! nat (vt_idx_btm_strip ?tx + sectors p)) = 1 \<and>
           fst (vts ! nat (vt_idx_top_strip ?tx + 0)) = 0 \<and>
           fst (vts ! nat (vt_idx_top_strip ?tx + sectors p)) = 1 \<and>
           (use_edge_loops ?fl \<longrightarrow>
              vt_idx_side_lwr_ctrl ?tx = 2 * (sectors p + 1) \<and>
              vt_idx_mid_strip ?tx = 3 * (sectors p + 1) \<and>
              vt_idx_side_upp_ctrl ?tx = 4 * (sectors p + 1) \<and>
              (\<forall>j. 0 \<le> j \<and> j \<le> sectors p \<longrightarrow>
                 vts ! nat (vt_idx_side_lwr_ctrl ?tx + j) =
                   (real_of_int j / real_of_int (sectors p), (1 - fb) * ?ymin + fb * ?ymid) \<and>
                 vts ! nat (vt_idx_mid_strip ?tx + j) =
                   (real_of_int j / real_of_int (sectors p), ?ymid) \<and>
                 vts ! nat (vt_idx_side_upp_ctrl ?tx + j) =
                   (real_of_int j / real_of_int (sectors p), (1 - ft) * 1 + ft * ?ymid))) \<and>
           (use_caps ?fl \<longrightarrow>
              (\<forall>i. 0 \<le> i \<and> i < sectors p \<longrightarrow>
                 vts ! nat (vt_idx_btm_edge ?tx + i) =
                   (3 / 4 + cos (theta i) / 4, 1 / 4 + sin (theta i) / 4) \<and>
                 vts ! nat (vt_idx_top_edge ?tx + i) =
                   (1 / 4 + cos (theta i) / 4, 1 / 4 + sin (theta i) / 4) \<and>
                 (fst (vts ! nat (vt_idx_btm_edge ?tx + i)) - 3 / 4)\<^sup>2 +
                   (snd (vts ! nat (vt_idx_btm_edge ?tx + i)) - 1 / 4)\<^sup>2 = (1 / 4)\<^sup>2 \<and>
                 (fst (vts ! nat (vt_idx_top_edge ?tx + i)) - 1 / 4)\<^sup>2 +
                   (snd (vts ! nat (vt_idx_top_edge ?tx + i)) - 1 / 4)\<^sup>2 = (1 / 4)\<^sup>2))"
    if m: "execute p = Inr m" for m
  proof -
    have e: "uvs m = Some (?V, final_vt_idcs p)" by (rule uv [OF m])
    have el: "use_edge_loops ?fl \<longrightarrow>
              vt_idx_side_lwr_ctrl ?tx = 2 * (sectors p + 1) \<and>
              vt_idx_mid_strip ?tx = 3 * (sectors p + 1) \<and>
              vt_idx_side_upp_ctrl ?tx = 4 * (sectors p + 1) \<and>
              (\<forall>j. 0 \<le> j \<and> j \<le> sectors p \<longrightarrow>
                 ?V ! nat (vt_idx_side_lwr_ctrl ?tx + j) =
                   (real_of_int j / real_of_int (sectors p), (1 - fb) * ?ymin + fb * ?ymid) \<and>
                 ?V ! nat (vt_idx_mid_strip ?tx + j) =
                   (real_of_int j / real_of_int (sectors p), ?ymid) \<and>
                 ?V ! nat (vt_idx_side_upp_ctrl ?tx + j) =
                   (real_of_int j / real_of_int (sectors p), (1 - ft) * 1 + ft * ?ymid))"
      using offs_el ctrl by blast
    have cp: "use_caps ?fl \<longrightarrow>
              (\<forall>i. 0 \<le> i \<and> i < sectors p \<longrightarrow>
                 ?V ! nat (vt_idx_btm_edge ?tx + i) =
                   (3 / 4 + cos (theta i) / 4, 1 / 4 + sin (theta i) / 4) \<and>
                 ?V ! nat (vt_idx_top_edge ?tx + i) =
                   (1 / 4 + cos (theta i) / 4, 1 / 4 + sin (theta i) / 4) \<and>
                 (fst (?V ! nat (vt_idx_btm_edge ?tx + i)) - 3 / 4)\<^sup>2 +
                   (snd (?V ! nat (vt_idx_btm_edge ?tx + i)) - 1 / 4)\<^sup>2 = (1 / 4)\<^sup>2 \<and>
                 (fst (?V ! nat (vt_idx_top_edge ?tx + i)) - 1 / 4)\<^sup>2 +
                   (snd (?V ! nat (vt_idx_top_edge ?tx + i)) - 1 / 4)\<^sup>2 = (1 / 4)\<^sup>2)"
      using rims by blast
    from e offs strips ends el cp show ?thesis by (intro exI conjI) blast+
  qed
  show ?thesis
    unfolding assms(9) assms(10) assms(11) assms(7) fl'
    using returns content by blast
qed

theorem uv_strips_and_rims_witness:
  "3 \<le> sectors loops_uvs \<and> 0 < radius_btm loops_uvs \<and> 0 < radius_top loops_uvs \<and>
   0 < depth loops_uvs \<and> calc_uvs loops_uvs \<and>
   use_caps (cap_flags 8 QUAD (1 / 2)) \<and> use_edge_loops (cap_flags 8 QUAD (1 / 2)) \<and>
   (\<exists>m vts fs. execute loops_uvs = Inr m \<and> uvs m = Some (vts, fs) \<and>
      vts ! 0 = (0, 1 / 2) \<and> vts ! 8 = (1, 1 / 2) \<and> vts ! 9 = (0, 1) \<and> vts ! 17 = (1, 1) \<and>
      vts ! 18 = (0, 13 / 24) \<and> vts ! 26 = (1, 13 / 24) \<and>
      vts ! 27 = (0, 3 / 4) \<and> vts ! 35 = (1, 3 / 4) \<and>
      vts ! 36 = (0, 23 / 24) \<and> vts ! 44 = (1, 23 / 24) \<and>
      vts ! 45 = (1, 1 / 4) \<and> vts ! 69 = (1 / 2, 1 / 4))"
proof -
  have s: "sectors loops_uvs = 8" "cap_face_type loops_uvs = QUAD"
    "edge_loop_fac loops_uvs = 1 / 2" "orientation loops_uvs = 0" "calc_uvs loops_uvs"
    "radius_btm loops_uvs = 1 / 2" "radius_top loops_uvs = 1 / 2" "depth loops_uvs = 3 / 2"
    by (simp_all add: loops_uvs_def default_params_def)
  have h: "3 \<le> sectors loops_uvs" "0 < radius_btm loops_uvs" "0 < radius_top loops_uvs"
    "0 < depth loops_uvs" "calc_uvs loops_uvs"
    by (simp_all add: s)
  have fl: "cap_flags 8 QUAD (1 / 2) =
     \<lparr> cap_is_none = False, cap_is_ngon = False, cap_is_quad = True, cap_is_tri = False,
       use_center_spoke = True, use_caps = True, use_edge_loops = True \<rparr>"
    by (simp add: cap_flags_def Let_def)
  note t = uv_strips_and_rims [OF h refl refl refl refl refl refl refl refl]
  from t [THEN conjunct1] obtain m where m: "execute loops_uvs = Inr m"
    by (auto simp: s)
  from t [THEN conjunct2, rule_format, OF m]
  obtain vts fs where v: "uvs m = Some (vts, fs)"
    and a: "\<forall>j. 0 \<le> j \<and> j \<le> 8 \<longrightarrow>
        vts ! nat (0 + j) = (real_of_int j / 8, 1 / 2) \<and>
        vts ! nat (9 + j) = (real_of_int j / 8, 1)"
    and c: "\<forall>j. 0 \<le> j \<and> j \<le> 8 \<longrightarrow>
        vts ! nat (18 + j) = (real_of_int j / 8, 13 / 24) \<and>
        vts ! nat (27 + j) = (real_of_int j / 8, 3 / 4) \<and>
        vts ! nat (36 + j) = (real_of_int j / 8, 23 / 24)"
    and b: "\<forall>i. 0 \<le> i \<and> i < 8 \<longrightarrow>
           vts ! nat (45 + i) = (3 / 4 + cos (real_of_int i * (2 * pi / 8)) / 4,
                                 1 / 4 + sin (real_of_int i * (2 * pi / 8)) / 4) \<and>
           vts ! nat (69 + i) = (1 / 4 + cos (real_of_int i * (2 * pi / 8)) / 4,
                                 1 / 4 + sin (real_of_int i * (2 * pi / 8)) / 4)"
    by (simp add: s fl vt_offsets_def vt_len_def Let_def) blast
  from a [rule_format, of 0] a [rule_format, of 8] b [rule_format, of 0]
    c [rule_format, of 0] c [rule_format, of 8]
  have "vts ! 0 = (0, 1 / 2)" "vts ! 8 = (1, 1 / 2)" "vts ! 9 = (0, 1)" "vts ! 17 = (1, 1)"
    "vts ! 18 = (0, 13 / 24)" "vts ! 26 = (1, 13 / 24)"
    "vts ! 27 = (0, 3 / 4)" "vts ! 35 = (1, 3 / 4)"
    "vts ! 36 = (0, 23 / 24)" "vts ! 44 = (1, 23 / 24)"
    "vts ! 45 = (1, 1 / 4)" "vts ! 69 = (1 / 2, 1 / 4)"
    by simp_all
  with m v h show ?thesis by (simp add: fl)
qed

text \<open>
  C10. Whenever caps are enabled and edge loops are disabled, the cap fan offset equals
  the edge ring offset, at the bottom and at the top, in the vertex layout and in the UV
  layout, and the vertex layout holds two rings and the spokes only. For a count of
  sectors of at least 1 and positive radii and depth, the generator returns a mesh
  exactly when the input is outside the defect of the triangle caps, and in every mesh
  it returns: the vertex buffer has the length of two rings and the spokes; the two edge
  rings hold the rim positions; every side face joins the bottom edge ring to the top
  edge ring; and every cap face, a triangle, a quad or the n-gon, takes its rim corners
  from the same edge ring, at the same offsets as the side faces. With UVs requested,
  the cap faces of the UV faces take their rim corners from the UV edge rings.
\<close>

theorem fan_aliases_edge_without_loops:
  assumes "fl = cap_flags (sectors p) (cap_face_type p) (edge_loop_fac p)"
    and "use_caps fl" and "\<not> use_edge_loops fl"
    and "n = sectors p"
    and "ix = v_offsets n fl" and "tx = vt_offsets n fl" and "lx = loop_offsets n fl"
    and "be = v_idx_btm_edge ix" and "te = v_idx_top_edge ix"
    and "ube = vt_idx_btm_edge tx" and "ute = vt_idx_top_edge tx"
    and "theta = (\<lambda>i. orientation p + real_of_int i * (2 * pi / real_of_int n))"
  shows "v_idx_btm_fan ix = be \<and> v_idx_top_fan ix = te \<and>
     vt_idx_btm_fan tx = ube \<and> vt_idx_top_fan tx = ute \<and>
     len_vs ix = 2 * n + (if use_center_spoke fl then 2 else 0) \<and>
     te = be + n \<and>
     (1 \<le> n \<and> 0 < radius_btm p \<and> 0 < radius_top p \<and> 0 < depth p \<longrightarrow>
        ((\<exists>m. execute p = Inr m) \<longleftrightarrow>
           (cap_face_type p = TRI \<longrightarrow> n < 4 \<or> (5 \<le> n \<and> n mod 2 = 0))) \<and>
        (\<forall>m. execute p = Inr m \<longrightarrow>
           int (length (vs m)) = 2 * n + (if use_center_spoke fl then 2 else 0) \<and>
           (\<forall>i. 0 \<le> i \<and> i < n \<longrightarrow>
              vs m ! nat (be + i) =
                (cos (theta i) * radius_btm p, sin (theta i) * radius_btm p, vz_btm p) \<and>
              vs m ! nat (te + i) =
                (cos (theta i) * radius_top p, sin (theta i) * radius_top p, vz_top p) \<and>
              v_idcs m ! nat (loop_idx_side_lwr_ctrl lx + i) =
                [be + i, be + (i + 1) mod n, te + (i + 1) mod n, te + i]) \<and>
           (cap_is_tri fl \<longrightarrow>
              (\<forall>i. 0 \<le> i \<and> i < n \<longrightarrow>
                 v_idcs m ! nat (loop_idx_btm_fan lx + i) =
                   [v_idx_btm_spoke ix, be + (i + 1) mod n, be + i] \<and>
                 v_idcs m ! nat (loop_idx_top_fan lx + i) =
                   [v_idx_top_spoke ix, te + i, te + (i + 1) mod n])) \<and>
           (cap_is_quad fl \<longrightarrow>
              (\<forall>h. 0 \<le> h \<and> h < n div 2 \<longrightarrow>
                 v_idcs m ! nat (loop_idx_btm_fan lx + h) =
                   [v_idx_btm_spoke ix, be + (h + h + 2) mod n, be + (h + h + 1) mod n,
                    be + (h + h)] \<and>
                 v_idcs m ! nat (loop_idx_top_fan lx + h) =
                   [v_idx_top_spoke ix, te + (h + h), te + (h + h + 1) mod n,
                    te + (h + h + 2) mod n])) \<and>
           (cap_is_ngon fl \<longrightarrow>
              v_idcs m ! nat (loop_idx_btm_fan lx) =
                map (\<lambda>i. be + n - 1 - (i - 1) mod n) (py_range 0 n) \<and>
              v_idcs m ! nat (loop_idx_top_fan lx) = map (\<lambda>i. te + i) (py_range 0 n)) \<and>
           (calc_uvs p \<longrightarrow>
              (\<exists>vts ufs. uvs m = Some (vts, ufs) \<and>
                 (cap_is_tri fl \<longrightarrow>
                    (\<forall>i. 0 \<le> i \<and> i < n \<longrightarrow>
                       ufs ! nat (loop_idx_btm_fan lx + i) =
                         [vt_idx_btm_spoke tx, ube + (i + 1) mod n, ube + i] \<and>
                       ufs ! nat (loop_idx_top_fan lx + i) =
                         [vt_idx_top_spoke tx, ute + i, ute + (i + 1) mod n])) \<and>
                 (cap_is_quad fl \<longrightarrow>
                    (\<forall>h. 0 \<le> h \<and> h < n div 2 \<longrightarrow>
                       ufs ! nat (loop_idx_btm_fan lx + h) =
                         [vt_idx_btm_spoke tx, ube + (h + h + 2) mod n,
                          ube + (h + h + 1) mod n, ube + (h + h)] \<and>
                       ufs ! nat (loop_idx_top_fan lx + h) =
                         [vt_idx_top_spoke tx, ute + (h + h), ute + (h + h + 1) mod n,
                          ute + (h + h + 2) mod n])) \<and>
                 (cap_is_ngon fl \<longrightarrow>
                    ufs ! nat (loop_idx_btm_fan lx) =
                      map (\<lambda>i. ube + n - 1 - (i - 1) mod n) (py_range 0 n) \<and>
                    ufs ! nat (loop_idx_top_fan lx) =
                      map (\<lambda>i. ute + i) (py_range 0 n))))))"
proof -
  let ?n = "sectors p"
  let ?fl = "flags_of p"
  let ?ix = "v_offsets ?n ?fl"
  let ?tx = "vt_offsets ?n ?fl"
  let ?lx = "loop_offsets ?n ?fl"
  let ?fc = "factors_of p ?fl"
  let ?cs = "cart_table p"
  let ?be = "v_idx_btm_edge ?ix"
  let ?te = "v_idx_top_edge ?ix"
  let ?ube = "vt_idx_btm_edge ?tx"
  let ?ute = "vt_idx_top_edge ?tx"
  let ?F = "final_v_idcs p"
  let ?U = "final_vt_idcs p"
  let ?spokes = "if use_center_spoke ?fl then 2 else (0::int)"
  have fl': "fl = ?fl" by (simp add: assms(1) flags_of_def)
  have caps: "use_caps ?fl" and el: "\<not> use_edge_loops ?fl"
    using assms(2,3) by (simp_all add: fl')
  have al: "v_idx_btm_fan ?ix = ?be" "v_idx_top_fan ?ix = ?te"
    "vt_idx_btm_fan ?tx = ?ube" "vt_idx_top_fan ?tx = ?ute"
    using caps el by (simp_all add: v_offsets_def vt_offsets_def Let_def)
  have len: "len_vs ?ix = 2 * ?n + ?spokes" and te: "?te = ?be + ?n"
    using caps el by (simp_all add: v_offsets_def Let_def)
  have Fb: "?F = fan_strip_buffer ?n ?fl (v_idx_btm_spoke ?ix) ?be (v_idx_top_spoke ?ix) ?te
                   (side_face ?n ?ix)"
    using final_v_idcs_no_loops [OF el] by (simp only: al)
  have Ub: "?U = fan_strip_buffer ?n ?fl (vt_idx_btm_spoke ?tx) ?ube (vt_idx_top_spoke ?tx) ?ute
                   (uv_side_face ?tx)"
    using final_vt_idcs_no_loops [OF el] by (simp only: al)
  have valid: "((\<exists>m. execute p = Inr m) \<longleftrightarrow>
           (cap_face_type p = TRI \<longrightarrow> ?n < 4 \<or> (5 \<le> ?n \<and> ?n mod 2 = 0))) \<and>
        (\<forall>m. execute p = Inr m \<longrightarrow>
           int (length (vs m)) = 2 * ?n + ?spokes \<and>
           (\<forall>i. 0 \<le> i \<and> i < ?n \<longrightarrow>
              vs m ! nat (?be + i) =
                (cos (theta i) * radius_btm p, sin (theta i) * radius_btm p, vz_btm p) \<and>
              vs m ! nat (?te + i) =
                (cos (theta i) * radius_top p, sin (theta i) * radius_top p, vz_top p) \<and>
              v_idcs m ! nat (loop_idx_side_lwr_ctrl ?lx + i) =
                [?be + i, ?be + (i + 1) mod ?n, ?te + (i + 1) mod ?n, ?te + i]) \<and>
           (cap_is_tri ?fl \<longrightarrow>
              (\<forall>i. 0 \<le> i \<and> i < ?n \<longrightarrow>
                 v_idcs m ! nat (loop_idx_btm_fan ?lx + i) =
                   [v_idx_btm_spoke ?ix, ?be + (i + 1) mod ?n, ?be + i] \<and>
                 v_idcs m ! nat (loop_idx_top_fan ?lx + i) =
                   [v_idx_top_spoke ?ix, ?te + i, ?te + (i + 1) mod ?n])) \<and>
           (cap_is_quad ?fl \<longrightarrow>
              (\<forall>h. 0 \<le> h \<and> h < ?n div 2 \<longrightarrow>
                 v_idcs m ! nat (loop_idx_btm_fan ?lx + h) =
                   [v_idx_btm_spoke ?ix, ?be + (h + h + 2) mod ?n, ?be + (h + h + 1) mod ?n,
                    ?be + (h + h)] \<and>
                 v_idcs m ! nat (loop_idx_top_fan ?lx + h) =
                   [v_idx_top_spoke ?ix, ?te + (h + h), ?te + (h + h + 1) mod ?n,
                    ?te + (h + h + 2) mod ?n])) \<and>
           (cap_is_ngon ?fl \<longrightarrow>
              v_idcs m ! nat (loop_idx_btm_fan ?lx) =
                map (\<lambda>i. ?be + ?n - 1 - (i - 1) mod ?n) (py_range 0 ?n) \<and>
              v_idcs m ! nat (loop_idx_top_fan ?lx) = map (\<lambda>i. ?te + i) (py_range 0 ?n)) \<and>
           (calc_uvs p \<longrightarrow>
              (\<exists>vts ufs. uvs m = Some (vts, ufs) \<and>
                 (cap_is_tri ?fl \<longrightarrow>
                    (\<forall>i. 0 \<le> i \<and> i < ?n \<longrightarrow>
                       ufs ! nat (loop_idx_btm_fan ?lx + i) =
                         [vt_idx_btm_spoke ?tx, ?ube + (i + 1) mod ?n, ?ube + i] \<and>
                       ufs ! nat (loop_idx_top_fan ?lx + i) =
                         [vt_idx_top_spoke ?tx, ?ute + i, ?ute + (i + 1) mod ?n])) \<and>
                 (cap_is_quad ?fl \<longrightarrow>
                    (\<forall>h. 0 \<le> h \<and> h < ?n div 2 \<longrightarrow>
                       ufs ! nat (loop_idx_btm_fan ?lx + h) =
                         [vt_idx_btm_spoke ?tx, ?ube + (h + h + 2) mod ?n,
                          ?ube + (h + h + 1) mod ?n, ?ube + (h + h)] \<and>
                       ufs ! nat (loop_idx_top_fan ?lx + h) =
                         [vt_idx_top_spoke ?tx, ?ute + (h + h), ?ute + (h + h + 1) mod ?n,
                          ?ute + (h + h + 2) mod ?n])) \<and>
                 (cap_is_ngon ?fl \<longrightarrow>
                    ufs ! nat (loop_idx_btm_fan ?lx) =
                      map (\<lambda>i. ?ube + ?n - 1 - (i - 1) mod ?n) (py_range 0 ?n) \<and>
                    ufs ! nat (loop_idx_top_fan ?lx) =
                      map (\<lambda>i. ?ute + i) (py_range 0 ?n)))))"
    if v: "1 \<le> ?n \<and> 0 < radius_btm p \<and> 0 < radius_top p \<and> 0 < depth p"
  proof (intro conjI allI impI)
    from v have n: "1 \<le> ?n" and pos: "0 < radius_btm p" "0 < radius_top p" "0 < depth p"
      by simp_all
    show "(\<exists>m. execute p = Inr m) \<longleftrightarrow>
           (cap_face_type p = TRI \<longrightarrow> ?n < 4 \<or> (5 \<le> ?n \<and> ?n mod 2 = 0))"
      by (rule execute_returns_iff [OF n pos])
    fix m assume m: "execute p = Inr m"
    note ok = execute_returns(1) [OF n pos m]
    have rec: "vs m = final_vs p" "v_idcs m = ?F"
      "uvs m = (if calc_uvs p then Some (final_vts p, ?U) else None)"
      using execute_returns(2) [OF n pos m] by simp_all
    show "int (length (vs m)) = 2 * ?n + ?spokes"
      using n by (simp add: rec length_final_vs len)
    {
      fix i assume "0 \<le> i \<and> i < ?n"
      then have i: "0 \<le> i" "i < ?n" by simp_all
      have c: "?cs ! nat i = (cos (theta i), sin (theta i))"
        unfolding assms(12) assms(4) by (rule cart_table_nth [OF i])
      have rb: "(?be, \<lambda>i. (fst (?cs ! nat i) * radius_btm p,
                           snd (?cs ! nat i) * radius_btm p, vz_btm p))
                \<in> set (vs_rings p ?fl ?fc ?cs ?ix)"
        and rt: "(?te, \<lambda>i. (fst (?cs ! nat i) * radius_top p,
                           snd (?cs ! nat i) * radius_top p, vz_top p))
                \<in> set (vs_rings p ?fl ?fc ?cs ?ix)"
        by (simp_all add: vs_rings_def edge_rings_def)
      show "vs m ! nat (?be + i) =
              (cos (theta i) * radius_btm p, sin (theta i) * radius_btm p, vz_btm p)"
        using final_vs_ring [OF i rb] by (simp add: rec c)
      show "vs m ! nat (?te + i) =
              (cos (theta i) * radius_top p, sin (theta i) * radius_top p, vz_top p)"
        using final_vs_ring [OF i rt] by (simp add: rec c)
      show "v_idcs m ! nat (loop_idx_side_lwr_ctrl ?lx + i) =
              [?be + i, ?be + (i + 1) mod ?n, ?te + (i + 1) mod ?n, ?te + i]"
        unfolding rec Fb by (simp add: fan_strip_side [OF n ok el i] side_face_def)
    }
    {
      fix i assume tri: "cap_is_tri ?fl" and "0 \<le> i \<and> i < ?n"
      then have i: "0 \<le> i" "i < ?n" by simp_all
      show "v_idcs m ! nat (loop_idx_btm_fan ?lx + i) =
              [v_idx_btm_spoke ?ix, ?be + (i + 1) mod ?n, ?be + i]"
        unfolding rec Fb by (rule fan_strip_tri(1) [OF n ok el tri i])
      show "v_idcs m ! nat (loop_idx_top_fan ?lx + i) =
              [v_idx_top_spoke ?ix, ?te + i, ?te + (i + 1) mod ?n]"
        unfolding rec Fb by (rule fan_strip_tri(2) [OF n ok el tri i])
    }
    {
      fix h assume quad: "cap_is_quad ?fl" and "0 \<le> h \<and> h < ?n div 2"
      then have h: "0 \<le> h" "h < ?n div 2" by simp_all
      show "v_idcs m ! nat (loop_idx_btm_fan ?lx + h) =
              [v_idx_btm_spoke ?ix, ?be + (h + h + 2) mod ?n, ?be + (h + h + 1) mod ?n,
               ?be + (h + h)]"
        unfolding rec Fb by (rule fan_strip_quad(1) [OF n ok el quad h])
      show "v_idcs m ! nat (loop_idx_top_fan ?lx + h) =
              [v_idx_top_spoke ?ix, ?te + (h + h), ?te + (h + h + 1) mod ?n,
               ?te + (h + h + 2) mod ?n]"
        unfolding rec Fb by (rule fan_strip_quad(2) [OF n ok el quad h])
    }
    {
      assume ngon: "cap_is_ngon ?fl"
      show "v_idcs m ! nat (loop_idx_btm_fan ?lx) =
              map (\<lambda>i. ?be + ?n - 1 - (i - 1) mod ?n) (py_range 0 ?n)"
        unfolding rec Fb by (rule fan_strip_ngon(1) [OF n ok el ngon])
      show "v_idcs m ! nat (loop_idx_top_fan ?lx) = map (\<lambda>i. ?te + i) (py_range 0 ?n)"
        unfolding rec Fb by (rule fan_strip_ngon(2) [OF n ok el ngon])
    }
    {
      assume uv: "calc_uvs p"
      have e: "uvs m = Some (final_vts p, ?U)" using rec(3) uv by simp
      have t: "cap_is_tri ?fl \<longrightarrow>
            (\<forall>i. 0 \<le> i \<and> i < ?n \<longrightarrow>
               ?U ! nat (loop_idx_btm_fan ?lx + i) =
                 [vt_idx_btm_spoke ?tx, ?ube + (i + 1) mod ?n, ?ube + i] \<and>
               ?U ! nat (loop_idx_top_fan ?lx + i) =
                 [vt_idx_top_spoke ?tx, ?ute + i, ?ute + (i + 1) mod ?n])"
        unfolding Ub using fan_strip_tri [OF n ok el] by blast
      have q: "cap_is_quad ?fl \<longrightarrow>
            (\<forall>h. 0 \<le> h \<and> h < ?n div 2 \<longrightarrow>
               ?U ! nat (loop_idx_btm_fan ?lx + h) =
                 [vt_idx_btm_spoke ?tx, ?ube + (h + h + 2) mod ?n,
                  ?ube + (h + h + 1) mod ?n, ?ube + (h + h)] \<and>
               ?U ! nat (loop_idx_top_fan ?lx + h) =
                 [vt_idx_top_spoke ?tx, ?ute + (h + h), ?ute + (h + h + 1) mod ?n,
                  ?ute + (h + h + 2) mod ?n])"
        unfolding Ub using fan_strip_quad [OF n ok el] by blast
      have g: "cap_is_ngon ?fl \<longrightarrow>
            ?U ! nat (loop_idx_btm_fan ?lx) =
              map (\<lambda>i. ?ube + ?n - 1 - (i - 1) mod ?n) (py_range 0 ?n) \<and>
            ?U ! nat (loop_idx_top_fan ?lx) = map (\<lambda>i. ?ute + i) (py_range 0 ?n)"
        unfolding Ub using fan_strip_ngon [OF n ok el] by blast
      from e t q g
      show "\<exists>vts ufs. uvs m = Some (vts, ufs) \<and>
                 (cap_is_tri ?fl \<longrightarrow>
                    (\<forall>i. 0 \<le> i \<and> i < ?n \<longrightarrow>
                       ufs ! nat (loop_idx_btm_fan ?lx + i) =
                         [vt_idx_btm_spoke ?tx, ?ube + (i + 1) mod ?n, ?ube + i] \<and>
                       ufs ! nat (loop_idx_top_fan ?lx + i) =
                         [vt_idx_top_spoke ?tx, ?ute + i, ?ute + (i + 1) mod ?n])) \<and>
                 (cap_is_quad ?fl \<longrightarrow>
                    (\<forall>h. 0 \<le> h \<and> h < ?n div 2 \<longrightarrow>
                       ufs ! nat (loop_idx_btm_fan ?lx + h) =
                         [vt_idx_btm_spoke ?tx, ?ube + (h + h + 2) mod ?n,
                          ?ube + (h + h + 1) mod ?n, ?ube + (h + h)] \<and>
                       ufs ! nat (loop_idx_top_fan ?lx + h) =
                         [vt_idx_top_spoke ?tx, ?ute + (h + h), ?ute + (h + h + 1) mod ?n,
                          ?ute + (h + h + 2) mod ?n])) \<and>
                 (cap_is_ngon ?fl \<longrightarrow>
                    ufs ! nat (loop_idx_btm_fan ?lx) =
                      map (\<lambda>i. ?ube + ?n - 1 - (i - 1) mod ?n) (py_range 0 ?n) \<and>
                    ufs ! nat (loop_idx_top_fan ?lx) =
                      map (\<lambda>i. ?ute + i) (py_range 0 ?n))"
        by blast
    }
  qed
  show ?thesis
    unfolding assms(4-11) fl'
    using al len te valid by blast
qed

theorem fan_aliases_edge_without_loops_witness:
  "use_caps (cap_flags 8 QUAD 0) \<and> \<not> use_edge_loops (cap_flags 8 QUAD 0) \<and>
   cap_is_quad (cap_flags 8 QUAD 0) \<and>
   v_idx_btm_fan (v_offsets 8 (cap_flags 8 QUAD 0)) = 1 \<and>
   v_idx_btm_edge (v_offsets 8 (cap_flags 8 QUAD 0)) = 1 \<and>
   v_idx_top_fan (v_offsets 8 (cap_flags 8 QUAD 0)) = 9 \<and>
   v_idx_top_edge (v_offsets 8 (cap_flags 8 QUAD 0)) = 9 \<and>
   vt_idx_btm_fan (vt_offsets 8 (cap_flags 8 QUAD 0)) = 18 \<and>
   vt_idx_btm_edge (vt_offsets 8 (cap_flags 8 QUAD 0)) = 18 \<and>
   vt_idx_top_fan (vt_offsets 8 (cap_flags 8 QUAD 0)) = 26 \<and>
   vt_idx_top_edge (vt_offsets 8 (cap_flags 8 QUAD 0)) = 26 \<and>
   len_vs (v_offsets 8 (cap_flags 8 QUAD 0)) = 18 \<and>
   (\<exists>m vts ufs. execute with_uvs = Inr m \<and> uvs m = Some (vts, ufs) \<and>
      length (vs m) = 18 \<and>
      vs m ! 1 = (1 / 2, 0, - (3 / 4)) \<and> vs m ! 9 = (1 / 2, 0, 3 / 4) \<and>
      v_idcs m ! 0 = [0, 3, 2, 1] \<and> v_idcs m ! 3 = [0, 1, 8, 7] \<and>
      v_idcs m ! 4 = [1, 2, 10, 9] \<and> v_idcs m ! 11 = [8, 1, 9, 16] \<and>
      v_idcs m ! 12 = [17, 9, 10, 11] \<and> v_idcs m ! 15 = [17, 15, 16, 9] \<and>
      ufs ! 0 = [34, 20, 19, 18] \<and> ufs ! 12 = [35, 26, 27, 28])"
proof -
  have s: "sectors with_uvs = 8" "cap_face_type with_uvs = QUAD"
    "edge_loop_fac with_uvs = 0" "orientation with_uvs = 0" "calc_uvs with_uvs"
    "radius_btm with_uvs = 1 / 2" "radius_top with_uvs = 1 / 2" "depth with_uvs = 3 / 2"
    "depth_offset with_uvs = 0"
    by (simp_all add: with_uvs_def default_params_def)
  have fl: "cap_flags 8 QUAD 0 =
      \<lparr> cap_is_none = False, cap_is_ngon = False, cap_is_quad = True, cap_is_tri = False,
        use_center_spoke = True, use_caps = True, use_edge_loops = False \<rparr>"
    by (simp add: cap_flags_def Let_def)
  have h: "use_caps (cap_flags 8 QUAD 0)" "\<not> use_edge_loops (cap_flags 8 QUAD 0)"
    by (simp_all add: fl)
  have fls: "use_center_spoke (cap_flags 8 QUAD 0)" "cap_is_quad (cap_flags 8 QUAD 0)"
    "\<not> cap_is_tri (cap_flags 8 QUAD 0)" "\<not> cap_is_ngon (cap_flags 8 QUAD 0)"
    by (simp_all add: fl)
  have e: "cap_flags 8 QUAD 0 =
      cap_flags (sectors with_uvs) (cap_face_type with_uvs) (edge_loop_fac with_uvs)"
    by (simp add: s)
  have v: "1 \<le> sectors with_uvs \<and> 0 < radius_btm with_uvs \<and> 0 < radius_top with_uvs \<and>
      0 < depth with_uvs"
    by (simp add: s)
  have z: "vz_btm with_uvs = - (3 / 4)" "vz_top with_uvs = 3 / 4"
    by (simp_all add: vz_btm_def vz_top_def vz_mid_def s Let_def)
  note t = fan_aliases_edge_without_loops [OF e h refl refl refl refl refl refl refl refl refl]
  have offs: "v_offsets 8 (cap_flags 8 QUAD 0) =
      \<lparr> v_idx_btm_spoke = 0, v_idx_btm_fan = 1, v_idx_btm_ctrl = 1, v_idx_btm_edge = 1,
        v_idx_side_lwr_ctrl = 9, v_idx_mid = 9, v_idx_side_upp_ctrl = 9, v_idx_top_edge = 9,
        v_idx_top_ctrl = 9, v_idx_top_fan = 9, v_idx_top_spoke = 17, len_vs = 18 \<rparr>"
    by (simp add: fl v_offsets_def Let_def)
  have uoffs: "vt_idx_btm_fan (vt_offsets 8 (cap_flags 8 QUAD 0)) = 18"
    "vt_idx_btm_edge (vt_offsets 8 (cap_flags 8 QUAD 0)) = 18"
    "vt_idx_top_fan (vt_offsets 8 (cap_flags 8 QUAD 0)) = 26"
    "vt_idx_top_edge (vt_offsets 8 (cap_flags 8 QUAD 0)) = 26"
    "vt_idx_btm_spoke (vt_offsets 8 (cap_flags 8 QUAD 0)) = 34"
    "vt_idx_top_spoke (vt_offsets 8 (cap_flags 8 QUAD 0)) = 35"
    by (simp_all add: fl vt_offsets_def vt_len_def Let_def)
  have loffs: "loop_idx_btm_fan (loop_offsets 8 (cap_flags 8 QUAD 0)) = 0"
    "loop_idx_side_lwr_ctrl (loop_offsets 8 (cap_flags 8 QUAD 0)) = 4"
    "loop_idx_top_fan (loop_offsets 8 (cap_flags 8 QUAD 0)) = 12"
    by (simp_all add: fl loop_offsets_def cap_loops_def Let_def)
  from t have valid: "((\<exists>m. execute with_uvs = Inr m) \<longleftrightarrow> True) \<and>
      (\<forall>m. execute with_uvs = Inr m \<longrightarrow>
         int (length (vs m)) = 18 \<and>
         (\<forall>i. 0 \<le> i \<and> i < 8 \<longrightarrow>
            vs m ! nat (1 + i) =
              (cos (real_of_int i * (2 * pi / 8)) * (1 / 2),
               sin (real_of_int i * (2 * pi / 8)) * (1 / 2), - (3 / 4)) \<and>
            vs m ! nat (9 + i) =
              (cos (real_of_int i * (2 * pi / 8)) * (1 / 2),
               sin (real_of_int i * (2 * pi / 8)) * (1 / 2), 3 / 4) \<and>
            v_idcs m ! nat (4 + i) = [1 + i, 1 + (i + 1) mod 8, 9 + (i + 1) mod 8, 9 + i]) \<and>
         (\<forall>h. 0 \<le> h \<and> h < 4 \<longrightarrow>
            v_idcs m ! nat (0 + h) =
              [0, 1 + (h + h + 2) mod 8, 1 + (h + h + 1) mod 8, 1 + (h + h)] \<and>
            v_idcs m ! nat (12 + h) =
              [17, 9 + (h + h), 9 + (h + h + 1) mod 8, 9 + (h + h + 2) mod 8]) \<and>
         (\<exists>vts ufs. uvs m = Some (vts, ufs) \<and>
            (\<forall>h. 0 \<le> h \<and> h < 4 \<longrightarrow>
               ufs ! nat (0 + h) =
                 [34, 18 + (h + h + 2) mod 8, 18 + (h + h + 1) mod 8, 18 + (h + h)] \<and>
               ufs ! nat (12 + h) =
                 [35, 26 + (h + h), 26 + (h + h + 1) mod 8, 26 + (h + h + 2) mod 8])))"
    using v by (simp add: s h fls offs uoffs loffs z)
  then obtain m where m: "execute with_uvs = Inr m" by blast
  from valid m obtain vts ufs where u: "uvs m = Some (vts, ufs)"
    and uf: "\<forall>h. 0 \<le> h \<and> h < 4 \<longrightarrow>
               ufs ! nat (0 + h) =
                 [34, 18 + (h + h + 2) mod 8, 18 + (h + h + 1) mod 8, 18 + (h + h)] \<and>
               ufs ! nat (12 + h) =
                 [35, 26 + (h + h), 26 + (h + h + 1) mod 8, 26 + (h + h + 2) mod 8]"
    by blast
  from valid m have l: "int (length (vs m)) = 18"
    and sd: "\<forall>i. 0 \<le> i \<and> i < 8 \<longrightarrow>
            vs m ! nat (1 + i) =
              (cos (real_of_int i * (2 * pi / 8)) * (1 / 2),
               sin (real_of_int i * (2 * pi / 8)) * (1 / 2), - (3 / 4)) \<and>
            vs m ! nat (9 + i) =
              (cos (real_of_int i * (2 * pi / 8)) * (1 / 2),
               sin (real_of_int i * (2 * pi / 8)) * (1 / 2), 3 / 4) \<and>
            v_idcs m ! nat (4 + i) = [1 + i, 1 + (i + 1) mod 8, 9 + (i + 1) mod 8, 9 + i]"
    and cp: "\<forall>h. 0 \<le> h \<and> h < 4 \<longrightarrow>
            v_idcs m ! nat (0 + h) =
              [0, 1 + (h + h + 2) mod 8, 1 + (h + h + 1) mod 8, 1 + (h + h)] \<and>
            v_idcs m ! nat (12 + h) =
              [17, 9 + (h + h), 9 + (h + h + 1) mod 8, 9 + (h + h + 2) mod 8]"
    by blast+
  from l have l': "length (vs m) = 18" by simp
  from sd [rule_format, of 0] sd [rule_format, of 7]
    cp [rule_format, of 0] cp [rule_format, of 3] uf [rule_format, of 0]
  have "vs m ! 1 = (1 / 2, 0, - (3 / 4))" "vs m ! 9 = (1 / 2, 0, 3 / 4)"
    "v_idcs m ! 0 = [0, 3, 2, 1]" "v_idcs m ! 3 = [0, 1, 8, 7]"
    "v_idcs m ! 4 = [1, 2, 10, 9]" "v_idcs m ! 11 = [8, 1, 9, 16]"
    "v_idcs m ! 12 = [17, 9, 10, 11]" "v_idcs m ! 15 = [17, 15, 16, 9]"
    "ufs ! 0 = [34, 20, 19, 18]" "ufs ! 12 = [35, 26, 27, 28]"
    by simp_all
  with m u l' show ?thesis
    by (simp add: h fls offs uoffs)
qed

end
